theory Spec2Isabelle
  imports Main "HOL-Library.Word"
begin

section \<open>Solidity value types, errors and checked arithmetic\<close>

text \<open>
  The three contracts of the repository (URBEToken, TokenFactory, TokenRegistry) are
  embedded as state-passing functions. A call either returns the updated contract state
  (\<open>Inr\<close>) or reverts with an error (\<open>Inl\<close>); a reverted call leaves the storage it
  was started on, since only \<open>Inr\<close> carries a new state.

  \<open>uint256\<close> is a 256-bit word and \<open>address\<close> a 160-bit word. Since Solidity 0.8
  the operators \<open>+\<close>, \<open>-\<close>, \<open>++\<close> and \<open>--\<close> revert with \<open>Panic(0x11)\<close> on
  overflow and underflow; inside an \<open>unchecked\<close> block they wrap.
\<close>

type_synonym address = "160 word"
type_synonym uint256 = "256 word"
type_synonym uint8 = "8 word"

text \<open>
  The role identifiers of AccessControl. \<open>MINTER_ROLE\<close>, \<open>BURNER_ROLE\<close> and
  \<open>PAUSER_ROLE\<close> are keccak256 hashes of their names; the hash is kept abstract.
\<close>

datatype role = DEFAULT_ADMIN_ROLE | MINTER_ROLE | BURNER_ROLE | PAUSER_ROLE | OtherRole uint256

datatype error =
    \<comment> \<open>URBEToken\<close>
    MintingDisabled | BurningDisabled | PausingDisabled | MaxSupplyExceeded
  | ZeroAmount | ZeroAddress | InsufficientBalance
    \<comment> \<open>TokenFactory\<close>
  | FactoryPaused | EmptyName | EmptySymbol | ZeroInitialSupply | ZeroMaxSupply
  | InitialSupplyExceedsMax | MaxTokensPerCreatorExceeded | InsufficientDeploymentFee
  | InvalidTokenAddress | NoTokensFound | IndexOutOfBounds
    \<comment> \<open>TokenRegistry\<close>
  | RegistryPaused | TokenAlreadyRegistered | TokenNotRegistered | InvalidCreatorAddress
  | InvalidCategoryId | InsufficientRegistrationFee | EmptyDescription | OnlyCreator
  | OnlyVerifiedCreator | TokenNotVerified
    \<comment> \<open>the imported OpenZeppelin base contracts\<close>
  | OwnableUnauthorizedAccount address | OwnableInvalidOwner address
  | EnforcedPause | ExpectedPause
  | AccessControlUnauthorizedAccount address role | AccessControlBadConfirmation
  | ERC20InsufficientBalance address uint256 uint256
  | ERC20InsufficientAllowance address uint256 uint256
  | ERC20InvalidSender address | ERC20InvalidReceiver address
  | ERC20InvalidApprover address | ERC20InvalidSpender address
    \<comment> \<open>the EVM and the compiler\<close>
  | Panic nat | EmptyRevert | AbiDecodeFailed | CreateCollision

definition checked_add :: "uint256 \<Rightarrow> uint256 \<Rightarrow> error + uint256" where
  "checked_add a b = (if unat a + unat b < 2 ^ 256 then Inr (a + b) else Inl (Panic 17))"

definition checked_sub :: "uint256 \<Rightarrow> uint256 \<Rightarrow> error + uint256" where
  "checked_sub a b = (if b \<le> a then Inr (a - b) else Inl (Panic 17))"

section \<open>URBEToken\<close>

text \<open>
  Source: \<^verbatim>\<open>contracts/src/URBEToken.sol\<close>.
  The storage of URBEToken together with the storage of the contracts it inherits:
  ERC20 (name, symbol, total supply, balances, allowances), Ownable (owner), Pausable
  (paused) and AccessControl (role members; the admin of every role is
  \<open>DEFAULT_ADMIN_ROLE\<close>, which the contract never changes). The base contracts are
  imported from OpenZeppelin Contracts 5 and are modelled after that library.
  ReentrancyGuard is not modelled: no function of the token calls another contract, so
  the guard never fires.
\<close>

record token =
  t_name :: string
  t_symbol :: string
  t_totalSupply :: uint256
  t_balances :: "address \<Rightarrow> uint256"
  t_allowances :: "address \<Rightarrow> address \<Rightarrow> uint256"
  t_owner :: address
  t_paused :: bool
  t_roles :: "role \<Rightarrow> address \<Rightarrow> bool"
  t_maxSupply :: uint256
  t_mintingEnabled :: bool
  t_burningEnabled :: bool
  t_pausingEnabled :: bool

subsection \<open>Inherited internals\<close>

text \<open>
  \<open>ERC20._update\<close>, overridden by URBEToken with \<open>whenNotPaused\<close>. Only the
  addition to the total supply is checked; the other three updates are \<open>unchecked\<close>.
\<close>

definition ERC20_update :: "address \<Rightarrow> address \<Rightarrow> uint256 \<Rightarrow> token \<Rightarrow> error + token" where
  "ERC20_update from to v s =
     (if t_paused s then Inl EnforcedPause
      else case (if from = 0
                 then (case checked_add (t_totalSupply s) v of
                         Inl e \<Rightarrow> Inl e
                       | Inr ts \<Rightarrow> Inr (s\<lparr>t_totalSupply := ts\<rparr>))
                 else (if t_balances s from < v
                       then Inl (ERC20InsufficientBalance from (t_balances s from) v)
                       else Inr (s\<lparr>t_balances := (t_balances s)(from := t_balances s from - v)\<rparr>)))
           of Inl e \<Rightarrow> Inl e
            | Inr s1 \<Rightarrow>
                Inr (if to = 0 then s1\<lparr>t_totalSupply := t_totalSupply s1 - v\<rparr>
                     else s1\<lparr>t_balances := (t_balances s1)(to := t_balances s1 to + v)\<rparr>))"

definition ERC20_mint :: "address \<Rightarrow> uint256 \<Rightarrow> token \<Rightarrow> error + token" where
  "ERC20_mint account v s =
     (if account = 0 then Inl (ERC20InvalidReceiver 0) else ERC20_update 0 account v s)"

definition ERC20_burn :: "address \<Rightarrow> uint256 \<Rightarrow> token \<Rightarrow> error + token" where
  "ERC20_burn account v s =
     (if account = 0 then Inl (ERC20InvalidSender 0) else ERC20_update account 0 v s)"

definition ERC20_transfer :: "address \<Rightarrow> address \<Rightarrow> uint256 \<Rightarrow> token \<Rightarrow> error + token" where
  "ERC20_transfer from to v s =
     (if from = 0 then Inl (ERC20InvalidSender 0)
      else if to = 0 then Inl (ERC20InvalidReceiver 0)
      else ERC20_update from to v s)"

definition ERC20_approve :: "address \<Rightarrow> address \<Rightarrow> uint256 \<Rightarrow> token \<Rightarrow> error + token" where
  "ERC20_approve holder spender v s =
     (if holder = 0 then Inl (ERC20InvalidApprover 0)
      else if spender = 0 then Inl (ERC20InvalidSpender 0)
      else Inr (s\<lparr>t_allowances := (t_allowances s)(holder := (t_allowances s holder)(spender := v))\<rparr>))"

definition ERC20_spendAllowance :: "address \<Rightarrow> address \<Rightarrow> uint256 \<Rightarrow> token \<Rightarrow> error + token" where
  "ERC20_spendAllowance holder spender v s =
     (let currentAllowance = t_allowances s holder spender in
      if currentAllowance < - 1
      then (if currentAllowance < v
            then Inl (ERC20InsufficientAllowance spender currentAllowance v)
            else ERC20_approve holder spender (currentAllowance - v) s)
      else Inr s)"

definition hasRole :: "role \<Rightarrow> address \<Rightarrow> token \<Rightarrow> bool" where
  "hasRole r account s = t_roles s r account"

definition AC_grantRole :: "role \<Rightarrow> address \<Rightarrow> token \<Rightarrow> token" where
  "AC_grantRole r account s = s\<lparr>t_roles := (t_roles s)(r := (t_roles s r)(account := True))\<rparr>"

definition AC_revokeRole :: "role \<Rightarrow> address \<Rightarrow> token \<Rightarrow> token" where
  "AC_revokeRole r account s = s\<lparr>t_roles := (t_roles s)(r := (t_roles s r)(account := False))\<rparr>"

text \<open>The modifiers \<open>onlyOwner\<close>, \<open>onlyRole\<close>, \<open>whenNotPaused\<close> and \<open>whenPaused\<close>:
  \<open>None\<close> when the guard lets the call through.\<close>

definition onlyOwner :: "address \<Rightarrow> address \<Rightarrow> error option" where
  "onlyOwner sender ownr = (if ownr \<noteq> sender then Some (OwnableUnauthorizedAccount sender) else None)"

definition onlyRole :: "role \<Rightarrow> address \<Rightarrow> token \<Rightarrow> error option" where
  "onlyRole r sender s =
     (if \<not> hasRole r sender s then Some (AccessControlUnauthorizedAccount sender r) else None)"

definition whenNotPaused :: "token \<Rightarrow> error option" where
  "whenNotPaused s = (if t_paused s then Some EnforcedPause else None)"

definition whenPaused :: "token \<Rightarrow> error option" where
  "whenPaused s = (if \<not> t_paused s then Some ExpectedPause else None)"

text \<open>A guarded body: the first guard that fires decides the revert.\<close>

fun guarded :: "error option list \<Rightarrow> (error + 'a) \<Rightarrow> error + 'a" where
  "guarded [] body = body"
| "guarded (None # gs) body = guarded gs body"
| "guarded (Some e # gs) body = Inl e"

subsection \<open>Constructor and internal functions of URBEToken\<close>

text \<open>
  The base constructor \<open>Ownable(initialOwner)\<close> runs before the body and rejects the
  zero owner itself, so the body's own zero-address test never fires; it is kept in
  place. A freshly constructed token is not paused, holds no balances and no
  allowances.
\<close>

definition tok_constructor ::
  "string \<Rightarrow> string \<Rightarrow> uint256 \<Rightarrow> uint256 \<Rightarrow> address \<Rightarrow> bool \<Rightarrow> bool \<Rightarrow> bool \<Rightarrow> error + token" where
  "tok_constructor name' symbol' initialSupply maxSupply' initialOwner mintingEnabled'
       burningEnabled' pausingEnabled' =
     (if initialOwner = 0 then Inl (OwnableInvalidOwner 0)
      else if initialOwner = 0 then Inl ZeroAddress
      else if maxSupply' = 0 then Inl ZeroAmount
      else if initialSupply > maxSupply' then Inl MaxSupplyExceeded
      else
        let s0 = \<lparr>t_name = name', t_symbol = symbol', t_totalSupply = 0,
                  t_balances = (\<lambda>_. 0), t_allowances = (\<lambda>_ _. 0),
                  t_owner = initialOwner, t_paused = False, t_roles = (\<lambda>_ _. False),
                  t_maxSupply = maxSupply', t_mintingEnabled = mintingEnabled',
                  t_burningEnabled = burningEnabled', t_pausingEnabled = pausingEnabled'\<rparr>;
            s1 = AC_grantRole PAUSER_ROLE initialOwner
                   (AC_grantRole BURNER_ROLE initialOwner
                     (AC_grantRole MINTER_ROLE initialOwner
                       (AC_grantRole DEFAULT_ADMIN_ROLE initialOwner s0)))
        in if initialSupply > 0 then ERC20_mint initialOwner initialSupply s1 else Inr s1)"

definition int_mintTokens :: "address \<Rightarrow> uint256 \<Rightarrow> token \<Rightarrow> error + token" where
  "int_mintTokens to amount s =
     (if \<not> t_mintingEnabled s then Inl MintingDisabled
      else if to = 0 then Inl ZeroAddress
      else if amount = 0 then Inl ZeroAmount
      else case checked_add (t_totalSupply s) amount of
             Inl e \<Rightarrow> Inl e
           | Inr newSupply \<Rightarrow>
               if newSupply > t_maxSupply s then Inl MaxSupplyExceeded
               else ERC20_mint to amount s)"

definition int_burnTokens :: "address \<Rightarrow> uint256 \<Rightarrow> token \<Rightarrow> error + token" where
  "int_burnTokens from amount s =
     (if \<not> t_burningEnabled s then Inl BurningDisabled
      else if amount = 0 then Inl ZeroAmount
      else if t_balances s from < amount then Inl InsufficientBalance
      else ERC20_burn from amount s)"

definition int_burnTokensFrom :: "address \<Rightarrow> uint256 \<Rightarrow> token \<Rightarrow> error + token" where
  "int_burnTokensFrom from amount s =
     (if \<not> t_burningEnabled s then Inl BurningDisabled
      else if from = 0 then Inl ZeroAddress
      else if amount = 0 then Inl ZeroAmount
      else if t_balances s from < amount then Inl InsufficientBalance
      else ERC20_burn from amount s)"

subsection \<open>External functions of URBEToken\<close>

definition tok_mint :: "address \<Rightarrow> address \<Rightarrow> uint256 \<Rightarrow> token \<Rightarrow> error + token" where
  "tok_mint sender to amount s =
     guarded [onlyOwner sender (t_owner s), whenNotPaused s] (int_mintTokens to amount s)"

definition tok_mintByMinter :: "address \<Rightarrow> address \<Rightarrow> uint256 \<Rightarrow> token \<Rightarrow> error + token" where
  "tok_mintByMinter sender to amount s =
     guarded [onlyRole MINTER_ROLE sender s, whenNotPaused s] (int_mintTokens to amount s)"

definition tok_burn :: "address \<Rightarrow> uint256 \<Rightarrow> token \<Rightarrow> error + token" where
  "tok_burn sender amount s = guarded [whenNotPaused s] (int_burnTokens sender amount s)"

definition tok_burnFrom :: "address \<Rightarrow> address \<Rightarrow> uint256 \<Rightarrow> token \<Rightarrow> error + token" where
  "tok_burnFrom sender from amount s =
     guarded [onlyRole BURNER_ROLE sender s, whenNotPaused s] (int_burnTokensFrom from amount s)"

definition tok_pause :: "address \<Rightarrow> token \<Rightarrow> error + token" where
  "tok_pause sender s =
     guarded [onlyRole PAUSER_ROLE sender s, whenNotPaused s]
       (if \<not> t_pausingEnabled s then Inl PausingDisabled else Inr (s\<lparr>t_paused := True\<rparr>))"

definition tok_unpause :: "address \<Rightarrow> token \<Rightarrow> error + token" where
  "tok_unpause sender s =
     guarded [onlyRole PAUSER_ROLE sender s, whenPaused s]
       (if \<not> t_pausingEnabled s then Inl PausingDisabled else Inr (s\<lparr>t_paused := False\<rparr>))"

definition tok_toggleMinting :: "address \<Rightarrow> bool \<Rightarrow> token \<Rightarrow> error + token" where
  "tok_toggleMinting sender enabled s =
     guarded [onlyOwner sender (t_owner s)] (Inr (s\<lparr>t_mintingEnabled := enabled\<rparr>))"

definition tok_toggleBurning :: "address \<Rightarrow> bool \<Rightarrow> token \<Rightarrow> error + token" where
  "tok_toggleBurning sender enabled s =
     guarded [onlyOwner sender (t_owner s)] (Inr (s\<lparr>t_burningEnabled := enabled\<rparr>))"

definition tok_togglePausing :: "address \<Rightarrow> bool \<Rightarrow> token \<Rightarrow> error + token" where
  "tok_togglePausing sender enabled s =
     guarded [onlyOwner sender (t_owner s)] (Inr (s\<lparr>t_pausingEnabled := enabled\<rparr>))"

text \<open>\<open>grantMinterRole\<close>, \<open>grantBurnerRole\<close>, \<open>grantPauserRole\<close> and their three
  revoking counterparts differ in the role only.\<close>

definition tok_grantNamedRole :: "role \<Rightarrow> address \<Rightarrow> address \<Rightarrow> token \<Rightarrow> error + token" where
  "tok_grantNamedRole r sender account s =
     guarded [onlyOwner sender (t_owner s)]
       (if account = 0 then Inl ZeroAddress else Inr (AC_grantRole r account s))"

definition tok_revokeNamedRole :: "role \<Rightarrow> address \<Rightarrow> address \<Rightarrow> token \<Rightarrow> error + token" where
  "tok_revokeNamedRole r sender account s =
     guarded [onlyOwner sender (t_owner s)]
       (if account = 0 then Inl ZeroAddress else Inr (AC_revokeRole r account s))"

subsection \<open>External functions inherited from the base contracts\<close>

definition tok_transfer :: "address \<Rightarrow> address \<Rightarrow> uint256 \<Rightarrow> token \<Rightarrow> error + token" where
  "tok_transfer sender to v s = ERC20_transfer sender to v s"

definition tok_approve :: "address \<Rightarrow> address \<Rightarrow> uint256 \<Rightarrow> token \<Rightarrow> error + token" where
  "tok_approve sender spender v s = ERC20_approve sender spender v s"

definition tok_transferFrom :: "address \<Rightarrow> address \<Rightarrow> address \<Rightarrow> uint256 \<Rightarrow> token \<Rightarrow> error + token" where
  "tok_transferFrom sender from to v s =
     (case ERC20_spendAllowance from sender v s of
        Inl e \<Rightarrow> Inl e
      | Inr s1 \<Rightarrow> ERC20_transfer from to v s1)"

definition tok_transferOwnership :: "address \<Rightarrow> address \<Rightarrow> token \<Rightarrow> error + token" where
  "tok_transferOwnership sender newOwner s =
     guarded [onlyOwner sender (t_owner s)]
       (if newOwner = 0 then Inl (OwnableInvalidOwner 0) else Inr (s\<lparr>t_owner := newOwner\<rparr>))"

definition tok_renounceOwnership :: "address \<Rightarrow> token \<Rightarrow> error + token" where
  "tok_renounceOwnership sender s =
     guarded [onlyOwner sender (t_owner s)] (Inr (s\<lparr>t_owner := 0\<rparr>))"

definition tok_grantRole :: "address \<Rightarrow> role \<Rightarrow> address \<Rightarrow> token \<Rightarrow> error + token" where
  "tok_grantRole sender r account s =
     guarded [onlyRole DEFAULT_ADMIN_ROLE sender s] (Inr (AC_grantRole r account s))"

definition tok_revokeRole :: "address \<Rightarrow> role \<Rightarrow> address \<Rightarrow> token \<Rightarrow> error + token" where
  "tok_revokeRole sender r account s =
     guarded [onlyRole DEFAULT_ADMIN_ROLE sender s] (Inr (AC_revokeRole r account s))"

definition tok_renounceRole :: "address \<Rightarrow> role \<Rightarrow> address \<Rightarrow> token \<Rightarrow> error + token" where
  "tok_renounceRole sender r callerConfirmation s =
     (if callerConfirmation \<noteq> sender then Inl AccessControlBadConfirmation
      else Inr (AC_revokeRole r callerConfirmation s))"

subsection \<open>Transactions and reachable states of a token\<close>

datatype token_call =
    Mint address uint256 | MintByMinter address uint256
  | Burn uint256 | BurnFrom address uint256
  | Pause | Unpause
  | ToggleMinting bool | ToggleBurning bool | TogglePausing bool
  | GrantMinterRole address | RevokeMinterRole address
  | GrantBurnerRole address | RevokeBurnerRole address
  | GrantPauserRole address | RevokePauserRole address
  | Transfer address uint256 | Approve address uint256
  | TransferFrom address address uint256
  | TransferOwnership address | RenounceOwnership
  | GrantRole role address | RevokeRole role address | RenounceRole role address

text \<open>\<open>tok_call sender c s\<close>: the transaction \<open>c\<close> sent by \<open>sender\<close> to a token in
  state \<open>s\<close>. No function of the token is payable, so the transaction carries no
  ether.\<close>

fun tok_call :: "address \<Rightarrow> token_call \<Rightarrow> token \<Rightarrow> error + token" where
  "tok_call sender (Mint to amount) s = tok_mint sender to amount s"
| "tok_call sender (MintByMinter to amount) s = tok_mintByMinter sender to amount s"
| "tok_call sender (Burn amount) s = tok_burn sender amount s"
| "tok_call sender (BurnFrom from amount) s = tok_burnFrom sender from amount s"
| "tok_call sender Pause s = tok_pause sender s"
| "tok_call sender Unpause s = tok_unpause sender s"
| "tok_call sender (ToggleMinting b) s = tok_toggleMinting sender b s"
| "tok_call sender (ToggleBurning b) s = tok_toggleBurning sender b s"
| "tok_call sender (TogglePausing b) s = tok_togglePausing sender b s"
| "tok_call sender (GrantMinterRole a) s = tok_grantNamedRole MINTER_ROLE sender a s"
| "tok_call sender (RevokeMinterRole a) s = tok_revokeNamedRole MINTER_ROLE sender a s"
| "tok_call sender (GrantBurnerRole a) s = tok_grantNamedRole BURNER_ROLE sender a s"
| "tok_call sender (RevokeBurnerRole a) s = tok_revokeNamedRole BURNER_ROLE sender a s"
| "tok_call sender (GrantPauserRole a) s = tok_grantNamedRole PAUSER_ROLE sender a s"
| "tok_call sender (RevokePauserRole a) s = tok_revokeNamedRole PAUSER_ROLE sender a s"
| "tok_call sender (Transfer to v) s = tok_transfer sender to v s"
| "tok_call sender (Approve spender v) s = tok_approve sender spender v s"
| "tok_call sender (TransferFrom from to v) s = tok_transferFrom sender from to v s"
| "tok_call sender (TransferOwnership a) s = tok_transferOwnership sender a s"
| "tok_call sender RenounceOwnership s = tok_renounceOwnership sender s"
| "tok_call sender (GrantRole r a) s = tok_grantRole sender r a s"
| "tok_call sender (RevokeRole r a) s = tok_revokeRole sender r a s"
| "tok_call sender (RenounceRole r a) s = tok_renounceRole sender r a s"

inductive token_reachable :: "token \<Rightarrow> bool" where
  deployed:
    "tok_constructor name' symbol' initialSupply maxSupply' initialOwner me be pe = Inr s
     \<Longrightarrow> token_reachable s"
| called:
    "token_reachable s \<Longrightarrow> tok_call sender c s = Inr s' \<Longrightarrow> token_reachable s'"

section \<open>The transaction environment\<close>

text \<open>
  What a call reads from outside the contract's storage: the caller, the ether sent, the
  block time, the contract's own ether balance, whether an ether transfer made by the
  call succeeds, the address at which the EVM places a contract created by the call, and
  what other contracts answer when they are called. A call to another contract either
  reverts, returns no data, returns data that does not decode at the expected type, or
  returns a value.
\<close>

datatype 'a reply = CallReverted | ReturnedNothing | ReturnedGarbage | Returned 'a

record erc20_view =
  name_reply :: "string reply"
  symbol_reply :: "string reply"
  decimals_reply :: "uint8 reply"
  totalSupply_reply :: "uint256 reply"
  maxSupply_reply :: "uint256 reply"

record txn =
  msg_sender :: address
  msg_value :: uint256
  block_timestamp :: uint256
  this_balance :: uint256
  send_succeeds :: bool
  create_address :: address
  remote :: "address \<Rightarrow> erc20_view"

text \<open>
  The entry code that the compiler puts before every function that is not \<open>payable\<close>
  reverts, without data, a call that carries ether.
\<close>

definition nonpayable :: "txn \<Rightarrow> error + 'a \<Rightarrow> error + 'a" where
  "nonpayable e body = (if msg_value e \<noteq> 0 then Inl EmptyRevert else body)"

text \<open>
  A transaction sent to the factory or to the registry: the environment, the call, and
  the transactions that run inside it. \<open>withdrawFees\<close> of either contract sends the
  ether with \<open>to.call{value: amount}("")\<close> and does not carry \<open>nonReentrant\<close>, so
  the recipient has control before \<open>withdrawFees\<close> returns and can call the contract
  back any number of times. Each of these calls is a transaction of its own, with its
  own caller, value and inner transactions; one that reverts leaves the state as it was
  and the recipient goes on. A recipient that reverts itself makes the send fail
  (\<open>send_succeeds\<close>).
\<close>

datatype 'c tx = Tx txn 'c "'c tx list"

section \<open>TokenFactory\<close>

record TokenInfo =
  ti_tokenAddress :: address
  ti_name :: string
  ti_symbol :: string
  ti_initialSupply :: uint256
  ti_maxSupply :: uint256
  ti_creator :: address
  ti_createdAt :: uint256
  ti_mintingEnabled :: bool
  ti_burningEnabled :: bool
  ti_pausingEnabled :: bool

definition zero_TokenInfo :: TokenInfo where
  "zero_TokenInfo =
     \<lparr>ti_tokenAddress = 0, ti_name = [], ti_symbol = [], ti_initialSupply = 0,
      ti_maxSupply = 0, ti_creator = 0, ti_createdAt = 0, ti_mintingEnabled = False,
      ti_burningEnabled = False, ti_pausingEnabled = False\<rparr>"

text \<open>
  Source: \<^verbatim>\<open>contracts/src/TokenFactory.sol\<close>.
  The storage of the factory and of Ownable. \<open>f_deployed\<close> is not storage: it is the
  part of the chain's accounts that the factory created, each token in its state at
  creation. The EVM never creates a contract at an address that already holds one; the
  creation reverts instead.
\<close>

record factory =
  f_owner :: address
  f_tokensByCreator :: "address \<Rightarrow> address list"
  f_tokenInfo :: "address \<Rightarrow> TokenInfo"
  f_allTokens :: "address list"
  f_totalTokensDeployed :: uint256
  f_maxTokensPerCreator :: uint256
  f_deploymentFee :: uint256
  f_factoryPaused :: bool
  f_deployed :: "address \<rightharpoonup> token"

definition fac_constructor :: "address \<Rightarrow> uint256 \<Rightarrow> uint256 \<Rightarrow> error + factory" where
  "fac_constructor initialOwner initialDeploymentFee initialMaxTokensPerCreator =
     (if initialOwner = 0 then Inl (OwnableInvalidOwner 0)
      else if initialOwner = 0 then Inl InvalidTokenAddress
      else Inr \<lparr>f_owner = initialOwner, f_tokensByCreator = (\<lambda>_. []),
                f_tokenInfo = (\<lambda>_. zero_TokenInfo), f_allTokens = [],
                f_totalTokensDeployed = 0,
                f_maxTokensPerCreator = initialMaxTokensPerCreator,
                f_deploymentFee = initialDeploymentFee, f_factoryPaused = False,
                f_deployed = Map.empty\<rparr>)"

text \<open>\<open>new URBEToken(...)\<close>: the constructor runs and its revert is passed on.\<close>

definition new_URBEToken ::
  "txn \<Rightarrow> factory \<Rightarrow> string \<Rightarrow> string \<Rightarrow> uint256 \<Rightarrow> uint256 \<Rightarrow> address \<Rightarrow> bool \<Rightarrow> bool \<Rightarrow> bool
     \<Rightarrow> error + (address \<times> token)" where
  "new_URBEToken e s name' symbol' initialSupply maxSupply' tokenOwner me be pe =
     (if create_address e \<in> dom (f_deployed s) then Inl CreateCollision
      else case tok_constructor name' symbol' initialSupply maxSupply' tokenOwner me be pe of
             Inl err \<Rightarrow> Inl err
           | Inr tok \<Rightarrow> Inr (create_address e, tok))"

definition int_deployToken ::
  "txn \<Rightarrow> string \<Rightarrow> string \<Rightarrow> uint256 \<Rightarrow> uint256 \<Rightarrow> address \<Rightarrow> bool \<Rightarrow> bool \<Rightarrow> bool \<Rightarrow> factory
     \<Rightarrow> error + (address \<times> factory)" where
  "int_deployToken e name' symbol' initialSupply maxSupply' tokenOwner me be pe s =
     (if f_factoryPaused s then Inl FactoryPaused
      else if length name' = 0 then Inl EmptyName
      else if length symbol' = 0 then Inl EmptySymbol
      else if initialSupply = 0 then Inl ZeroInitialSupply
      else if maxSupply' = 0 then Inl ZeroMaxSupply
      else if initialSupply > maxSupply' then Inl InitialSupplyExceedsMax
      else if tokenOwner = 0 then Inl InvalidTokenAddress
      else if msg_value e < f_deploymentFee s then Inl InsufficientDeploymentFee
      else
        let creatorTokenCount = length (f_tokensByCreator s (msg_sender e)) in
        if creatorTokenCount \<ge> unat (f_maxTokensPerCreator s) then Inl MaxTokensPerCreatorExceeded
        else case new_URBEToken e s name' symbol' initialSupply maxSupply' tokenOwner me be pe of
               Inl err \<Rightarrow> Inl err
             | Inr (tokenAddress, tok) \<Rightarrow>
                 let info = \<lparr>ti_tokenAddress = tokenAddress, ti_name = name',
                             ti_symbol = symbol', ti_initialSupply = initialSupply,
                             ti_maxSupply = maxSupply', ti_creator = msg_sender e,
                             ti_createdAt = block_timestamp e, ti_mintingEnabled = me,
                             ti_burningEnabled = be, ti_pausingEnabled = pe\<rparr>
                 in (case checked_add (f_totalTokensDeployed s) 1 of
                       Inl err \<Rightarrow> Inl err
                     | Inr n \<Rightarrow>
                         Inr (tokenAddress,
                              s\<lparr>f_tokenInfo := (f_tokenInfo s)(tokenAddress := info),
                                f_tokensByCreator := (f_tokensByCreator s)
                                  (msg_sender e := f_tokensByCreator s (msg_sender e) @ [tokenAddress]),
                                f_allTokens := f_allTokens s @ [tokenAddress],
                                f_totalTokensDeployed := n,
                                f_deployed := (f_deployed s)(tokenAddress := Some tok)\<rparr>)))"

definition fac_deployToken ::
  "txn \<Rightarrow> string \<Rightarrow> string \<Rightarrow> uint256 \<Rightarrow> uint256 \<Rightarrow> bool \<Rightarrow> bool \<Rightarrow> bool \<Rightarrow> factory
     \<Rightarrow> error + (address \<times> factory)" where
  "fac_deployToken e name' symbol' initialSupply maxSupply' me be pe s =
     int_deployToken e name' symbol' initialSupply maxSupply' (msg_sender e) me be pe s"

definition fac_deployTokenWithOwner ::
  "txn \<Rightarrow> string \<Rightarrow> string \<Rightarrow> uint256 \<Rightarrow> uint256 \<Rightarrow> address \<Rightarrow> bool \<Rightarrow> bool \<Rightarrow> bool \<Rightarrow> factory
     \<Rightarrow> error + (address \<times> factory)" where
  "fac_deployTokenWithOwner e name' symbol' initialSupply maxSupply' tokenOwner me be pe s =
     int_deployToken e name' symbol' initialSupply maxSupply' tokenOwner me be pe s"

definition fac_setDeploymentFee :: "txn \<Rightarrow> uint256 \<Rightarrow> factory \<Rightarrow> error + factory" where
  "fac_setDeploymentFee e newFee s =
     guarded [onlyOwner (msg_sender e) (f_owner s)] (Inr (s\<lparr>f_deploymentFee := newFee\<rparr>))"

definition fac_setMaxTokensPerCreator :: "txn \<Rightarrow> uint256 \<Rightarrow> factory \<Rightarrow> error + factory" where
  "fac_setMaxTokensPerCreator e newMax s =
     guarded [onlyOwner (msg_sender e) (f_owner s)] (Inr (s\<lparr>f_maxTokensPerCreator := newMax\<rparr>))"

definition fac_setFactoryPaused :: "txn \<Rightarrow> bool \<Rightarrow> factory \<Rightarrow> error + factory" where
  "fac_setFactoryPaused e paused s =
     guarded [onlyOwner (msg_sender e) (f_owner s)] (Inr (s\<lparr>f_factoryPaused := paused\<rparr>))"

text \<open>
  \<open>withdrawFees\<close> writes no storage itself, but it is not \<open>nonReentrant\<close> and the
  send hands control to the recipient: \<open>recipient\<close> is what the calls that the
  recipient makes back into the factory do to the storage. When the send fails
  everything is reverted.
\<close>

definition fac_withdrawFees ::
  "txn \<Rightarrow> uint256 \<Rightarrow> address \<Rightarrow> (factory \<Rightarrow> factory) \<Rightarrow> factory \<Rightarrow> error + factory" where
  "fac_withdrawFees e amount to recipient s =
     guarded [onlyOwner (msg_sender e) (f_owner s)]
       (if to = 0 then Inl InvalidTokenAddress
        else if amount > this_balance e then Inl InsufficientDeploymentFee
        else if \<not> send_succeeds e then Inl EmptyRevert
        else Inr (recipient s))"

definition fac_transferOwnership :: "txn \<Rightarrow> address \<Rightarrow> factory \<Rightarrow> error + factory" where
  "fac_transferOwnership e newOwner s =
     guarded [onlyOwner (msg_sender e) (f_owner s)]
       (if newOwner = 0 then Inl (OwnableInvalidOwner 0) else Inr (s\<lparr>f_owner := newOwner\<rparr>))"

definition fac_renounceOwnership :: "txn \<Rightarrow> factory \<Rightarrow> error + factory" where
  "fac_renounceOwnership e s =
     guarded [onlyOwner (msg_sender e) (f_owner s)] (Inr (s\<lparr>f_owner := 0\<rparr>))"

definition fac_receive :: "txn \<Rightarrow> factory \<Rightarrow> error + factory" where
  "fac_receive e s = Inr s"

datatype factory_call =
    DeployToken string string uint256 uint256 bool bool bool
  | DeployTokenWithOwner string string uint256 uint256 address bool bool bool
  | SetDeploymentFee uint256
  | SetMaxTokensPerCreator uint256
  | SetFactoryPaused bool
  | WithdrawFees uint256 address
  | FactoryTransferOwnership address
  | FactoryRenounceOwnership
  | FactoryReceive

definition new_state :: "error + ('r \<times> 's) \<Rightarrow> error + 's" where
  "new_state r = (case r of Inl err \<Rightarrow> Inl err | Inr (v, s) \<Rightarrow> Inr s)"

text \<open>
  One call of the factory. \<open>recipient\<close> is the effect of the calls made back into the
  factory by whoever the call hands control to; only \<open>withdrawFees\<close> does so (a
  deployment sends no ether and calls no contract but the constructor of the token,
  which calls nobody).
\<close>

fun fac_call :: "txn \<Rightarrow> factory_call \<Rightarrow> (factory \<Rightarrow> factory) \<Rightarrow> factory \<Rightarrow> error + factory" where
  "fac_call e (DeployToken n sy i m me be pe) recipient s =
     new_state (fac_deployToken e n sy i m me be pe s)"
| "fac_call e (DeployTokenWithOwner n sy i m ow me be pe) recipient s =
     new_state (fac_deployTokenWithOwner e n sy i m ow me be pe s)"
| "fac_call e (SetDeploymentFee fee) recipient s = nonpayable e (fac_setDeploymentFee e fee s)"
| "fac_call e (SetMaxTokensPerCreator m) recipient s =
     nonpayable e (fac_setMaxTokensPerCreator e m s)"
| "fac_call e (SetFactoryPaused p) recipient s = nonpayable e (fac_setFactoryPaused e p s)"
| "fac_call e (WithdrawFees amount to) recipient s =
     nonpayable e (fac_withdrawFees e amount to recipient s)"
| "fac_call e (FactoryTransferOwnership a) recipient s =
     nonpayable e (fac_transferOwnership e a s)"
| "fac_call e FactoryRenounceOwnership recipient s = nonpayable e (fac_renounceOwnership e s)"
| "fac_call e FactoryReceive recipient s = fac_receive e s"

text \<open>
  A transaction, and a sequence of transactions; a transaction that reverts leaves the
  state as it was. The inner transactions of a \<open>withdrawFees\<close> run, in their order,
  while the ether is being sent; the \<open>nonReentrant\<close> guard is open then, because
  \<open>withdrawFees\<close> does not set it. Under any other call the inner transactions do
  not run: no other call of the factory hands control to another contract.
\<close>

fun fac_tx :: "factory_call tx \<Rightarrow> factory \<Rightarrow> error + factory"
  and fac_run :: "factory_call tx list \<Rightarrow> factory \<Rightarrow> factory" where
  "fac_tx (Tx e c inner) s = fac_call e c (\<lambda>s0. fac_run inner s0) s"
| "fac_run [] s = s"
| "fac_run (x # xs) s = fac_run xs (case fac_tx x s of Inl err \<Rightarrow> s | Inr s' \<Rightarrow> s')"

inductive factory_reachable :: "factory \<Rightarrow> bool" where
  deployed: "fac_constructor initialOwner fee maxTokens = Inr s \<Longrightarrow> factory_reachable s"
| called: "factory_reachable s \<Longrightarrow> fac_tx x s = Inr s' \<Longrightarrow> factory_reachable s'"

section \<open>TokenRegistry\<close>

record TokenMetadata =
  tm_tokenAddress :: address
  tm_name :: string
  tm_symbol :: string
  tm_decimals :: uint8
  tm_totalSupply :: uint256
  tm_maxSupply :: uint256
  tm_creator :: address
  tm_registeredAt :: uint256
  tm_description :: string
  tm_website :: string
  tm_logo :: string
  tm_verified :: bool
  tm_active :: bool
  tm_category :: uint256
  tm_tags :: "string list"

record CreatorInfo =
  ci_creator :: address
  ci_totalTokens :: uint256
  ci_verifiedTokens :: uint256
  ci_totalVolume :: uint256
  ci_lastActivity :: uint256
  ci_verified :: bool
  ci_name :: string
  ci_description :: string

record CategoryInfo =
  cat_name :: string
  cat_description :: string
  cat_tokenCount :: uint256
  cat_active :: bool

text \<open>Source: the TokenRegistry contract (\<^verbatim>\<open>unnamed/part_009\<close>). A mapping entry
  that was never written reads as the all-zero struct.\<close>

definition zero_TokenMetadata :: TokenMetadata where
  "zero_TokenMetadata =
     \<lparr>tm_tokenAddress = 0, tm_name = [], tm_symbol = [], tm_decimals = 0,
      tm_totalSupply = 0, tm_maxSupply = 0, tm_creator = 0, tm_registeredAt = 0,
      tm_description = [], tm_website = [], tm_logo = [], tm_verified = False,
      tm_active = False, tm_category = 0, tm_tags = []\<rparr>"

definition zero_CreatorInfo :: CreatorInfo where
  "zero_CreatorInfo =
     \<lparr>ci_creator = 0, ci_totalTokens = 0, ci_verifiedTokens = 0, ci_totalVolume = 0,
      ci_lastActivity = 0, ci_verified = False, ci_name = [], ci_description = []\<rparr>"

definition zero_CategoryInfo :: CategoryInfo where
  "zero_CategoryInfo = \<lparr>cat_name = [], cat_description = [], cat_tokenCount = 0, cat_active = False\<rparr>"

record registry =
  r_owner :: address
  r_tokenMetadata :: "address \<Rightarrow> TokenMetadata"
  r_creatorInfo :: "address \<Rightarrow> CreatorInfo"
  r_categories :: "uint256 \<Rightarrow> CategoryInfo"
  r_allTokens :: "address list"
  r_allCreators :: "address list"
  r_totalTokensRegistered :: uint256
  r_totalCreators :: uint256
  r_totalCategories :: uint256
  r_registrationFee :: uint256
  r_registryPaused :: bool
  r_tokenFactory :: address
  r_minTokensForVerification :: uint256
  r_minVolumeForVerification :: uint256

subsection \<open>Internal functions\<close>

definition int_createCategory :: "string \<Rightarrow> string \<Rightarrow> registry \<Rightarrow> error + registry" where
  "int_createCategory name' description s =
     (let categoryId = r_totalCategories s in
      case checked_add (r_totalCategories s) 1 of
        Inl err \<Rightarrow> Inl err
      | Inr n \<Rightarrow>
          Inr (s\<lparr>r_categories := (r_categories s)(categoryId :=
                    \<lparr>cat_name = name', cat_description = description, cat_tokenCount = 0,
                     cat_active = True\<rparr>),
                 r_totalCategories := n\<rparr>))"

text \<open>
  \<open>_registerToken\<close> asks the token for \<open>name()\<close>, \<open>symbol()\<close>, \<open>decimals()\<close> and
  \<open>totalSupply()\<close> with low-level calls and for \<open>maxSupply()\<close> inside
  \<open>try\<close>/\<open>catch\<close>. \<open>abi.decode\<close> reverts on data of the wrong shape, and a
  \<open>try\<close> catches a reverting callee but not return data that fails to decode. The
  token's answers are inputs of the call; a token that uses one of these calls to send
  a transaction of its own to the registry (\<open>registerToken\<close> itself is closed to it by
  \<open>nonReentrant\<close>) is taken as sending it before the registration. The registry
  records its token factory's address and never calls it.
\<close>

definition decode_required :: "'a reply \<Rightarrow> error + 'a" where
  "decode_required r =
     (case r of
        CallReverted \<Rightarrow> Inl InvalidTokenAddress
      | ReturnedNothing \<Rightarrow> Inl InvalidTokenAddress
      | ReturnedGarbage \<Rightarrow> Inl AbiDecodeFailed
      | Returned v \<Rightarrow> Inr v)"

definition decode_optional :: "'a \<Rightarrow> 'a reply \<Rightarrow> error + 'a" where
  "decode_optional dflt r =
     (case r of
        CallReverted \<Rightarrow> Inr dflt
      | ReturnedNothing \<Rightarrow> Inr dflt
      | ReturnedGarbage \<Rightarrow> Inl AbiDecodeFailed
      | Returned v \<Rightarrow> Inr v)"

definition try_maxSupply :: "uint256 reply \<Rightarrow> error + uint256" where
  "try_maxSupply r =
     (case r of
        CallReverted \<Rightarrow> Inr 0
      | ReturnedNothing \<Rightarrow> Inl AbiDecodeFailed
      | ReturnedGarbage \<Rightarrow> Inl AbiDecodeFailed
      | Returned v \<Rightarrow> Inr v)"

text \<open>The second half of \<open>_registerToken\<close>: the creator's record.\<close>

definition update_creator_info :: "txn \<Rightarrow> address \<Rightarrow> registry \<Rightarrow> error + registry" where
  "update_creator_info e creator s =
     (if ci_creator (r_creatorInfo s creator) = 0
      then (case checked_add (r_totalCreators s) 1 of
              Inl err \<Rightarrow> Inl err
            | Inr n \<Rightarrow>
                Inr (s\<lparr>r_creatorInfo := (r_creatorInfo s)(creator :=
                          \<lparr>ci_creator = creator, ci_totalTokens = 1, ci_verifiedTokens = 0,
                           ci_totalVolume = 0, ci_lastActivity = block_timestamp e,
                           ci_verified = False, ci_name = [], ci_description = []\<rparr>),
                       r_allCreators := r_allCreators s @ [creator],
                       r_totalCreators := n\<rparr>))
      else (case checked_add (ci_totalTokens (r_creatorInfo s creator)) 1 of
              Inl err \<Rightarrow> Inl err
            | Inr n \<Rightarrow>
                Inr (s\<lparr>r_creatorInfo := (r_creatorInfo s)(creator :=
                          (r_creatorInfo s creator)\<lparr>ci_totalTokens := n,
                                                     ci_lastActivity := block_timestamp e\<rparr>)\<rparr>)))"

definition int_registerToken ::
  "txn \<Rightarrow> address \<Rightarrow> string \<Rightarrow> string \<Rightarrow> string \<Rightarrow> uint256 \<Rightarrow> string list \<Rightarrow> address \<Rightarrow> registry
     \<Rightarrow> error + registry" where
  "int_registerToken e tokenAddress description website logo category tags creator s =
     (if r_registryPaused s then Inl RegistryPaused
      else if tokenAddress = 0 then Inl InvalidTokenAddress
      else if tm_active (r_tokenMetadata s tokenAddress) then Inl TokenAlreadyRegistered
      else if category \<ge> r_totalCategories s then Inl InvalidCategoryId
      else if msg_value e < r_registrationFee s then Inl InsufficientRegistrationFee
      else case decode_required (name_reply (remote e tokenAddress)) of
        Inl err \<Rightarrow> Inl err
      | Inr name' \<Rightarrow>
      (case decode_required (symbol_reply (remote e tokenAddress)) of
        Inl err \<Rightarrow> Inl err
      | Inr symbol' \<Rightarrow>
      if length name' = 0 then Inl EmptyName
      else if length symbol' = 0 then Inl EmptySymbol
      else
      (case decode_optional 18 (decimals_reply (remote e tokenAddress)) of
        Inl err \<Rightarrow> Inl err
      | Inr decimals \<Rightarrow>
      (case decode_optional 0 (totalSupply_reply (remote e tokenAddress)) of
        Inl err \<Rightarrow> Inl err
      | Inr totalSupply \<Rightarrow>
      (case try_maxSupply (maxSupply_reply (remote e tokenAddress)) of
        Inl err \<Rightarrow> Inl err
      | Inr maxSupply' \<Rightarrow>
      (let metadata =
             \<lparr>tm_tokenAddress = tokenAddress, tm_name = name', tm_symbol = symbol',
              tm_decimals = decimals, tm_totalSupply = totalSupply,
              tm_maxSupply = maxSupply', tm_creator = creator,
              tm_registeredAt = block_timestamp e, tm_description = description,
              tm_website = website, tm_logo = logo, tm_verified = False,
              tm_active = True, tm_category = category, tm_tags = tags\<rparr>
       in (case checked_add (r_totalTokensRegistered s) 1 of
             Inl err \<Rightarrow> Inl err
           | Inr n \<Rightarrow>
               update_creator_info e creator
                 (s\<lparr>r_tokenMetadata := (r_tokenMetadata s)(tokenAddress := metadata),
                    r_allTokens := r_allTokens s @ [tokenAddress],
                    r_totalTokensRegistered := n\<rparr>))))))))"

subsection \<open>Constructor and external functions\<close>

definition reg_constructor ::
  "address \<Rightarrow> uint256 \<Rightarrow> address \<Rightarrow> uint256 \<Rightarrow> uint256 \<Rightarrow> error + registry" where
  "reg_constructor initialOwner initialRegistrationFee initialTokenFactory
       initialMinTokensForVerification initialMinVolumeForVerification =
     (if initialOwner = 0 then Inl (OwnableInvalidOwner 0)
      else if initialOwner = 0 then Inl InvalidCreatorAddress
      else if initialTokenFactory = 0 then Inl InvalidTokenAddress
      else
        let s0 = \<lparr>r_owner = initialOwner, r_tokenMetadata = (\<lambda>_. zero_TokenMetadata),
                  r_creatorInfo = (\<lambda>_. zero_CreatorInfo),
                  r_categories = (\<lambda>_. zero_CategoryInfo), r_allTokens = [],
                  r_allCreators = [], r_totalTokensRegistered = 0, r_totalCreators = 0,
                  r_totalCategories = 0, r_registrationFee = initialRegistrationFee,
                  r_registryPaused = False, r_tokenFactory = initialTokenFactory,
                  r_minTokensForVerification = initialMinTokensForVerification,
                  r_minVolumeForVerification = initialMinVolumeForVerification\<rparr>
        in case int_createCategory ''DeFi'' ''Decentralized Finance tokens'' s0 of
          Inl err \<Rightarrow> Inl err
        | Inr s1 \<Rightarrow>
        (case int_createCategory ''Gaming'' ''Gaming and NFT tokens'' s1 of
          Inl err \<Rightarrow> Inl err
        | Inr s2 \<Rightarrow>
        (case int_createCategory ''Infrastructure'' ''Infrastructure and utility tokens'' s2 of
          Inl err \<Rightarrow> Inl err
        | Inr s3 \<Rightarrow>
        (case int_createCategory ''Social'' ''Social and community tokens'' s3 of
          Inl err \<Rightarrow> Inl err
        | Inr s4 \<Rightarrow> int_createCategory ''Other'' ''Other miscellaneous tokens'' s4))))"

definition reg_registerToken ::
  "txn \<Rightarrow> address \<Rightarrow> string \<Rightarrow> string \<Rightarrow> string \<Rightarrow> uint256 \<Rightarrow> string list \<Rightarrow> registry
     \<Rightarrow> error + registry" where
  "reg_registerToken e tokenAddress description website logo category tags s =
     int_registerToken e tokenAddress description website logo category tags (msg_sender e) s"

definition reg_registerTokenForCreator ::
  "txn \<Rightarrow> address \<Rightarrow> string \<Rightarrow> string \<Rightarrow> string \<Rightarrow> uint256 \<Rightarrow> string list \<Rightarrow> address \<Rightarrow> registry
     \<Rightarrow> error + registry" where
  "reg_registerTokenForCreator e tokenAddress description website logo category tags creator s =
     int_registerToken e tokenAddress description website logo category tags creator s"

definition reg_updateTokenMetadata ::
  "txn \<Rightarrow> address \<Rightarrow> string \<Rightarrow> string \<Rightarrow> string \<Rightarrow> registry \<Rightarrow> error + registry" where
  "reg_updateTokenMetadata e tokenAddress description website logo s =
     (if tm_creator (r_tokenMetadata s tokenAddress) \<noteq> msg_sender e then Inl OnlyCreator
      else if \<not> tm_active (r_tokenMetadata s tokenAddress) then Inl TokenNotRegistered
      else Inr (s\<lparr>r_tokenMetadata := (r_tokenMetadata s)(tokenAddress :=
                     (r_tokenMetadata s tokenAddress)
                       \<lparr>tm_description := description, tm_website := website, tm_logo := logo\<rparr>)\<rparr>))"

definition reg_registerCreator :: "txn \<Rightarrow> string \<Rightarrow> string \<Rightarrow> registry \<Rightarrow> error + registry" where
  "reg_registerCreator e name' description s =
     (if length name' = 0 then Inl EmptyName
      else if length description = 0 then Inl EmptyDescription
      else
        let isNewCreator = (ci_creator (r_creatorInfo s (msg_sender e)) = 0);
            old = r_creatorInfo s (msg_sender e);
            info = \<lparr>ci_creator = msg_sender e,
                    ci_totalTokens = (if isNewCreator then 0 else ci_totalTokens old),
                    ci_verifiedTokens = (if isNewCreator then 0 else ci_verifiedTokens old),
                    ci_totalVolume = (if isNewCreator then 0 else ci_totalVolume old),
                    ci_lastActivity = block_timestamp e,
                    ci_verified = (if isNewCreator then False else ci_verified old),
                    ci_name = name', ci_description = description\<rparr>;
            s1 = s\<lparr>r_creatorInfo := (r_creatorInfo s)(msg_sender e := info)\<rparr>
        in if isNewCreator
           then (case checked_add (r_totalCreators s1) 1 of
                   Inl err \<Rightarrow> Inl err
                 | Inr n \<Rightarrow> Inr (s1\<lparr>r_allCreators := r_allCreators s1 @ [msg_sender e],
                                    r_totalCreators := n\<rparr>))
           else Inr s1)"

definition reg_updateCreatorInfo :: "txn \<Rightarrow> string \<Rightarrow> string \<Rightarrow> registry \<Rightarrow> error + registry" where
  "reg_updateCreatorInfo e name' description s =
     (if ci_creator (r_creatorInfo s (msg_sender e)) = 0 then Inl InvalidCreatorAddress
      else if length name' = 0 then Inl EmptyName
      else if length description = 0 then Inl EmptyDescription
      else Inr (s\<lparr>r_creatorInfo := (r_creatorInfo s)(msg_sender e :=
                     (r_creatorInfo s (msg_sender e))
                       \<lparr>ci_name := name', ci_description := description,
                        ci_lastActivity := block_timestamp e\<rparr>)\<rparr>))"

definition reg_setRegistrationFee :: "txn \<Rightarrow> uint256 \<Rightarrow> registry \<Rightarrow> error + registry" where
  "reg_setRegistrationFee e newFee s =
     guarded [onlyOwner (msg_sender e) (r_owner s)] (Inr (s\<lparr>r_registrationFee := newFee\<rparr>))"

definition reg_setRegistryPaused :: "txn \<Rightarrow> bool \<Rightarrow> registry \<Rightarrow> error + registry" where
  "reg_setRegistryPaused e paused s =
     guarded [onlyOwner (msg_sender e) (r_owner s)] (Inr (s\<lparr>r_registryPaused := paused\<rparr>))"

definition reg_setVerificationRequirements ::
  "txn \<Rightarrow> uint256 \<Rightarrow> uint256 \<Rightarrow> registry \<Rightarrow> error + registry" where
  "reg_setVerificationRequirements e minTokens minVolume s =
     guarded [onlyOwner (msg_sender e) (r_owner s)]
       (Inr (s\<lparr>r_minTokensForVerification := minTokens,
               r_minVolumeForVerification := minVolume\<rparr>))"

definition reg_setTokenVerification :: "txn \<Rightarrow> address \<Rightarrow> bool \<Rightarrow> registry \<Rightarrow> error + registry" where
  "reg_setTokenVerification e tokenAddress verified s =
     guarded [onlyOwner (msg_sender e) (r_owner s)]
       (if \<not> tm_active (r_tokenMetadata s tokenAddress) then Inl TokenNotRegistered
        else
          let s1 = s\<lparr>r_tokenMetadata := (r_tokenMetadata s)(tokenAddress :=
                       (r_tokenMetadata s tokenAddress)\<lparr>tm_verified := verified\<rparr>)\<rparr>;
              creator = tm_creator (r_tokenMetadata s1 tokenAddress)
          in case (if verified
                   then checked_add (ci_verifiedTokens (r_creatorInfo s1 creator)) 1
                   else checked_sub (ci_verifiedTokens (r_creatorInfo s1 creator)) 1) of
               Inl err \<Rightarrow> Inl err
             | Inr n \<Rightarrow>
                 Inr (s1\<lparr>r_creatorInfo := (r_creatorInfo s1)(creator :=
                            (r_creatorInfo s1 creator)\<lparr>ci_verifiedTokens := n\<rparr>)\<rparr>))"

definition reg_setCreatorVerification :: "txn \<Rightarrow> address \<Rightarrow> bool \<Rightarrow> registry \<Rightarrow> error + registry" where
  "reg_setCreatorVerification e creator verified s =
     guarded [onlyOwner (msg_sender e) (r_owner s)]
       (if ci_creator (r_creatorInfo s creator) = 0 then Inl InvalidCreatorAddress
        else Inr (s\<lparr>r_creatorInfo := (r_creatorInfo s)(creator :=
                       (r_creatorInfo s creator)\<lparr>ci_verified := verified\<rparr>)\<rparr>))"

definition reg_createCategory :: "txn \<Rightarrow> string \<Rightarrow> string \<Rightarrow> registry \<Rightarrow> error + registry" where
  "reg_createCategory e name' description s =
     guarded [onlyOwner (msg_sender e) (r_owner s)] (int_createCategory name' description s)"

definition reg_updateCategory ::
  "txn \<Rightarrow> uint256 \<Rightarrow> string \<Rightarrow> string \<Rightarrow> bool \<Rightarrow> registry \<Rightarrow> error + registry" where
  "reg_updateCategory e categoryId name' description active s =
     guarded [onlyOwner (msg_sender e) (r_owner s)]
       (if categoryId \<ge> r_totalCategories s then Inl InvalidCategoryId
        else Inr (s\<lparr>r_categories := (r_categories s)(categoryId :=
                       (r_categories s categoryId)
                         \<lparr>cat_name := name', cat_description := description,
                          cat_active := active\<rparr>)\<rparr>))"

text \<open>
  \<open>withdrawFees\<close> of the registry is not \<open>nonReentrant\<close> either: \<open>recipient\<close>
  is what the calls that the recipient of the ether makes back into the registry do to
  the storage.
\<close>

definition reg_withdrawFees ::
  "txn \<Rightarrow> uint256 \<Rightarrow> address \<Rightarrow> (registry \<Rightarrow> registry) \<Rightarrow> registry \<Rightarrow> error + registry" where
  "reg_withdrawFees e amount to recipient s =
     guarded [onlyOwner (msg_sender e) (r_owner s)]
       (if to = 0 then Inl InvalidCreatorAddress
        else if amount > this_balance e then Inl InsufficientRegistrationFee
        else if \<not> send_succeeds e then Inl EmptyRevert
        else Inr (recipient s))"

definition reg_transferOwnership :: "txn \<Rightarrow> address \<Rightarrow> registry \<Rightarrow> error + registry" where
  "reg_transferOwnership e newOwner s =
     guarded [onlyOwner (msg_sender e) (r_owner s)]
       (if newOwner = 0 then Inl (OwnableInvalidOwner 0) else Inr (s\<lparr>r_owner := newOwner\<rparr>))"

definition reg_renounceOwnership :: "txn \<Rightarrow> registry \<Rightarrow> error + registry" where
  "reg_renounceOwnership e s =
     guarded [onlyOwner (msg_sender e) (r_owner s)] (Inr (s\<lparr>r_owner := 0\<rparr>))"

definition reg_receive :: "txn \<Rightarrow> registry \<Rightarrow> error + registry" where
  "reg_receive e s = Inr s"

subsection \<open>Filtered queries\<close>

text \<open>
  \<open>getTokensByCreator\<close>, \<open>getTokensByCategory\<close> and \<open>getVerifiedTokens\<close> run the
  same two loops and differ in the test of the first one only: the first loop walks
  \<open>allTokens\<close> and stores the matching addresses at the front of a zero-filled scratch
  array of the same length, the second copies the first \<open>count\<close> cells into the
  result. An array access out of range reverts with \<open>Panic(0x32)\<close>.
\<close>

function scan_loop ::
  "(address \<Rightarrow> bool) \<Rightarrow> address list \<Rightarrow> nat \<Rightarrow> nat \<Rightarrow> address list
     \<Rightarrow> error + (nat \<times> address list)" where
  "scan_loop matches allTokens i count tempTokens =
     (if i < length allTokens
      then (if matches (allTokens ! i)
            then (if count < length tempTokens
                  then scan_loop matches allTokens (i + 1) (count + 1)
                         (tempTokens[count := allTokens ! i])
                  else Inl (Panic 50))
            else scan_loop matches allTokens (i + 1) count tempTokens)
      else Inr (count, tempTokens))"
  by pat_completeness auto
termination
  by (relation "measure (\<lambda>(matches, allTokens, i, count, tempTokens). length allTokens - i)") auto

function copy_loop :: "address list \<Rightarrow> nat \<Rightarrow> nat \<Rightarrow> address list \<Rightarrow> error + address list" where
  "copy_loop tempTokens count i tokens =
     (if i < count
      then (if i < length tokens \<and> i < length tempTokens
            then copy_loop tempTokens count (i + 1) (tokens[i := tempTokens ! i])
            else Inl (Panic 50))
      else Inr tokens)"
  by pat_completeness auto
termination
  by (relation "measure (\<lambda>(tempTokens, count, i, tokens). count - i)") auto

definition scan_tokens :: "(address \<Rightarrow> bool) \<Rightarrow> address list \<Rightarrow> error + address list" where
  "scan_tokens matches allTokens =
     (case scan_loop matches allTokens 0 0 (replicate (length allTokens) 0) of
        Inl err \<Rightarrow> Inl err
      | Inr (count, tempTokens) \<Rightarrow> copy_loop tempTokens count 0 (replicate count 0))"

definition reg_getTokensByCreator :: "address \<Rightarrow> registry \<Rightarrow> error + address list" where
  "reg_getTokensByCreator creator s =
     scan_tokens (\<lambda>t. tm_creator (r_tokenMetadata s t) = creator) (r_allTokens s)"

definition reg_getTokensByCategory :: "uint256 \<Rightarrow> registry \<Rightarrow> error + address list" where
  "reg_getTokensByCategory categoryId s =
     (if categoryId \<ge> r_totalCategories s then Inl InvalidCategoryId
      else scan_tokens (\<lambda>t. tm_category (r_tokenMetadata s t) = categoryId) (r_allTokens s))"

definition reg_getVerifiedTokens :: "registry \<Rightarrow> error + address list" where
  "reg_getVerifiedTokens s = scan_tokens (\<lambda>t. tm_verified (r_tokenMetadata s t)) (r_allTokens s)"

definition reg_isTokenRegistered :: "address \<Rightarrow> registry \<Rightarrow> bool" where
  "reg_isTokenRegistered tokenAddress s = tm_active (r_tokenMetadata s tokenAddress)"

subsection \<open>Transactions and reachable states of the registry\<close>

datatype registry_call =
    RegisterToken address string string string uint256 "string list"
  | RegisterTokenForCreator address string string string uint256 "string list" address
  | UpdateTokenMetadata address string string string
  | RegisterCreator string string
  | UpdateCreatorInfo string string
  | SetRegistrationFee uint256
  | SetRegistryPaused bool
  | SetVerificationRequirements uint256 uint256
  | SetTokenVerification address bool
  | SetCreatorVerification address bool
  | CreateCategory string string
  | UpdateCategory uint256 string string bool
  | RegistryWithdrawFees uint256 address
  | RegistryTransferOwnership address
  | RegistryRenounceOwnership
  | RegistryReceive

text \<open>
  One call of the registry. \<open>recipient\<close> is the effect of the calls made back into
  the registry by the recipient of the ether that \<open>withdrawFees\<close> sends.
\<close>

fun reg_call ::
  "txn \<Rightarrow> registry_call \<Rightarrow> (registry \<Rightarrow> registry) \<Rightarrow> registry \<Rightarrow> error + registry" where
  "reg_call e (RegisterToken t d w l c tags) recipient s = reg_registerToken e t d w l c tags s"
| "reg_call e (RegisterTokenForCreator t d w l c tags cr) recipient s =
     reg_registerTokenForCreator e t d w l c tags cr s"
| "reg_call e (UpdateTokenMetadata t d w l) recipient s =
     nonpayable e (reg_updateTokenMetadata e t d w l s)"
| "reg_call e (RegisterCreator n d) recipient s = nonpayable e (reg_registerCreator e n d s)"
| "reg_call e (UpdateCreatorInfo n d) recipient s = nonpayable e (reg_updateCreatorInfo e n d s)"
| "reg_call e (SetRegistrationFee fee) recipient s =
     nonpayable e (reg_setRegistrationFee e fee s)"
| "reg_call e (SetRegistryPaused p) recipient s = nonpayable e (reg_setRegistryPaused e p s)"
| "reg_call e (SetVerificationRequirements a b) recipient s =
     nonpayable e (reg_setVerificationRequirements e a b s)"
| "reg_call e (SetTokenVerification t v) recipient s =
     nonpayable e (reg_setTokenVerification e t v s)"
| "reg_call e (SetCreatorVerification c v) recipient s =
     nonpayable e (reg_setCreatorVerification e c v s)"
| "reg_call e (CreateCategory n d) recipient s = nonpayable e (reg_createCategory e n d s)"
| "reg_call e (UpdateCategory i n d a) recipient s =
     nonpayable e (reg_updateCategory e i n d a s)"
| "reg_call e (RegistryWithdrawFees amount to) recipient s =
     nonpayable e (reg_withdrawFees e amount to recipient s)"
| "reg_call e (RegistryTransferOwnership a) recipient s =
     nonpayable e (reg_transferOwnership e a s)"
| "reg_call e RegistryRenounceOwnership recipient s = nonpayable e (reg_renounceOwnership e s)"
| "reg_call e RegistryReceive recipient s = reg_receive e s"

text \<open>
  A transaction, and a sequence of transactions; a transaction that reverts leaves the
  state as it was. The inner transactions of a \<open>withdrawFees\<close> run, in their order,
  while the ether is being sent, with the \<open>nonReentrant\<close> guard open. Under any
  other call the inner transactions do not run.
\<close>

fun reg_tx :: "registry_call tx \<Rightarrow> registry \<Rightarrow> error + registry"
  and reg_run :: "registry_call tx list \<Rightarrow> registry \<Rightarrow> registry" where
  "reg_tx (Tx e c inner) s = reg_call e c (\<lambda>s0. reg_run inner s0) s"
| "reg_run [] s = s"
| "reg_run (x # xs) s = reg_run xs (case reg_tx x s of Inl err \<Rightarrow> s | Inr s' \<Rightarrow> s')"

inductive registry_reachable :: "registry \<Rightarrow> bool" where
  deployed: "reg_constructor initialOwner fee tokenFactory minTokens minVolume = Inr s
             \<Longrightarrow> registry_reachable s"
| called: "registry_reachable s \<Longrightarrow> reg_tx x s = Inr s' \<Longrightarrow> registry_reachable s'"

section \<open>Auxiliary definitions for the proofs\<close>

text \<open>The sum of all balances of a token, and the invariant that ties it to the total
  supply and bounds the total supply by the maximum.\<close>

definition bsum :: "(address \<Rightarrow> uint256) \<Rightarrow> nat" where
  "bsum b = (\<Sum>a\<in>UNIV. unat (b a))"

definition token_inv :: "token \<Rightarrow> bool" where
  "token_inv s \<longleftrightarrow> bsum (t_balances s) = unat (t_totalSupply s) \<and> t_totalSupply s \<le> t_maxSupply s"

text \<open>A token right after its construction with an initial supply of 1, a maximum supply
  of 10 and owner 7.\<close>

definition ex_token :: token where
  "ex_token =
     \<lparr>t_name = ''URBE Token'', t_symbol = ''URBE'', t_totalSupply = 1,
      t_balances = (\<lambda>_. 0)(7 := 1), t_allowances = (\<lambda>_ _. 0), t_owner = 7,
      t_paused = False,
      t_roles = (\<lambda>_ _. False)
        (DEFAULT_ADMIN_ROLE := (\<lambda>_. False)(7 := True),
         MINTER_ROLE := (\<lambda>_. False)(7 := True),
         BURNER_ROLE := (\<lambda>_. False)(7 := True),
         PAUSER_ROLE := (\<lambda>_. False)(7 := True)),
      t_maxSupply = 10, t_mintingEnabled = True, t_burningEnabled = True,
      t_pausingEnabled = True\<rparr>"

text \<open>Example environments and factory states: a factory owned by account 1 with fee 5
  and a cap of one token per creator, before and after account 7 deployed a token at
  address 9.\<close>

definition no_erc20 :: erc20_view where
  "no_erc20 =
     \<lparr>name_reply = ReturnedNothing, symbol_reply = ReturnedNothing,
      decimals_reply = ReturnedNothing, totalSupply_reply = ReturnedNothing,
      maxSupply_reply = ReturnedNothing\<rparr>"

definition ex_txn :: "address \<Rightarrow> uint256 \<Rightarrow> address \<Rightarrow> txn" where
  "ex_txn sender val created =
     \<lparr>msg_sender = sender, msg_value = val, block_timestamp = 1000, this_balance = 0,
      send_succeeds = True, create_address = created, remote = (\<lambda>_. no_erc20)\<rparr>"

definition ex_factory0 :: factory where
  "ex_factory0 =
     \<lparr>f_owner = 1, f_tokensByCreator = (\<lambda>_. []), f_tokenInfo = (\<lambda>_. zero_TokenInfo),
      f_allTokens = [], f_totalTokensDeployed = 0, f_maxTokensPerCreator = 1,
      f_deploymentFee = 5, f_factoryPaused = False, f_deployed = Map.empty\<rparr>"

definition ex_TokenInfo :: TokenInfo where
  "ex_TokenInfo =
     \<lparr>ti_tokenAddress = 9, ti_name = ''URBE Token'', ti_symbol = ''URBE'',
      ti_initialSupply = 1, ti_maxSupply = 10, ti_creator = 7, ti_createdAt = 1000,
      ti_mintingEnabled = True, ti_burningEnabled = True, ti_pausingEnabled = True\<rparr>"

definition ex_factory :: factory where
  "ex_factory =
     \<lparr>f_owner = 1, f_tokensByCreator = (\<lambda>_. [])(7 := [9]),
      f_tokenInfo = (\<lambda>_. zero_TokenInfo)(9 := ex_TokenInfo),
      f_allTokens = [9], f_totalTokensDeployed = 1, f_maxTokensPerCreator = 1,
      f_deploymentFee = 5, f_factoryPaused = False,
      f_deployed = Map.empty(9 := Some ex_token)\<rparr>"


text \<open>The calls of a transaction, those that run inside it included, each with its
  environment.\<close>

fun tx_calls :: "'c tx \<Rightarrow> (txn \<times> 'c) list" where
  "tx_calls (Tx e c inner) = (e, c) # concat (map tx_calls inner)"

text \<open>Every recorded token address holds a contract the factory created, and the counter
  equals the length of the ledger.\<close>

definition factory_inv :: "factory \<Rightarrow> bool" where
  "factory_inv s \<longleftrightarrow>
     set (f_allTokens s) \<subseteq> dom (f_deployed s)
     \<and> unat (f_totalTokensDeployed s) = length (f_allTokens s)"

text \<open>The ledger of the registry lists exactly the active tokens, each once, the counter
  equals its length, and no creator has a volume.\<close>

definition registry_inv :: "registry \<Rightarrow> bool" where
  "registry_inv s \<longleftrightarrow>
     unat (r_totalTokensRegistered s) = length (r_allTokens s)
     \<and> set (r_allTokens s) = {t. tm_active (r_tokenMetadata s t)}
     \<and> distinct (r_allTokens s)
     \<and> (\<forall>c. ci_totalVolume (r_creatorInfo s c) = 0)"

text \<open>
  Example registry states. Token 9 answers like the URBEToken of the factory example;
  tokens 20 and 21 are ERC20 tokens of another origin; token 20 has no
  \<open>decimals()\<close> and no \<open>maxSupply()\<close>. \<open>ex_registry0\<close> is the registry as account 1 constructs it with
  fee 3; in \<open>ex_registry1\<close> account 7 has registered token 9; in \<open>ex_registry2\<close>
  the owner has verified it.
\<close>

definition ex_remote :: "address \<Rightarrow> erc20_view" where
  "ex_remote =
     (\<lambda>_. no_erc20)
       (9 := \<lparr>name_reply = Returned ''URBE Token'', symbol_reply = Returned ''URBE'',
               decimals_reply = Returned 18, totalSupply_reply = Returned 1,
               maxSupply_reply = Returned 10\<rparr>,
        20 := \<lparr>name_reply = Returned ''Other'', symbol_reply = Returned ''OTH'',
                decimals_reply = CallReverted, totalSupply_reply = Returned 5,
                maxSupply_reply = CallReverted\<rparr>,
        21 := \<lparr>name_reply = Returned ''Third'', symbol_reply = Returned ''THI'',
                decimals_reply = Returned 6, totalSupply_reply = Returned 7,
                maxSupply_reply = CallReverted\<rparr>)"

definition ex_rtxn :: "address \<Rightarrow> uint256 \<Rightarrow> txn" where
  "ex_rtxn sender val =
     \<lparr>msg_sender = sender, msg_value = val, block_timestamp = 1000, this_balance = 0,
      send_succeeds = True, create_address = 0, remote = ex_remote\<rparr>"

definition ex_registry0 :: registry where
  "ex_registry0 =
     \<lparr>r_owner = 1, r_tokenMetadata = (\<lambda>_. zero_TokenMetadata),
      r_creatorInfo = (\<lambda>_. zero_CreatorInfo),
      r_categories = (\<lambda>_. zero_CategoryInfo)
        (0 := \<lparr>cat_name = ''DeFi'', cat_description = ''Decentralized Finance tokens'',
                cat_tokenCount = 0, cat_active = True\<rparr>,
         1 := \<lparr>cat_name = ''Gaming'', cat_description = ''Gaming and NFT tokens'',
                cat_tokenCount = 0, cat_active = True\<rparr>,
         2 := \<lparr>cat_name = ''Infrastructure'',
                cat_description = ''Infrastructure and utility tokens'',
                cat_tokenCount = 0, cat_active = True\<rparr>,
         3 := \<lparr>cat_name = ''Social'', cat_description = ''Social and community tokens'',
                cat_tokenCount = 0, cat_active = True\<rparr>,
         4 := \<lparr>cat_name = ''Other'', cat_description = ''Other miscellaneous tokens'',
                cat_tokenCount = 0, cat_active = True\<rparr>),
      r_allTokens = [], r_allCreators = [], r_totalTokensRegistered = 0,
      r_totalCreators = 0, r_totalCategories = 5, r_registrationFee = 3,
      r_registryPaused = False, r_tokenFactory = 50, r_minTokensForVerification = 0,
      r_minVolumeForVerification = 0\<rparr>"

definition ex_TokenMetadata :: TokenMetadata where
  "ex_TokenMetadata =
     \<lparr>tm_tokenAddress = 9, tm_name = ''URBE Token'', tm_symbol = ''URBE'', tm_decimals = 18,
      tm_totalSupply = 1, tm_maxSupply = 10, tm_creator = 7, tm_registeredAt = 1000,
      tm_description = ''A token'', tm_website = ''urbe.example'', tm_logo = ''logo.png'',
      tm_verified = False, tm_active = True, tm_category = 0, tm_tags = [''defi'']\<rparr>"

definition ex_CreatorInfo :: CreatorInfo where
  "ex_CreatorInfo =
     \<lparr>ci_creator = 7, ci_totalTokens = 1, ci_verifiedTokens = 0, ci_totalVolume = 0,
      ci_lastActivity = 1000, ci_verified = False, ci_name = [], ci_description = []\<rparr>"

definition ex_registry1 :: registry where
  "ex_registry1 =
     ex_registry0
       \<lparr>r_tokenMetadata := (\<lambda>_. zero_TokenMetadata)(9 := ex_TokenMetadata),
        r_creatorInfo := (\<lambda>_. zero_CreatorInfo)(7 := ex_CreatorInfo),
        r_allTokens := [9], r_allCreators := [7], r_totalTokensRegistered := 1,
        r_totalCreators := 1\<rparr>"

definition ex_registry2 :: registry where
  "ex_registry2 =
     ex_registry1
       \<lparr>r_tokenMetadata := (\<lambda>_. zero_TokenMetadata)(9 := ex_TokenMetadata\<lparr>tm_verified := True\<rparr>),
        r_creatorInfo := (\<lambda>_. zero_CreatorInfo)(7 := ex_CreatorInfo\<lparr>ci_verifiedTokens := 1\<rparr>)\<rparr>"

text \<open>In \<open>ex_registry3\<close> account 8 has registered token 20 as well.\<close>

definition ex_registry3 :: registry where
  "ex_registry3 =
     ex_registry2
       \<lparr>r_tokenMetadata := (\<lambda>_. zero_TokenMetadata)
          (9 := ex_TokenMetadata\<lparr>tm_verified := True\<rparr>,
           20 := \<lparr>tm_tokenAddress = 20, tm_name = ''Other'', tm_symbol = ''OTH'',
                   tm_decimals = 18, tm_totalSupply = 5, tm_maxSupply = 0, tm_creator = 8,
                   tm_registeredAt = 1000, tm_description = ''d'', tm_website = ''w'',
                   tm_logo = ''l'', tm_verified = False, tm_active = True,
                   tm_category = 4, tm_tags = []\<rparr>),
        r_creatorInfo := (\<lambda>_. zero_CreatorInfo)
          (7 := ex_CreatorInfo\<lparr>ci_verifiedTokens := 1\<rparr>,
           8 := \<lparr>ci_creator = 8, ci_totalTokens = 1, ci_verifiedTokens = 0,
                  ci_totalVolume = 0, ci_lastActivity = 1000, ci_verified = False,
                  ci_name = [], ci_description = []\<rparr>),
        r_allTokens := [9, 20], r_allCreators := [7, 8], r_totalTokensRegistered := 2,
        r_totalCreators := 2\<rparr>"

text \<open>In \<open>ex_registry4\<close> account 7, the creator of the verified token 9, has
  registered token 20 as its second token, at block time 2000.\<close>

definition ex_registry4 :: registry where
  "ex_registry4 =
     ex_registry2
       \<lparr>r_tokenMetadata := (\<lambda>_. zero_TokenMetadata)
          (9 := ex_TokenMetadata\<lparr>tm_verified := True\<rparr>,
           20 := \<lparr>tm_tokenAddress = 20, tm_name = ''Other'', tm_symbol = ''OTH'',
                   tm_decimals = 18, tm_totalSupply = 5, tm_maxSupply = 0, tm_creator = 7,
                   tm_registeredAt = 2000, tm_description = ''d'', tm_website = ''w'',
                   tm_logo = ''l'', tm_verified = False, tm_active = True,
                   tm_category = 4, tm_tags = []\<rparr>),
        r_creatorInfo := (\<lambda>_. zero_CreatorInfo)
          (7 := ex_CreatorInfo\<lparr>ci_totalTokens := 2, ci_verifiedTokens := 1,
                                ci_lastActivity := 2000\<rparr>),
        r_allTokens := [9, 20], r_totalTokensRegistered := 2\<rparr>"

text \<open>A creator other than the zero address whose record was never created has no
  tokens counted, and the creator of every registered token, if not the zero address,
  has a record.\<close>

definition creators_inv :: "registry \<Rightarrow> bool" where
  "creators_inv s \<longleftrightarrow>
     (\<forall>c. c \<noteq> 0 \<and> ci_creator (r_creatorInfo s c) = 0 \<longrightarrow>
          ci_totalTokens (r_creatorInfo s c) = 0 \<and> ci_verifiedTokens (r_creatorInfo s c) = 0)
     \<and> (\<forall>t. tm_active (r_tokenMetadata s t) \<and> tm_creator (r_tokenMetadata s t) \<noteq> 0 \<longrightarrow>
          ci_creator (r_creatorInfo s (tm_creator (r_tokenMetadata s t))) \<noteq> 0)"

section \<open>URBEToken: the total supply never exceeds the maximum\<close>

lemma sum_fun_upd:
  fixes f :: "'a::finite \<Rightarrow> nat"
  shows "sum (f(a := v)) UNIV + f a = sum f UNIV + v"
proof -
  have 1: "sum f UNIV = f a + sum f (UNIV - {a})"
    by (rule sum.remove) simp_all
  have 2: "sum (f(a := v)) UNIV = (f(a := v)) a + sum (f(a := v)) (UNIV - {a})"
    by (rule sum.remove) simp_all
  have 3: "sum (f(a := v)) (UNIV - {a}) = sum f (UNIV - {a})"
    by (rule sum.cong) simp_all
  show ?thesis using 1 2 3 by simp
qed

lemma bsum_ge: "unat (b a) \<le> bsum b"
  unfolding bsum_def by (rule member_le_sum) simp_all

lemma bsum_upd: "bsum (b(a := w)) + unat (b a) = bsum b + unat w"
proof -
  have "(\<Sum>x\<in>UNIV. unat ((b(a := w)) x)) = sum ((\<lambda>x. unat (b x))(a := unat w)) UNIV"
    by (rule sum.cong) auto
  then show ?thesis
    unfolding bsum_def using sum_fun_upd[of "\<lambda>x. unat (b x)" a "unat w"]
    by (simp del: fun_upd_apply)
qed

lemma checked_add_Inr:
  "checked_add a b = Inr c \<Longrightarrow> c = a + b \<and> unat c = unat a + unat b"
  by (auto simp: checked_add_def unat_add_lem[THEN iffD1] split: if_splits)

lemma bsum_credit:
  assumes "bsum b + unat v < 2 ^ 256"
  shows "bsum (b(a := b a + v)) = bsum b + unat v"
proof -
  have "unat (b a) + unat v < 2 ^ 256" using bsum_ge[of b a] assms by simp
  then have "unat (b a + v) = unat (b a) + unat v"
    by (simp add: unat_add_lem[THEN iffD1])
  then show ?thesis using bsum_upd[of b a "b a + v"] by simp
qed

lemma bsum_debit:
  assumes "v \<le> b a"
  shows "bsum (b(a := b a - v)) + unat v = bsum b" and "unat v \<le> bsum b"
proof -
  have le: "unat v \<le> unat (b a)" using assms by (simp add: word_le_nat_alt)
  have "unat (b a - v) = unat (b a) - unat v" using assms by (simp add: unat_sub)
  then show "bsum (b(a := b a - v)) + unat v = bsum b"
    using bsum_upd[of b a "b a - v"] le by simp
  show "unat v \<le> bsum b" using le bsum_ge[of b a] by simp
qed

lemma unat_lt_2p256: "unat (w :: uint256) < 2 ^ 256"
  using unsigned_less[of w, where 'a=nat] by simp

lemma ERC20_update_sum:
  assumes upd: "ERC20_update from to v s = Inr s'"
    and inv: "bsum (t_balances s) = unat (t_totalSupply s)"
  shows "bsum (t_balances s') = unat (t_totalSupply s')"
    and "t_maxSupply s' = t_maxSupply s"
    and "from \<noteq> 0 \<Longrightarrow> t_totalSupply s' \<le> t_totalSupply s"
    and "from = 0 \<Longrightarrow> to \<noteq> 0 \<Longrightarrow> t_totalSupply s' = t_totalSupply s + v"
proof -
  have np: "\<not> t_paused s" using upd by (auto simp: ERC20_update_def split: if_splits)
  show "t_maxSupply s' = t_maxSupply s"
    using upd by (auto simp: ERC20_update_def split: if_splits sum.splits)
  show "from = 0 \<Longrightarrow> to \<noteq> 0 \<Longrightarrow> t_totalSupply s' = t_totalSupply s + v"
    using upd by (auto simp: ERC20_update_def dest: checked_add_Inr split: if_splits sum.splits)
  consider (mint) "from = 0" | (debit) "from \<noteq> 0" by blast
  then have "bsum (t_balances s') = unat (t_totalSupply s') \<and> (from \<noteq> 0 \<longrightarrow> t_totalSupply s' \<le> t_totalSupply s)"
  proof cases
    case mint
    then obtain ts where ca: "checked_add (t_totalSupply s) v = Inr ts"
      using upd np by (auto simp: ERC20_update_def split: sum.splits)
    then have ts: "ts = t_totalSupply s + v" "unat ts = unat (t_totalSupply s) + unat v"
      using checked_add_Inr by blast+
    have bound: "bsum (t_balances s) + unat v < 2 ^ 256"
      using ts(2) inv unat_lt_2p256[of ts] by simp
    show ?thesis
    proof (cases "to = 0")
      case True
      then have "s' = s\<lparr>t_totalSupply := ts - v\<rparr>"
        using upd np mint ca by (simp add: ERC20_update_def)
      then show ?thesis using inv ts(1) mint by simp
    next
      case False
      then have "s' = s\<lparr>t_totalSupply := ts, t_balances := (t_balances s)(to := t_balances s to + v)\<rparr>"
        using upd np mint ca by (simp add: ERC20_update_def)
      then show ?thesis using bsum_credit[OF bound, of to] inv ts(2) mint by simp
    qed
  next
    case debit
    then have ge: "v \<le> t_balances s from"
      using upd np by (auto simp: ERC20_update_def split: if_splits)
    then have nlt: "\<not> t_balances s from < v" by simp
    let ?b1 = "(t_balances s)(from := t_balances s from - v)"
    have d1: "bsum ?b1 + unat v = bsum (t_balances s)" and d2: "unat v \<le> bsum (t_balances s)"
      using bsum_debit[of v "t_balances s" "from"] ge by simp_all
    show ?thesis
    proof (cases "to = 0")
      case True
      then have s': "s' = s\<lparr>t_balances := ?b1, t_totalSupply := t_totalSupply s - v\<rparr>"
        using upd np debit nlt by (simp add: ERC20_update_def)
      have vle: "v \<le> t_totalSupply s" using d2 inv by (simp add: word_le_nat_alt)
      then have "unat (t_totalSupply s - v) = unat (t_totalSupply s) - unat v"
        by (simp add: unat_sub)
      moreover have "t_totalSupply s - v \<le> t_totalSupply s"
        using vle by (simp add: word_le_nat_alt unat_sub)
      ultimately show ?thesis using s' d1 inv by simp
    next
      case False
      then have s': "s' = s\<lparr>t_balances := ?b1(to := ?b1 to + v)\<rparr>"
        using upd np debit nlt by (simp add: ERC20_update_def)
      have "bsum ?b1 + unat v < 2 ^ 256"
        using d1 inv unat_lt_2p256[of "t_totalSupply s"] by simp
      from bsum_credit[OF this, of to] show ?thesis using s' d1 inv by simp
    qed
  qed
  then show "bsum (t_balances s') = unat (t_totalSupply s')"
    and "from \<noteq> 0 \<Longrightarrow> t_totalSupply s' \<le> t_totalSupply s" by blast+
qed

lemma guarded_Inr: "guarded gs body = Inr x \<Longrightarrow> body = Inr x"
  by (induction gs body rule: guarded.induct) simp_all

lemma nonpayable_Inr: "nonpayable e body = Inr x \<Longrightarrow> body = Inr x"
  by (simp add: nonpayable_def split: if_splits)

lemma guarded_Inl: "body = Inl e \<Longrightarrow> \<exists>e'. guarded gs body = Inl e'"
  by (induction gs body rule: guarded.induct) simp_all

lemma ERC20_mint_inv:
  assumes "ERC20_mint to v s = Inr s'" and "bsum (t_balances s) = unat (t_totalSupply s)"
  shows "bsum (t_balances s') = unat (t_totalSupply s')" and "t_maxSupply s' = t_maxSupply s"
    and "t_totalSupply s' = t_totalSupply s + v"
proof -
  from assms(1) have to: "to \<noteq> 0" and upd: "ERC20_update 0 to v s = Inr s'"
    by (auto simp: ERC20_mint_def split: if_splits)
  show "bsum (t_balances s') = unat (t_totalSupply s')"
    by (rule ERC20_update_sum(1)[OF upd assms(2)])
  show "t_maxSupply s' = t_maxSupply s" by (rule ERC20_update_sum(2)[OF upd assms(2)])
  show "t_totalSupply s' = t_totalSupply s + v"
    by (rule ERC20_update_sum(4)[OF upd assms(2) refl to])
qed

lemma ERC20_debit_inv:
  assumes "ERC20_update from to v s = Inr s'" and "from \<noteq> 0" and "token_inv s"
  shows "token_inv s'"
  using ERC20_update_sum(1,2,3)[OF assms(1)] assms(2,3)
  unfolding token_inv_def by fastforce

lemma int_mintTokens_inv:
  assumes "int_mintTokens to amount s = Inr s'" and "token_inv s"
  shows "token_inv s'"
proof -
  from assms(1) obtain newSupply where
    ca: "checked_add (t_totalSupply s) amount = Inr newSupply"
    and le: "newSupply \<le> t_maxSupply s" and m: "ERC20_mint to amount s = Inr s'"
    by (auto simp: int_mintTokens_def split: if_splits sum.splits)
  have "newSupply = t_totalSupply s + amount" using checked_add_Inr[OF ca] by simp
  then show ?thesis
    using ERC20_mint_inv[OF m] assms(2) le unfolding token_inv_def by simp
qed

lemma ERC20_burn_inv:
  "ERC20_burn account v s = Inr s' \<Longrightarrow> token_inv s \<Longrightarrow> token_inv s'"
  by (auto simp: ERC20_burn_def split: if_splits intro: ERC20_debit_inv)

lemma ERC20_transfer_inv:
  "ERC20_transfer from to v s = Inr s' \<Longrightarrow> token_inv s \<Longrightarrow> token_inv s'"
  by (auto simp: ERC20_transfer_def split: if_splits intro: ERC20_debit_inv)

lemma ERC20_spendAllowance_inv:
  "ERC20_spendAllowance holder spender v s = Inr s' \<Longrightarrow> token_inv s \<Longrightarrow> token_inv s'"
  by (auto simp: ERC20_spendAllowance_def ERC20_approve_def token_inv_def Let_def split: if_splits)

lemma tok_call_inv:
  assumes "tok_call sender c s = Inr s'" and "token_inv s"
  shows "token_inv s'"
proof (cases c)
  case (Mint to amount)
  then show ?thesis using assms
    by (auto simp: tok_mint_def dest!: guarded_Inr intro: int_mintTokens_inv)
next
  case (MintByMinter to amount)
  then show ?thesis using assms
    by (auto simp: tok_mintByMinter_def dest!: guarded_Inr intro: int_mintTokens_inv)
next
  case (Burn amount)
  then show ?thesis using assms
    by (auto simp: tok_burn_def int_burnTokens_def dest!: guarded_Inr
        split: if_splits intro: ERC20_burn_inv)
next
  case (BurnFrom a amount)
  then show ?thesis using assms
    by (auto simp: tok_burnFrom_def int_burnTokensFrom_def dest!: guarded_Inr
        split: if_splits intro: ERC20_burn_inv)
next
  case (Transfer to v)
  then show ?thesis using assms by (auto simp: tok_transfer_def intro: ERC20_transfer_inv)
next
  case (TransferFrom a to v)
  then show ?thesis using assms
    by (auto simp: tok_transferFrom_def split: sum.splits
        intro: ERC20_transfer_inv ERC20_spendAllowance_inv)
next
  case (Approve spender v)
  then show ?thesis using assms
    by (auto simp: tok_approve_def ERC20_approve_def token_inv_def split: if_splits)
qed (use assms in \<open>auto simp: tok_pause_def tok_unpause_def tok_toggleMinting_def
      tok_toggleBurning_def tok_togglePausing_def tok_grantNamedRole_def
      tok_revokeNamedRole_def tok_transferOwnership_def tok_renounceOwnership_def
      tok_grantRole_def tok_revokeRole_def tok_renounceRole_def AC_grantRole_def
      AC_revokeRole_def token_inv_def dest!: guarded_Inr split: if_splits\<close>)

lemma bsum_zero: "bsum (\<lambda>_. 0) = 0"
  by (simp add: bsum_def)

lemma tok_constructor_inv:
  assumes "tok_constructor n sy initialSupply maxSupply' ow me be pe = Inr s"
  shows "token_inv s"
proof -
  let ?s0 = "\<lparr>t_name = n, t_symbol = sy, t_totalSupply = 0,
                  t_balances = (\<lambda>_. 0), t_allowances = (\<lambda>_ _. 0),
                  t_owner = ow, t_paused = False, t_roles = (\<lambda>_ _. False),
                  t_maxSupply = maxSupply', t_mintingEnabled = me,
                  t_burningEnabled = be, t_pausingEnabled = pe\<rparr>"
  let ?s1 = "AC_grantRole PAUSER_ROLE ow (AC_grantRole BURNER_ROLE ow
               (AC_grantRole MINTER_ROLE ow (AC_grantRole DEFAULT_ADMIN_ROLE ow ?s0)))"
  have le: "initialSupply \<le> maxSupply'"
    using assms by (auto simp: tok_constructor_def split: if_splits)
  have s1: "bsum (t_balances ?s1) = unat (t_totalSupply ?s1)" "t_totalSupply ?s1 = 0"
    "t_maxSupply ?s1 = maxSupply'"
    by (simp_all add: AC_grantRole_def bsum_zero)
  show ?thesis
  proof (cases "initialSupply > 0")
    case True
    then have m: "ERC20_mint ow initialSupply ?s1 = Inr s"
      using assms by (auto simp: tok_constructor_def Let_def split: if_splits)
    show ?thesis using ERC20_mint_inv[OF m s1(1)] s1(2,3) le
      unfolding token_inv_def by simp
  next
    case False
    then have "s = ?s1"
      using assms by (auto simp: tok_constructor_def Let_def split: if_splits)
    then show ?thesis using s1 unfolding token_inv_def by simp
  qed
qed

lemma token_reachable_inv: "token_reachable s \<Longrightarrow> token_inv s"
  by (induction rule: token_reachable.induct) (auto intro: tok_constructor_inv tok_call_inv)

lemma ex_token_constructed:
  "tok_constructor ''URBE Token'' ''URBE'' 1 10 7 True True True = Inr ex_token"
  by (simp add: tok_constructor_def ex_token_def ERC20_mint_def ERC20_update_def
      checked_add_def AC_grantRole_def Let_def)

lemma constructor_rejects:
  "initialSupply > maxSupply' \<Longrightarrow> \<exists>err. tok_constructor n sy initialSupply maxSupply' ow me be pe = Inl err"
  by (simp add: tok_constructor_def)

lemma constructor_MaxSupplyExceeded:
  "initialSupply > maxSupply' \<Longrightarrow> ow \<noteq> 0 \<Longrightarrow> maxSupply' \<noteq> 0
   \<Longrightarrow> tok_constructor n sy initialSupply maxSupply' ow me be pe = Inl MaxSupplyExceeded"
  by (simp add: tok_constructor_def)

lemma int_mintTokens_rejects:
  assumes "unat (t_totalSupply s) + unat amount > unat (t_maxSupply s)"
  shows "\<exists>err. int_mintTokens to amount s = Inl err"
proof (cases "checked_add (t_totalSupply s) amount")
  case (Inl e)
  then show ?thesis by (simp add: int_mintTokens_def)
next
  case (Inr newSupply)
  then have "unat newSupply = unat (t_totalSupply s) + unat amount"
    using checked_add_Inr by blast
  then have "newSupply > t_maxSupply s" using assms by (simp add: word_less_nat_alt)
  then show ?thesis using Inr by (simp add: int_mintTokens_def)
qed

lemma int_mintTokens_MaxSupplyExceeded:
  assumes "unat (t_totalSupply s) + unat amount > unat (t_maxSupply s)"
    and "unat (t_totalSupply s) + unat amount < 2 ^ 256"
    and "t_mintingEnabled s" and "to \<noteq> 0" and "amount \<noteq> 0"
  shows "int_mintTokens to amount s = Inl MaxSupplyExceeded"
proof -
  have ca: "checked_add (t_totalSupply s) amount = Inr (t_totalSupply s + amount)"
    using assms(2) by (simp add: checked_add_def)
  then have "unat (t_totalSupply s + amount) = unat (t_totalSupply s) + unat amount"
    using checked_add_Inr by blast
  then have "t_totalSupply s + amount > t_maxSupply s"
    using assms(1) by (simp add: word_less_nat_alt)
  then show ?thesis using ca assms(3-5) by (simp add: int_mintTokens_def)
qed

lemma int_mintTokens_Panic:
  assumes "unat (t_totalSupply s) + unat amount \<ge> 2 ^ 256"
    and "t_mintingEnabled s" and "to \<noteq> 0" and "amount \<noteq> 0"
  shows "int_mintTokens to amount s = Inl (Panic 17)"
  using assms by (simp add: int_mintTokens_def checked_add_def)

text \<open>
  Claim C1, as the code has it. In every state a URBEToken can reach, through its
  constructor and any sequence of transactions, the total supply is at most
  \<open>maxSupply\<close>. The constructor reverts whenever \<open>initialSupply > maxSupply_\<close>, with
  \<open>MaxSupplyExceeded\<close> when the owner and \<open>maxSupply_\<close> are not zero (the tests for
  these come first). \<open>mint\<close> and \<open>mintByMinter\<close> revert whenever the total supply plus
  the amount exceeds \<open>maxSupply\<close>; when the caller is authorised, the token is not paused,
  minting is enabled and recipient and amount are not zero, the revert is
  \<open>MaxSupplyExceeded\<close> if the sum fits into 256 bits and the arithmetic
  \<open>Panic(0x11)\<close> if it does not.
\<close>

theorem totalSupply_bounded_by_maxSupply:
  "(token_reachable s \<longrightarrow> t_totalSupply s \<le> t_maxSupply s)
   \<and> (initialSupply > maxSupply' \<longrightarrow>
        (\<exists>err. tok_constructor n sy initialSupply maxSupply' ow me be pe = Inl err)
        \<and> (ow \<noteq> 0 \<and> maxSupply' \<noteq> 0 \<longrightarrow>
             tok_constructor n sy initialSupply maxSupply' ow me be pe = Inl MaxSupplyExceeded))
   \<and> (unat (t_totalSupply s1) + unat amount > unat (t_maxSupply s1) \<longrightarrow>
        (\<exists>err. tok_mint sender to amount s1 = Inl err)
        \<and> (\<exists>err. tok_mintByMinter sender to amount s1 = Inl err)
        \<and> (\<not> t_paused s1 \<and> t_mintingEnabled s1 \<and> to \<noteq> 0 \<and> amount \<noteq> 0 \<longrightarrow>
             (sender = t_owner s1 \<longrightarrow>
                tok_mint sender to amount s1 =
                  (if unat (t_totalSupply s1) + unat amount < 2 ^ 256
                   then Inl MaxSupplyExceeded else Inl (Panic 17)))
             \<and> (hasRole MINTER_ROLE sender s1 \<longrightarrow>
                tok_mintByMinter sender to amount s1 =
                  (if unat (t_totalSupply s1) + unat amount < 2 ^ 256
                   then Inl MaxSupplyExceeded else Inl (Panic 17)))))"
proof (intro conjI impI)
  assume "token_reachable s"
  then show "t_totalSupply s \<le> t_maxSupply s"
    using token_reachable_inv by (simp add: token_inv_def)
next
  assume "initialSupply > maxSupply'"
  then show "\<exists>err. tok_constructor n sy initialSupply maxSupply' ow me be pe = Inl err"
    by (rule constructor_rejects)
next
  assume "initialSupply > maxSupply'" "ow \<noteq> 0 \<and> maxSupply' \<noteq> 0"
  then show "tok_constructor n sy initialSupply maxSupply' ow me be pe = Inl MaxSupplyExceeded"
    by (simp add: constructor_MaxSupplyExceeded)
next
  assume "unat (t_totalSupply s1) + unat amount > unat (t_maxSupply s1)"
  then show "\<exists>err. tok_mint sender to amount s1 = Inl err"
    unfolding tok_mint_def using int_mintTokens_rejects guarded_Inl by blast
next
  assume "unat (t_totalSupply s1) + unat amount > unat (t_maxSupply s1)"
  then show "\<exists>err. tok_mintByMinter sender to amount s1 = Inl err"
    unfolding tok_mintByMinter_def using int_mintTokens_rejects guarded_Inl by blast
next
  assume over: "unat (t_totalSupply s1) + unat amount > unat (t_maxSupply s1)"
    and g: "\<not> t_paused s1 \<and> t_mintingEnabled s1 \<and> to \<noteq> 0 \<and> amount \<noteq> 0"
    and ow: "sender = t_owner s1"
  have "tok_mint sender to amount s1 = int_mintTokens to amount s1"
    using g ow by (simp add: tok_mint_def onlyOwner_def whenNotPaused_def)
  then show "tok_mint sender to amount s1 =
      (if unat (t_totalSupply s1) + unat amount < 2 ^ 256
       then Inl MaxSupplyExceeded else Inl (Panic 17))"
    using over g int_mintTokens_MaxSupplyExceeded[of s1 amount to]
      int_mintTokens_Panic[of s1 amount to] by (simp add: not_less)
next
  assume over: "unat (t_totalSupply s1) + unat amount > unat (t_maxSupply s1)"
    and g: "\<not> t_paused s1 \<and> t_mintingEnabled s1 \<and> to \<noteq> 0 \<and> amount \<noteq> 0"
    and ro: "hasRole MINTER_ROLE sender s1"
  have "tok_mintByMinter sender to amount s1 = int_mintTokens to amount s1"
    using g ro by (simp add: tok_mintByMinter_def onlyRole_def whenNotPaused_def)
  then show "tok_mintByMinter sender to amount s1 =
      (if unat (t_totalSupply s1) + unat amount < 2 ^ 256
       then Inl MaxSupplyExceeded else Inl (Panic 17))"
    using over g int_mintTokens_MaxSupplyExceeded[of s1 amount to]
      int_mintTokens_Panic[of s1 amount to] by (simp add: not_less)
qed

text \<open>The theorem at the freshly constructed token: minting 10 more by the owner, who is
  also a minter, is refused with \<open>MaxSupplyExceeded\<close>.\<close>

theorem totalSupply_bounded_by_maxSupply_witness:
  "token_reachable ex_token \<and> t_totalSupply ex_token \<le> t_maxSupply ex_token
   \<and> (2::uint256) > 1
   \<and> tok_constructor ''URBE Token'' ''URBE'' 2 1 7 True True True = Inl MaxSupplyExceeded
   \<and> unat (t_totalSupply ex_token) + unat (10::uint256) > unat (t_maxSupply ex_token)
   \<and> tok_mint 7 7 10 ex_token = Inl MaxSupplyExceeded
   \<and> tok_mintByMinter 7 7 10 ex_token = Inl MaxSupplyExceeded"
proof -
  have r: "token_reachable ex_token"
    by (rule token_reachable.deployed[OF ex_token_constructed])
  have h: "unat (t_totalSupply ex_token) + unat (10::uint256) > unat (t_maxSupply ex_token)"
    "unat (t_totalSupply ex_token) + unat (10::uint256) < 2 ^ 256"
    "\<not> t_paused ex_token" "t_mintingEnabled ex_token" "7 = t_owner ex_token"
    "hasRole MINTER_ROLE 7 ex_token"
    by (simp_all add: ex_token_def hasRole_def)
  show ?thesis
    using r h totalSupply_bounded_by_maxSupply[where s = ex_token and initialSupply = 2
        and maxSupply' = 1 and ow = 7 and n = "''URBE Token''" and sy = "''URBE''"
        and me = True and be = True and pe = True and ?s1.0 = ex_token and amount = 10
        and sender = 7 and to = 7]
    by simp
qed

text \<open>
  The revert is not always \<open>MaxSupplyExceeded\<close>: the constructor called with
  \<open>initialSupply = 1\<close> and \<open>maxSupply_ = 0\<close> reverts with \<open>ZeroAmount\<close>; on the token
  above, whose total supply is 1, minting \<open>2^256 - 1\<close> by the owner overflows the
  checked addition and reverts with \<open>Panic(0x11)\<close>, and the same call from account 8
  reverts with \<open>OwnableUnauthorizedAccount\<close>.
\<close>

theorem mint_revert_reason_counterexample:
  "(1::uint256) > 0
   \<and> tok_constructor ''URBE Token'' ''URBE'' 1 0 7 True True True = Inl ZeroAmount
   \<and> tok_constructor ''URBE Token'' ''URBE'' 1 10 7 True True True = Inr ex_token
   \<and> unat (t_totalSupply ex_token) + unat (- 1 :: uint256) > unat (t_maxSupply ex_token)
   \<and> tok_mint 7 7 (- 1) ex_token = Inl (Panic 17)
   \<and> tok_mint 8 7 (- 1) ex_token = Inl (OwnableUnauthorizedAccount 8)"
proof -
  have "tok_constructor ''URBE Token'' ''URBE'' 1 0 7 True True True = Inl ZeroAmount"
    by (simp add: tok_constructor_def)
  moreover have "unat (t_totalSupply ex_token) + unat (- 1 :: uint256) > unat (t_maxSupply ex_token)"
    by (simp add: ex_token_def unsigned_minus_1_eq_mask mask_eq_exp_minus_1)
  moreover have "tok_mint 7 7 (- 1) ex_token = Inl (Panic 17)"
    by (simp add: tok_mint_def onlyOwner_def whenNotPaused_def int_mintTokens_def
        checked_add_def ex_token_def unsigned_minus_1_eq_mask mask_eq_exp_minus_1)
  moreover have "tok_mint 8 7 (- 1) ex_token = Inl (OwnableUnauthorizedAccount 8)"
    by (simp add: tok_mint_def onlyOwner_def ex_token_def)
  ultimately show ?thesis using ex_token_constructed by simp
qed

section \<open>TokenFactory: the ledger of deployed tokens\<close>

lemma int_deployToken_Inr:
  assumes "int_deployToken e n sy i m ow me be pe s = Inr (a, s')"
  shows "a = create_address e" and "a \<notin> dom (f_deployed s)"
    and "\<exists>tok k. checked_add (f_totalTokensDeployed s) 1 = Inr k \<and>
           s' = s\<lparr>f_tokenInfo := (f_tokenInfo s)(a :=
                     \<lparr>ti_tokenAddress = a, ti_name = n, ti_symbol = sy, ti_initialSupply = i,
                      ti_maxSupply = m, ti_creator = msg_sender e,
                      ti_createdAt = block_timestamp e, ti_mintingEnabled = me,
                      ti_burningEnabled = be, ti_pausingEnabled = pe\<rparr>),
                   f_tokensByCreator := (f_tokensByCreator s)
                     (msg_sender e := f_tokensByCreator s (msg_sender e) @ [a]),
                   f_allTokens := f_allTokens s @ [a],
                   f_totalTokensDeployed := k,
                   f_deployed := (f_deployed s)(a := Some tok)\<rparr>"
  using assms
  by (auto simp: int_deployToken_def new_URBEToken_def Let_def
      split: if_splits sum.splits prod.splits)

lemma new_state_Inr: "new_state r = Inr s' \<Longrightarrow> \<exists>v. r = Inr (v, s')"
  by (auto simp: new_state_def split: sum.splits prod.splits)

text \<open>What a successful call does to the ledger: it is a \<open>withdrawFees\<close>, whose
  effect is that of the calls its recipient makes, or a deployment, or the ledger is
  untouched.\<close>

lemma fac_call_effect:
  assumes "fac_call e c k s = Inr s'"
  shows "(\<exists>amount to. c = WithdrawFees amount to \<and> s' = k s)
         \<or> (\<exists>a info tok n. a \<notin> dom (f_deployed s)
            \<and> checked_add (f_totalTokensDeployed s) 1 = Inr n
            \<and> f_tokenInfo s' = (f_tokenInfo s)(a := info)
            \<and> f_allTokens s' = f_allTokens s @ [a]
            \<and> f_totalTokensDeployed s' = n
            \<and> f_deployed s' = (f_deployed s)(a := Some tok))
         \<or> (f_tokenInfo s' = f_tokenInfo s \<and> f_allTokens s' = f_allTokens s
            \<and> f_totalTokensDeployed s' = f_totalTokensDeployed s
            \<and> f_deployed s' = f_deployed s)"
proof (cases c)
  case (DeployToken n sy i m me be pe)
  then obtain a where "int_deployToken e n sy i m (msg_sender e) me be pe s = Inr (a, s')"
    using assms new_state_Inr by (fastforce simp: fac_deployToken_def)
  from int_deployToken_Inr(2,3)[OF this] show ?thesis by fastforce
next
  case (DeployTokenWithOwner n sy i m ow me be pe)
  then obtain a where "int_deployToken e n sy i m ow me be pe s = Inr (a, s')"
    using assms new_state_Inr by (fastforce simp: fac_deployTokenWithOwner_def)
  from int_deployToken_Inr(2,3)[OF this] show ?thesis by fastforce
qed (use assms in \<open>auto simp: fac_setDeploymentFee_def fac_setMaxTokensPerCreator_def
      fac_setFactoryPaused_def fac_withdrawFees_def fac_transferOwnership_def
      fac_renounceOwnership_def fac_receive_def dest!: nonpayable_Inr guarded_Inr
      split: if_splits\<close>)

text \<open>A property of the state that every single call preserves, given that the calls made
  back into the factory preserve it, is preserved by every transaction and every sequence
  of transactions, whatever runs inside them.\<close>

lemma fac_preserves:
  assumes frame: "\<And>e c k s s'. fac_call e c k s = Inr s' \<Longrightarrow> P s \<Longrightarrow> P (k s) \<Longrightarrow> P s'"
  shows "\<forall>s'. fac_tx x s = Inr s' \<longrightarrow> P s \<longrightarrow> P s'" and "P s \<longrightarrow> P (fac_run xs s)"
proof (induction x s and xs s rule: fac_tx_fac_run.induct)
  case (1 e c inner s)
  show ?case
  proof (intro allI impI)
    fix s' assume c: "fac_tx (Tx e c inner) s = Inr s'" and p: "P s"
    have "P (fac_run inner s)" using 1 p by blast
    then show "P s'" using frame[of e c "\<lambda>s0. fac_run inner s0" s s'] c p by simp
  qed
next
  case (2 s)
  show ?case by simp
next
  case (3 x xs s)
  show ?case
  proof (cases "fac_tx x s")
    case (Inl err)
    then show ?thesis using 3 by simp
  next
    case (Inr s')
    then show ?thesis using 3 by simp
  qed
qed

lemma fac_call_inv:
  assumes "fac_call e c k s = Inr s'" and "factory_inv s" and "factory_inv (k s)"
  shows "factory_inv s'"
  using fac_call_effect[OF assms(1)] assms(2,3)
  by (auto simp: factory_inv_def dest!: checked_add_Inr)

lemma fac_constructor_inv: "fac_constructor ow fee mx = Inr s \<Longrightarrow> factory_inv s"
  by (auto simp: fac_constructor_def factory_inv_def split: if_splits)

lemma fac_tx_inv: "fac_tx x s = Inr s' \<Longrightarrow> factory_inv s \<Longrightarrow> factory_inv s'"
  using fac_preserves(1)[of factory_inv x s] fac_call_inv by blast

lemma factory_reachable_inv: "factory_reachable s \<Longrightarrow> factory_inv s"
  by (induction rule: factory_reachable.induct) (auto intro: fac_constructor_inv fac_tx_inv)

lemma fac_call_tokenInfo:
  assumes "fac_call e c k s = Inr s'"
    and "factory_inv s \<and> t \<in> set (f_allTokens s) \<and> f_tokenInfo s t = v"
    and "factory_inv (k s) \<and> t \<in> set (f_allTokens (k s)) \<and> f_tokenInfo (k s) t = v"
  shows "factory_inv s' \<and> t \<in> set (f_allTokens s') \<and> f_tokenInfo s' t = v"
proof -
  have t: "t \<in> dom (f_deployed s)" using assms(2) by (auto simp: factory_inv_def)
  have i: "factory_inv s'" using fac_call_inv[OF assms(1)] assms(2,3) by blast
  from fac_call_effect[OF assms(1)]
  have "t \<in> set (f_allTokens s') \<and> f_tokenInfo s' t = v"
  proof (elim disjE exE conjE)
    fix amount to assume "s' = k s"
    then show ?thesis using assms(3) by simp
  next
    fix a info tok n
    assume "a \<notin> dom (f_deployed s)" "f_tokenInfo s' = (f_tokenInfo s)(a := info)"
      "f_allTokens s' = f_allTokens s @ [a]"
    then show ?thesis using t assms(2) by auto
  next
    assume "f_tokenInfo s' = f_tokenInfo s" "f_allTokens s' = f_allTokens s"
    then show ?thesis using assms(2) by simp
  qed
  then show ?thesis using i by simp
qed

lemma fac_run_tokenInfo:
  assumes "factory_reachable s" and "t \<in> set (f_allTokens s)"
  shows "f_tokenInfo (fac_run cs s) t = f_tokenInfo s t"
proof -
  let ?P = "\<lambda>s1. factory_inv s1 \<and> t \<in> set (f_allTokens s1) \<and> f_tokenInfo s1 t = f_tokenInfo s t"
  have "?P s \<longrightarrow> ?P (fac_run cs s)"
    by (rule fac_preserves(2)[of ?P]) (rule fac_call_tokenInfo)
  then show ?thesis using assms factory_reachable_inv by blast
qed

lemma ex_factory0_constructed: "fac_constructor 1 5 1 = Inr ex_factory0"
  by (simp add: fac_constructor_def ex_factory0_def)

lemma ex_factory_deployed:
  "int_deployToken (ex_txn 7 5 9) ''URBE Token'' ''URBE'' 1 10 7 True True True ex_factory0
     = Inr (9, ex_factory)"
  by (simp add: int_deployToken_def new_URBEToken_def ex_token_constructed checked_add_def
      ex_factory0_def ex_factory_def ex_TokenInfo_def ex_txn_def)

lemma ex_factory0_reachable: "factory_reachable ex_factory0"
  by (rule factory_reachable.deployed[OF ex_factory0_constructed])

lemma ex_factory_reachable: "factory_reachable ex_factory"
proof -
  have "fac_tx (Tx (ex_txn 7 5 9) (DeployToken ''URBE Token'' ''URBE'' 1 10 True True True) [])
          ex_factory0 = Inr ex_factory"
    using ex_factory_deployed by (simp add: fac_deployToken_def new_state_def ex_txn_def)
  then show ?thesis using ex_factory0_reachable factory_reachable.called by blast
qed

text \<open>
  Claim C3. For every token address recorded by a reachable factory, no sequence of
  later transactions (further deployments, \<open>setDeploymentFee\<close>,
  \<open>setMaxTokensPerCreator\<close>, \<open>setFactoryPaused\<close>, \<open>withdrawFees\<close> with
  whatever the recipient of the ether calls back, ownership transfers) changes
  \<open>tokenInfo\<close> of that address. The record is written by the deployment that appends
  the address to \<open>allTokens\<close>, and that address was not recorded before.
\<close>

theorem tokenInfo_written_once:
  "(factory_reachable s \<longrightarrow>
      (\<forall>t\<in>set (f_allTokens s). f_tokenInfo (fac_run cs s) t = f_tokenInfo s t))
   \<and> (factory_reachable s0 \<and> int_deployToken e n sy i m ow me be pe s0 = Inr (a, s') \<longrightarrow>
        a \<notin> set (f_allTokens s0) \<and> f_allTokens s' = f_allTokens s0 @ [a]
        \<and> f_tokenInfo s' a =
            \<lparr>ti_tokenAddress = a, ti_name = n, ti_symbol = sy, ti_initialSupply = i,
             ti_maxSupply = m, ti_creator = msg_sender e, ti_createdAt = block_timestamp e,
             ti_mintingEnabled = me, ti_burningEnabled = be, ti_pausingEnabled = pe\<rparr>)"
proof (intro conjI impI ballI)
  fix t assume "factory_reachable s" "t \<in> set (f_allTokens s)"
  then show "f_tokenInfo (fac_run cs s) t = f_tokenInfo s t" by (rule fac_run_tokenInfo)
next
  assume h: "factory_reachable s0 \<and> int_deployToken e n sy i m ow me be pe s0 = Inr (a, s')"
  then have "factory_inv s0" using factory_reachable_inv by blast
  moreover have "a \<notin> dom (f_deployed s0)" using h int_deployToken_Inr(2) by blast
  ultimately show "a \<notin> set (f_allTokens s0)" by (auto simp: factory_inv_def)
next
  assume h: "factory_reachable s0 \<and> int_deployToken e n sy i m ow me be pe s0 = Inr (a, s')"
  then show "f_allTokens s' = f_allTokens s0 @ [a]"
    using int_deployToken_Inr(3)[of e n sy i m ow me be pe s0 a s'] by auto
next
  assume h: "factory_reachable s0 \<and> int_deployToken e n sy i m ow me be pe s0 = Inr (a, s')"
  then show "f_tokenInfo s' a =
            \<lparr>ti_tokenAddress = a, ti_name = n, ti_symbol = sy, ti_initialSupply = i,
             ti_maxSupply = m, ti_creator = msg_sender e, ti_createdAt = block_timestamp e,
             ti_mintingEnabled = me, ti_burningEnabled = be, ti_pausingEnabled = pe\<rparr>"
    using int_deployToken_Inr(3)[of e n sy i m ow me be pe s0 a s'] by auto
qed

text \<open>The theorem at the example factory: the record of token 9 survives a further
  deployment, the owner's transactions and a \<open>withdrawFees\<close> whose recipient, account
  30, deploys a token of its own while it receives the ether; and the record was written
  by the deployment of token 9.\<close>

theorem tokenInfo_written_once_witness:
  "factory_reachable ex_factory \<and> 9 \<in> set (f_allTokens ex_factory)
   \<and> f_tokenInfo
        (fac_run [Tx (ex_txn 8 5 10) (DeployToken ''Beta'' ''BET'' 2 20 True False False) [],
                  Tx (ex_txn 1 0 0) (SetDeploymentFee 6) [],
                  Tx (ex_txn 1 0 0) (SetMaxTokensPerCreator 3) [],
                  Tx (ex_txn 1 0 0) (WithdrawFees 0 30)
                    [Tx (ex_txn 30 6 11) (DeployToken ''Gamma'' ''GAM'' 3 30 True True True) []],
                  Tx (ex_txn 1 0 0) (SetFactoryPaused True) []] ex_factory) 9
      = f_tokenInfo ex_factory 9
   \<and> factory_reachable ex_factory0
   \<and> int_deployToken (ex_txn 7 5 9) ''URBE Token'' ''URBE'' 1 10 7 True True True ex_factory0
       = Inr (9, ex_factory)
   \<and> 9 \<notin> set (f_allTokens ex_factory0)
   \<and> f_allTokens ex_factory = f_allTokens ex_factory0 @ [9]
   \<and> f_tokenInfo ex_factory 9 = ex_TokenInfo"
proof -
  have m: "9 \<in> set (f_allTokens ex_factory)" by (simp add: ex_factory_def)
  show ?thesis
    using m ex_factory_reachable ex_factory0_reachable ex_factory_deployed
      tokenInfo_written_once[where s = ex_factory and ?s0.0 = ex_factory0 and s' = ex_factory
        and a = 9 and e = "ex_txn 7 5 9" and n = "''URBE Token''" and sy = "''URBE''"
        and i = 1 and m = 10 and ow = 7 and me = True and be = True and pe = True
        and cs = "[Tx (ex_txn 8 5 10) (DeployToken ''Beta'' ''BET'' 2 20 True False False) [],
                  Tx (ex_txn 1 0 0) (SetDeploymentFee 6) [],
                  Tx (ex_txn 1 0 0) (SetMaxTokensPerCreator 3) [],
                  Tx (ex_txn 1 0 0) (WithdrawFees 0 30)
                    [Tx (ex_txn 30 6 11) (DeployToken ''Gamma'' ''GAM'' 3 30 True True True) []],
                  Tx (ex_txn 1 0 0) (SetFactoryPaused True) []]"]
    by (simp add: ex_txn_def ex_TokenInfo_def)
qed

text \<open>The checks of \<open>_deployToken\<close> fail in the order of the source: for a caller at the
  cap, the error is that of the first of the nine checks that fails.\<close>

lemma int_deployToken_at_cap:
  assumes "length (f_tokensByCreator s (msg_sender e)) \<ge> unat (f_maxTokensPerCreator s)"
  shows "int_deployToken e n sy i m ow me be pe s =
           Inl (if f_factoryPaused s then FactoryPaused
                else if n = [] then EmptyName
                else if sy = [] then EmptySymbol
                else if i = 0 then ZeroInitialSupply
                else if m = 0 then ZeroMaxSupply
                else if i > m then InitialSupplyExceedsMax
                else if ow = 0 then InvalidTokenAddress
                else if msg_value e < f_deploymentFee s then InsufficientDeploymentFee
                else MaxTokensPerCreatorExceeded)"
  using assms by (simp add: int_deployToken_def Let_def)

lemma tok_constructor_errors:
  "tok_constructor n sy i m ow me be pe = Inl err \<Longrightarrow>
     err \<in> {OwnableInvalidOwner 0, ZeroAmount, MaxSupplyExceeded, Panic 17}"
  by (auto simp: tok_constructor_def Let_def ERC20_mint_def ERC20_update_def AC_grantRole_def
      checked_add_def split: if_splits sum.splits)

lemma int_deployToken_below_cap:
  assumes "length (f_tokensByCreator s (msg_sender e)) < unat (f_maxTokensPerCreator s)"
  shows "int_deployToken e n sy i m ow me be pe s \<noteq> Inl MaxTokensPerCreatorExceeded"
proof
  assume a: "int_deployToken e n sy i m ow me be pe s = Inl MaxTokensPerCreatorExceeded"
  have "tok_constructor n sy i m ow me be pe \<noteq> Inl MaxTokensPerCreatorExceeded"
    using tok_constructor_errors by fastforce
  then show False using a assms
    by (auto simp: int_deployToken_def new_URBEToken_def Let_def checked_add_def
        split: if_splits sum.splits prod.splits)
qed

text \<open>
  Claim C6, as the code has it. A call of \<open>deployToken\<close> or
  \<open>deployTokenWithOwner\<close> by a caller who has already deployed at least
  \<open>maxTokensPerCreator\<close> tokens reverts and leaves the factory as it was. The error is
  that of the first check that fails, in the order of the source: \<open>FactoryPaused\<close>,
  \<open>EmptyName\<close>, \<open>EmptySymbol\<close>, \<open>ZeroInitialSupply\<close>, \<open>ZeroMaxSupply\<close>,
  \<open>InitialSupplyExceedsMax\<close>, \<open>InvalidTokenAddress\<close> (token owner zero),
  \<open>InsufficientDeploymentFee\<close>, and \<open>MaxTokensPerCreatorExceeded\<close> when all the
  checks made before the cap pass. A caller strictly below the cap never gets
  \<open>MaxTokensPerCreatorExceeded\<close>.
\<close>

theorem creator_cap_enforced:
  "(length (f_tokensByCreator s (msg_sender e)) \<ge> unat (f_maxTokensPerCreator s) \<longrightarrow>
      fac_deployToken e n sy i m me be pe s =
        Inl (if f_factoryPaused s then FactoryPaused
             else if n = [] then EmptyName
             else if sy = [] then EmptySymbol
             else if i = 0 then ZeroInitialSupply
             else if m = 0 then ZeroMaxSupply
             else if i > m then InitialSupplyExceedsMax
             else if msg_sender e = 0 then InvalidTokenAddress
             else if msg_value e < f_deploymentFee s then InsufficientDeploymentFee
             else MaxTokensPerCreatorExceeded)
      \<and> fac_deployTokenWithOwner e n sy i m ow me be pe s =
        Inl (if f_factoryPaused s then FactoryPaused
             else if n = [] then EmptyName
             else if sy = [] then EmptySymbol
             else if i = 0 then ZeroInitialSupply
             else if m = 0 then ZeroMaxSupply
             else if i > m then InitialSupplyExceedsMax
             else if ow = 0 then InvalidTokenAddress
             else if msg_value e < f_deploymentFee s then InsufficientDeploymentFee
             else MaxTokensPerCreatorExceeded)
      \<and> fac_run [Tx e (DeployToken n sy i m me be pe) inner] s = s
      \<and> fac_run [Tx e (DeployTokenWithOwner n sy i m ow me be pe) inner] s = s
      \<and> (\<not> f_factoryPaused s \<and> n \<noteq> [] \<and> sy \<noteq> [] \<and> i \<noteq> 0 \<and> m \<noteq> 0 \<and> i \<le> m
           \<and> f_deploymentFee s \<le> msg_value e \<longrightarrow>
             (msg_sender e \<noteq> 0 \<longrightarrow>
                fac_deployToken e n sy i m me be pe s = Inl MaxTokensPerCreatorExceeded)
             \<and> (ow \<noteq> 0 \<longrightarrow>
                fac_deployTokenWithOwner e n sy i m ow me be pe s
                  = Inl MaxTokensPerCreatorExceeded)))
   \<and> (length (f_tokensByCreator s2 (msg_sender e2)) < unat (f_maxTokensPerCreator s2) \<longrightarrow>
        fac_deployToken e2 n sy i m me be pe s2 \<noteq> Inl MaxTokensPerCreatorExceeded
        \<and> fac_deployTokenWithOwner e2 n sy i m ow me be pe s2
             \<noteq> Inl MaxTokensPerCreatorExceeded)"
proof (intro conjI impI)
  assume cap: "length (f_tokensByCreator s (msg_sender e)) \<ge> unat (f_maxTokensPerCreator s)"
  show r1: "fac_deployToken e n sy i m me be pe s =
        Inl (if f_factoryPaused s then FactoryPaused
             else if n = [] then EmptyName
             else if sy = [] then EmptySymbol
             else if i = 0 then ZeroInitialSupply
             else if m = 0 then ZeroMaxSupply
             else if i > m then InitialSupplyExceedsMax
             else if msg_sender e = 0 then InvalidTokenAddress
             else if msg_value e < f_deploymentFee s then InsufficientDeploymentFee
             else MaxTokensPerCreatorExceeded)"
    unfolding fac_deployToken_def by (rule int_deployToken_at_cap[OF cap])
  show r2: "fac_deployTokenWithOwner e n sy i m ow me be pe s =
        Inl (if f_factoryPaused s then FactoryPaused
             else if n = [] then EmptyName
             else if sy = [] then EmptySymbol
             else if i = 0 then ZeroInitialSupply
             else if m = 0 then ZeroMaxSupply
             else if i > m then InitialSupplyExceedsMax
             else if ow = 0 then InvalidTokenAddress
             else if msg_value e < f_deploymentFee s then InsufficientDeploymentFee
             else MaxTokensPerCreatorExceeded)"
    unfolding fac_deployTokenWithOwner_def by (rule int_deployToken_at_cap[OF cap])
  show "fac_run [Tx e (DeployToken n sy i m me be pe) inner] s = s"
    by (simp add: r1 new_state_def)
  show "fac_run [Tx e (DeployTokenWithOwner n sy i m ow me be pe) inner] s = s"
    by (simp add: r2 new_state_def)
next
  assume cap: "length (f_tokensByCreator s (msg_sender e)) \<ge> unat (f_maxTokensPerCreator s)"
    and v: "\<not> f_factoryPaused s \<and> n \<noteq> [] \<and> sy \<noteq> [] \<and> i \<noteq> 0 \<and> m \<noteq> 0 \<and> i \<le> m
           \<and> f_deploymentFee s \<le> msg_value e"
    and nz: "msg_sender e \<noteq> 0"
  have nc: "\<not> m < i" "\<not> msg_value e < f_deploymentFee s" using v by auto
  show "fac_deployToken e n sy i m me be pe s = Inl MaxTokensPerCreatorExceeded"
    unfolding fac_deployToken_def using int_deployToken_at_cap[OF cap] v nz nc by simp
next
  assume cap: "length (f_tokensByCreator s (msg_sender e)) \<ge> unat (f_maxTokensPerCreator s)"
    and v: "\<not> f_factoryPaused s \<and> n \<noteq> [] \<and> sy \<noteq> [] \<and> i \<noteq> 0 \<and> m \<noteq> 0 \<and> i \<le> m
           \<and> f_deploymentFee s \<le> msg_value e"
    and nz: "ow \<noteq> 0"
  have nc: "\<not> m < i" "\<not> msg_value e < f_deploymentFee s" using v by auto
  show "fac_deployTokenWithOwner e n sy i m ow me be pe s = Inl MaxTokensPerCreatorExceeded"
    unfolding fac_deployTokenWithOwner_def using int_deployToken_at_cap[OF cap] v nz nc by simp
next
  assume "length (f_tokensByCreator s2 (msg_sender e2)) < unat (f_maxTokensPerCreator s2)"
  then show "fac_deployToken e2 n sy i m me be pe s2 \<noteq> Inl MaxTokensPerCreatorExceeded"
    unfolding fac_deployToken_def by (rule int_deployToken_below_cap)
next
  assume "length (f_tokensByCreator s2 (msg_sender e2)) < unat (f_maxTokensPerCreator s2)"
  then show "fac_deployTokenWithOwner e2 n sy i m ow me be pe s2 \<noteq> Inl MaxTokensPerCreatorExceeded"
    unfolding fac_deployTokenWithOwner_def by (rule int_deployToken_below_cap)
qed

text \<open>Account 7 is at the cap of the example factory, account 8 is below it. With the fee
  paid and valid arguments account 7 gets \<open>MaxTokensPerCreatorExceeded\<close>; with an empty
  name, a zero maximum supply and 4 wei where the fee is 5, it gets \<open>EmptyName\<close>, the
  first of the three checks that fail; with a zero token owner and 4 wei it gets
  \<open>InvalidTokenAddress\<close>.\<close>

theorem creator_cap_enforced_witness:
  "length (f_tokensByCreator ex_factory (msg_sender (ex_txn 7 5 10)))
      \<ge> unat (f_maxTokensPerCreator ex_factory)
   \<and> fac_deployToken (ex_txn 7 5 10) ''Beta'' ''BET'' 2 20 True False False ex_factory
       = Inl MaxTokensPerCreatorExceeded
   \<and> fac_deployTokenWithOwner (ex_txn 7 5 10) ''Beta'' ''BET'' 2 20 8 True False False ex_factory
       = Inl MaxTokensPerCreatorExceeded
   \<and> fac_run [Tx (ex_txn 7 5 10) (DeployToken ''Beta'' ''BET'' 2 20 True False False) []]
       ex_factory = ex_factory
   \<and> length (f_tokensByCreator ex_factory (msg_sender (ex_txn 7 4 10)))
      \<ge> unat (f_maxTokensPerCreator ex_factory)
   \<and> fac_deployToken (ex_txn 7 4 10) [] ''BET'' 2 0 True False False ex_factory = Inl EmptyName
   \<and> fac_deployTokenWithOwner (ex_txn 7 4 10) ''Beta'' ''BET'' 2 20 0 True False False ex_factory
       = Inl InvalidTokenAddress
   \<and> length (f_tokensByCreator ex_factory (msg_sender (ex_txn 8 5 10)))
       < unat (f_maxTokensPerCreator ex_factory)
   \<and> fac_deployToken (ex_txn 8 5 10) ''Beta'' ''BET'' 2 20 True False False ex_factory
       \<noteq> Inl MaxTokensPerCreatorExceeded"
proof -
  have h: "length (f_tokensByCreator ex_factory (msg_sender (ex_txn 7 5 10)))
             \<ge> unat (f_maxTokensPerCreator ex_factory)"
    "length (f_tokensByCreator ex_factory (msg_sender (ex_txn 7 4 10)))
             \<ge> unat (f_maxTokensPerCreator ex_factory)"
    "length (f_tokensByCreator ex_factory (msg_sender (ex_txn 8 5 10)))
       < unat (f_maxTokensPerCreator ex_factory)"
    "\<not> f_factoryPaused ex_factory" "f_deploymentFee ex_factory \<le> msg_value (ex_txn 7 5 10)"
    "msg_value (ex_txn 7 4 10) < f_deploymentFee ex_factory"
    "msg_sender (ex_txn 7 5 10) \<noteq> 0"
    by (simp_all add: ex_factory_def ex_txn_def)
  show ?thesis
    using h creator_cap_enforced[where s = ex_factory and e = "ex_txn 7 5 10"
        and ?s2.0 = ex_factory and ?e2.0 = "ex_txn 8 5 10" and n = "''Beta''"
        and sy = "''BET''" and i = 2 and m = 20 and ow = 8 and me = True and be = False
        and pe = False and inner = "[]"]
      creator_cap_enforced[where s = ex_factory and e = "ex_txn 7 4 10"
        and ?s2.0 = ex_factory and ?e2.0 = "ex_txn 8 5 10" and n = "[]"
        and sy = "''BET''" and i = 2 and m = 0 and ow = 8 and me = True and be = False
        and pe = False and inner = "[]"]
      creator_cap_enforced[where s = ex_factory and e = "ex_txn 7 4 10"
        and ?s2.0 = ex_factory and ?e2.0 = "ex_txn 8 5 10" and n = "''Beta''"
        and sy = "''BET''" and i = 2 and m = 20 and ow = 0 and me = True and be = False
        and pe = False and inner = "[]"]
    by (simp add: ex_factory_def ex_txn_def new_state_def)
qed

text \<open>Account 7, at the cap, sends 4 wei where the fee is 5: the fee check comes first and
  the call reverts with \<open>InsufficientDeploymentFee\<close>.\<close>

theorem creator_cap_counterexample:
  "length (f_tokensByCreator ex_factory (msg_sender (ex_txn 7 4 10)))
      \<ge> unat (f_maxTokensPerCreator ex_factory)
   \<and> fac_deployToken (ex_txn 7 4 10) ''Beta'' ''BET'' 2 20 True False False ex_factory
       = Inl InsufficientDeploymentFee"
  by (simp add: fac_deployToken_def int_deployToken_def ex_factory_def ex_txn_def)

section \<open>TokenRegistry: registration, verification and the creators' counters\<close>

lemma checked_add_unat: "checked_add a b = Inr c \<Longrightarrow> unat c = unat a + unat b"
  using checked_add_Inr by blast

lemma checked_add_one: "a \<noteq> - 1 \<Longrightarrow> checked_add a 1 = Inr (a + 1)"
proof -
  assume "a \<noteq> - 1"
  then have "unat a \<noteq> unat (- 1 :: uint256)" using word_unat_eq_iff by blast
  moreover have "unat a < 2 ^ 256" by (rule unat_lt_2p256)
  ultimately have "unat a + unat (1::uint256) < 2 ^ 256"
    by (simp add: unsigned_minus_1_eq_mask mask_eq_exp_minus_1)
  then show ?thesis by (simp add: checked_add_def)
qed

lemma update_creator_info_Inr:
  assumes "update_creator_info e creator s = Inr s'"
  shows "r_tokenMetadata s' = r_tokenMetadata s" and "r_allTokens s' = r_allTokens s"
    and "r_totalTokensRegistered s' = r_totalTokensRegistered s"
    and "r_totalCategories s' = r_totalCategories s"
    and "\<And>c. c \<noteq> creator \<Longrightarrow> r_creatorInfo s' c = r_creatorInfo s c"
    and "ci_lastActivity (r_creatorInfo s' creator) = block_timestamp e"
    and "ci_creator (r_creatorInfo s creator) = 0 \<Longrightarrow>
           ci_totalTokens (r_creatorInfo s' creator) = 1
           \<and> ci_verifiedTokens (r_creatorInfo s' creator) = 0
           \<and> ci_totalVolume (r_creatorInfo s' creator) = 0"
    and "ci_creator (r_creatorInfo s creator) \<noteq> 0 \<Longrightarrow>
           unat (ci_totalTokens (r_creatorInfo s' creator))
             = unat (ci_totalTokens (r_creatorInfo s creator)) + 1
           \<and> ci_verifiedTokens (r_creatorInfo s' creator)
               = ci_verifiedTokens (r_creatorInfo s creator)
           \<and> ci_totalVolume (r_creatorInfo s' creator)
               = ci_totalVolume (r_creatorInfo s creator)"
  using assms
  by (auto simp: update_creator_info_def dest!: checked_add_Inr split: if_splits sum.splits)

lemma int_registerToken_Inr:
  assumes "int_registerToken e t d w l c tags creator s = Inr s'"
  shows "\<not> r_registryPaused s" and "t \<noteq> 0" and "\<not> tm_active (r_tokenMetadata s t)"
    and "c < r_totalCategories s" and "r_registrationFee s \<le> msg_value e"
    and "\<exists>nm sy dec ts mx k.
           checked_add (r_totalTokensRegistered s) 1 = Inr k
           \<and> update_creator_info e creator
                (s\<lparr>r_tokenMetadata := (r_tokenMetadata s)(t :=
                      \<lparr>tm_tokenAddress = t, tm_name = nm, tm_symbol = sy, tm_decimals = dec,
                       tm_totalSupply = ts, tm_maxSupply = mx, tm_creator = creator,
                       tm_registeredAt = block_timestamp e, tm_description = d,
                       tm_website = w, tm_logo = l, tm_verified = False, tm_active = True,
                       tm_category = c, tm_tags = tags\<rparr>),
                   r_allTokens := r_allTokens s @ [t],
                   r_totalTokensRegistered := k\<rparr>) = Inr s'"
  using assms
    apply (auto simp: int_registerToken_def Let_def not_le not_less split: if_splits sum.splits)
  apply (intro exI)
  apply assumption
  done

lemma int_registerToken_effect:
  assumes "int_registerToken e t d w l c tags creator s = Inr s'"
  shows "r_allTokens s' = r_allTokens s @ [t]"
    and "unat (r_totalTokensRegistered s') = unat (r_totalTokensRegistered s) + 1"
    and "\<And>t'. t' \<noteq> t \<Longrightarrow> r_tokenMetadata s' t' = r_tokenMetadata s t'"
    and "tm_active (r_tokenMetadata s' t)" and "\<not> tm_verified (r_tokenMetadata s' t)"
    and "tm_creator (r_tokenMetadata s' t) = creator"
    and "tm_category (r_tokenMetadata s' t) = c"
    and "\<And>a. a \<noteq> creator \<Longrightarrow> r_creatorInfo s' a = r_creatorInfo s a"
    and "ci_totalVolume (r_creatorInfo s' creator) =
           (if ci_creator (r_creatorInfo s creator) = 0 then 0
            else ci_totalVolume (r_creatorInfo s creator))"
proof -
  from int_registerToken_Inr(6)[OF assms] obtain nm sy dec ts mx k where
    k: "checked_add (r_totalTokensRegistered s) 1 = Inr k"
    and u: "update_creator_info e creator
                (s\<lparr>r_tokenMetadata := (r_tokenMetadata s)(t :=
                      \<lparr>tm_tokenAddress = t, tm_name = nm, tm_symbol = sy, tm_decimals = dec,
                       tm_totalSupply = ts, tm_maxSupply = mx, tm_creator = creator,
                       tm_registeredAt = block_timestamp e, tm_description = d,
                       tm_website = w, tm_logo = l, tm_verified = False, tm_active = True,
                       tm_category = c, tm_tags = tags\<rparr>),
                   r_allTokens := r_allTokens s @ [t],
                   r_totalTokensRegistered := k\<rparr>) = Inr s'"
    by blast
  note e = update_creator_info_Inr[OF u]
  show "r_allTokens s' = r_allTokens s @ [t]" using e(2) by simp
  show "unat (r_totalTokensRegistered s') = unat (r_totalTokensRegistered s) + 1"
    using e(3) checked_add_unat[OF k] by simp
  show "\<And>t'. t' \<noteq> t \<Longrightarrow> r_tokenMetadata s' t' = r_tokenMetadata s t'" using e(1) by simp
  show "tm_active (r_tokenMetadata s' t)" using e(1) by simp
  show "\<not> tm_verified (r_tokenMetadata s' t)" using e(1) by simp
  show "tm_creator (r_tokenMetadata s' t) = creator" using e(1) by simp
  show "tm_category (r_tokenMetadata s' t) = c" using e(1) by simp
  show "\<And>a. a \<noteq> creator \<Longrightarrow> r_creatorInfo s' a = r_creatorInfo s a" using e(5) by simp
  show "ci_totalVolume (r_creatorInfo s' creator) =
           (if ci_creator (r_creatorInfo s creator) = 0 then 0
            else ci_totalVolume (r_creatorInfo s creator))"
    using e(7,8) by simp
qed

lemma reg_setTokenVerification_Inr:
  assumes "reg_setTokenVerification e t v s = Inr s'"
  shows "msg_sender e = r_owner s" and "tm_active (r_tokenMetadata s t)"
    and "r_tokenMetadata s' = (r_tokenMetadata s)(t := (r_tokenMetadata s t)\<lparr>tm_verified := v\<rparr>)"
    and "r_allTokens s' = r_allTokens s"
    and "r_totalTokensRegistered s' = r_totalTokensRegistered s"
    and "\<exists>k. (if v then checked_add (ci_verifiedTokens (r_creatorInfo s (tm_creator (r_tokenMetadata s t)))) 1
              else checked_sub (ci_verifiedTokens (r_creatorInfo s (tm_creator (r_tokenMetadata s t)))) 1) = Inr k
           \<and> r_creatorInfo s' = (r_creatorInfo s)(tm_creator (r_tokenMetadata s t) :=
                 (r_creatorInfo s (tm_creator (r_tokenMetadata s t)))\<lparr>ci_verifiedTokens := k\<rparr>)"
  using assms
  by (auto simp: reg_setTokenVerification_def onlyOwner_def Let_def
      split: if_splits sum.splits)

lemma reg_updateTokenMetadata_Inr:
  assumes "reg_updateTokenMetadata e t d w l s = Inr s'"
  shows "msg_sender e = tm_creator (r_tokenMetadata s t)" and "tm_active (r_tokenMetadata s t)"
    and "s' = s\<lparr>r_tokenMetadata := (r_tokenMetadata s)(t :=
                 (r_tokenMetadata s t)\<lparr>tm_description := d, tm_website := w, tm_logo := l\<rparr>)\<rparr>"
  using assms by (auto simp: reg_updateTokenMetadata_def split: if_splits)

lemma reg_call_withdrawFees:
  "reg_call e (RegistryWithdrawFees amount to) k s = Inr s' \<Longrightarrow> s' = k s"
  by (auto simp: reg_withdrawFees_def dest!: nonpayable_Inr guarded_Inr split: if_splits)

text \<open>The calls that are neither a registration, nor a metadata update, nor a token
  verification, nor a \<open>withdrawFees\<close> leave the token records and the ledger alone.\<close>

lemma reg_call_other:
  assumes "reg_call e c k s = Inr s'"
    and "\<And>amount to. c \<noteq> RegistryWithdrawFees amount to"
    and "\<And>t d w l cat tags. c \<noteq> RegisterToken t d w l cat tags"
    and "\<And>t d w l cat tags cr. c \<noteq> RegisterTokenForCreator t d w l cat tags cr"
    and "\<And>t d w l. c \<noteq> UpdateTokenMetadata t d w l"
    and "\<And>t v. c \<noteq> SetTokenVerification t v"
  shows "r_tokenMetadata s' = r_tokenMetadata s" and "r_allTokens s' = r_allTokens s"
    and "r_totalTokensRegistered s' = r_totalTokensRegistered s"
    and "\<And>a. ci_totalVolume (r_creatorInfo s' a) =
           (if ci_creator (r_creatorInfo s a) = 0 then 0 else ci_totalVolume (r_creatorInfo s a))
         \<or> ci_totalVolume (r_creatorInfo s' a) = ci_totalVolume (r_creatorInfo s a)"
proof -
  have "r_tokenMetadata s' = r_tokenMetadata s \<and> r_allTokens s' = r_allTokens s
      \<and> r_totalTokensRegistered s' = r_totalTokensRegistered s
      \<and> (\<forall>a. ci_totalVolume (r_creatorInfo s' a) =
           (if ci_creator (r_creatorInfo s a) = 0 then 0 else ci_totalVolume (r_creatorInfo s a))
         \<or> ci_totalVolume (r_creatorInfo s' a) = ci_totalVolume (r_creatorInfo s a))"
  proof (cases c)
    case (RegisterCreator n d)
    then show ?thesis using assms(1)
      by (auto simp: reg_registerCreator_def Let_def dest!: nonpayable_Inr
          split: if_splits sum.splits)
  next
    case (UpdateCreatorInfo n d)
    then show ?thesis using assms(1)
      by (auto simp: reg_updateCreatorInfo_def dest!: nonpayable_Inr split: if_splits)
  next
    case (SetCreatorVerification a v)
    then show ?thesis using assms(1)
      by (auto simp: reg_setCreatorVerification_def dest!: nonpayable_Inr guarded_Inr
          split: if_splits)
  next
    case (CreateCategory n d)
    then show ?thesis using assms(1)
      by (auto simp: reg_createCategory_def int_createCategory_def Let_def
          dest!: nonpayable_Inr guarded_Inr split: if_splits sum.splits)
  next
    case (UpdateCategory i n d a)
    then show ?thesis using assms(1)
      by (auto simp: reg_updateCategory_def dest!: nonpayable_Inr guarded_Inr split: if_splits)
  qed (use assms in \<open>auto simp: reg_setRegistrationFee_def reg_setRegistryPaused_def
        reg_setVerificationRequirements_def reg_withdrawFees_def reg_transferOwnership_def
        reg_renounceOwnership_def reg_receive_def dest!: nonpayable_Inr guarded_Inr
        split: if_splits\<close>)
  then show "r_tokenMetadata s' = r_tokenMetadata s" and "r_allTokens s' = r_allTokens s"
    and "r_totalTokensRegistered s' = r_totalTokensRegistered s"
    and "\<And>a. ci_totalVolume (r_creatorInfo s' a) =
           (if ci_creator (r_creatorInfo s a) = 0 then 0 else ci_totalVolume (r_creatorInfo s a))
         \<or> ci_totalVolume (r_creatorInfo s' a) = ci_totalVolume (r_creatorInfo s a)"
    by blast+
qed

lemma reg_call_ledger:
  assumes "reg_call e c k s = Inr s'"
  shows "(\<exists>amount to. c = RegistryWithdrawFees amount to \<and> s' = k s)
         \<or> (r_allTokens s' = r_allTokens s
          \<and> r_totalTokensRegistered s' = r_totalTokensRegistered s
          \<and> (\<forall>t. tm_active (r_tokenMetadata s' t) = tm_active (r_tokenMetadata s t)))
         \<or> (\<exists>t. \<not> tm_active (r_tokenMetadata s t)
              \<and> r_allTokens s' = r_allTokens s @ [t]
              \<and> unat (r_totalTokensRegistered s') = unat (r_totalTokensRegistered s) + 1
              \<and> (\<forall>t'. tm_active (r_tokenMetadata s' t')
                       = (t' = t \<or> tm_active (r_tokenMetadata s t'))))"
proof -
  have reg: "?thesis" if r: "int_registerToken e t d w l cat tags cr s = Inr s'"
    for t d w l cat tags cr
  proof -
    note x = int_registerToken_effect[OF r] int_registerToken_Inr(3)[OF r]
    have "\<forall>t'. tm_active (r_tokenMetadata s' t') = (t' = t \<or> tm_active (r_tokenMetadata s t'))"
      using x(3,4) by metis
    then show ?thesis using x(1,2,10) by blast
  qed
  show ?thesis
  proof (cases c)
    case (RegisterToken t d w l cat tags)
    then show ?thesis using assms reg by (simp add: reg_registerToken_def)
  next
    case (RegisterTokenForCreator t d w l cat tags cr)
    then show ?thesis using assms reg by (simp add: reg_registerTokenForCreator_def)
  next
    case (UpdateTokenMetadata t d w l)
    then have "reg_updateTokenMetadata e t d w l s = Inr s'"
      using assms(1) by (auto dest: nonpayable_Inr)
    from reg_updateTokenMetadata_Inr(3)[OF this] show ?thesis using assms by auto
  next
    case (SetTokenVerification t v)
    then have "reg_setTokenVerification e t v s = Inr s'"
      using assms(1) by (auto dest: nonpayable_Inr)
    from reg_setTokenVerification_Inr(3,4,5)[OF this] show ?thesis by auto
  next
    case (RegistryWithdrawFees amount to)
    then show ?thesis using reg_call_withdrawFees assms by blast
  qed (use reg_call_other(1,2,3)[OF assms] in auto)
qed

lemma reg_call_totalVolume:
  assumes "reg_call e c k s = Inr s'" and "\<forall>a. ci_totalVolume (r_creatorInfo s a) = 0"
    and "\<forall>a. ci_totalVolume (r_creatorInfo (k s) a) = 0"
  shows "ci_totalVolume (r_creatorInfo s' a) = 0"
proof -
  have reg: "?thesis" if r: "int_registerToken e t d w l cat tags cr s = Inr s'"
    for t d w l cat tags cr
    using int_registerToken_effect(8,9)[OF r] assms(2) by (cases "a = cr") auto
  show ?thesis
  proof (cases c)
    case (RegisterToken t d w l cat tags)
    then show ?thesis using assms reg by (simp add: reg_registerToken_def)
  next
    case (RegisterTokenForCreator t d w l cat tags cr)
    then show ?thesis using assms reg by (simp add: reg_registerTokenForCreator_def)
  next
    case (UpdateTokenMetadata t d w l)
    then have "reg_updateTokenMetadata e t d w l s = Inr s'"
      using assms(1) by (auto dest: nonpayable_Inr)
    from reg_updateTokenMetadata_Inr(3)[OF this] show ?thesis using assms by auto
  next
    case (SetTokenVerification t v)
    then have "reg_setTokenVerification e t v s = Inr s'"
      using assms(1) by (auto dest: nonpayable_Inr)
    from reg_setTokenVerification_Inr(6)[OF this] show ?thesis using assms(2) by auto
  next
    case (RegistryWithdrawFees amount to)
    then show ?thesis using reg_call_withdrawFees assms by blast
  qed (use reg_call_other(4)[OF assms(1), of a] assms(2) in auto)
qed

text \<open>A property of the state that every single call preserves, given that the calls made
  back into the registry preserve it, is preserved by every transaction and every
  sequence of transactions, whatever runs inside them. \<open>Q\<close> restricts the calls.\<close>

lemma reg_preserves_where:
  assumes frame: "\<And>e c k s s'. Q e c \<Longrightarrow> reg_call e c k s = Inr s' \<Longrightarrow> P s \<Longrightarrow> P (k s) \<Longrightarrow> P s'"
  shows "(\<forall>(e, c)\<in>set (tx_calls x). Q e c) \<longrightarrow> (\<forall>s'. reg_tx x s = Inr s' \<longrightarrow> P s \<longrightarrow> P s')"
    and "(\<forall>x\<in>set xs. \<forall>(e, c)\<in>set (tx_calls x). Q e c) \<longrightarrow> P s \<longrightarrow> P (reg_run xs s)"
proof (induction x s and xs s rule: reg_tx_reg_run.induct)
  case (1 e c inner s)
  show ?case
  proof (intro allI impI)
    fix s'
    assume q: "\<forall>(e, c)\<in>set (tx_calls (Tx e c inner)). Q e c"
      and c: "reg_tx (Tx e c inner) s = Inr s'" and p: "P s"
    have "\<forall>x\<in>set inner. \<forall>(e, c)\<in>set (tx_calls x). Q e c" using q by auto
    then have "P (reg_run inner s)" using 1 p by blast
    moreover have "Q e c" using q by simp
    ultimately show "P s'" using frame[of e c "\<lambda>s0. reg_run inner s0" s s'] c p by simp
  qed
next
  case (2 s)
  show ?case by simp
next
  case (3 x xs s)
  show ?case
  proof (cases "reg_tx x s")
    case (Inl err)
    then show ?thesis using 3 by simp
  next
    case (Inr s')
    then show ?thesis using 3 by simp
  qed
qed

lemma reg_preserves:
  assumes frame: "\<And>e c k s s'. reg_call e c k s = Inr s' \<Longrightarrow> P s \<Longrightarrow> P (k s) \<Longrightarrow> P s'"
  shows "\<forall>s'. reg_tx x s = Inr s' \<longrightarrow> P s \<longrightarrow> P s'" and "P s \<longrightarrow> P (reg_run xs s)"
  using reg_preserves_where[of "\<lambda>e c. True" P, OF frame] by auto

lemma reg_call_inv:
  assumes "reg_call e c k s = Inr s'" and "registry_inv s" and "registry_inv (k s)"
  shows "registry_inv s'"
proof -
  have v: "\<forall>a. ci_totalVolume (r_creatorInfo s' a) = 0"
    using reg_call_totalVolume[OF assms(1)] assms(2,3) by (simp add: registry_inv_def)
  from reg_call_ledger[OF assms(1)] show ?thesis
  proof (elim disjE exE conjE)
    fix amount to assume "s' = k s"
    then show ?thesis using assms(3) by simp
  next
    assume "r_allTokens s' = r_allTokens s"
      "r_totalTokensRegistered s' = r_totalTokensRegistered s"
      "\<forall>t. tm_active (r_tokenMetadata s' t) = tm_active (r_tokenMetadata s t)"
    then show ?thesis using assms(2) v by (simp add: registry_inv_def)
  next
    fix t
    assume "\<not> tm_active (r_tokenMetadata s t)" "r_allTokens s' = r_allTokens s @ [t]"
      "unat (r_totalTokensRegistered s') = unat (r_totalTokensRegistered s) + 1"
      "\<forall>t'. tm_active (r_tokenMetadata s' t') = (t' = t \<or> tm_active (r_tokenMetadata s t'))"
    then show ?thesis using assms(2) v by (auto simp: registry_inv_def)
  qed
qed

lemma int_createCategory_Inr:
  assumes "int_createCategory n d s = Inr s'"
  shows "r_tokenMetadata s' = r_tokenMetadata s" and "r_allTokens s' = r_allTokens s"
    and "r_totalTokensRegistered s' = r_totalTokensRegistered s"
    and "r_creatorInfo s' = r_creatorInfo s"
  using assms by (auto simp: int_createCategory_def Let_def split: sum.splits)

lemma reg_constructor_inv:
  assumes "reg_constructor ow fee fac mt mv = Inr s"
  shows "registry_inv s"
proof -
  let ?s0 = "\<lparr>r_owner = ow, r_tokenMetadata = (\<lambda>_. zero_TokenMetadata),
                  r_creatorInfo = (\<lambda>_. zero_CreatorInfo),
                  r_categories = (\<lambda>_. zero_CategoryInfo), r_allTokens = [],
                  r_allCreators = [], r_totalTokensRegistered = 0, r_totalCreators = 0,
                  r_totalCategories = 0, r_registrationFee = fee,
                  r_registryPaused = False, r_tokenFactory = fac,
                  r_minTokensForVerification = mt,
                  r_minVolumeForVerification = mv\<rparr>"
  from assms obtain s1 s2 s3 s4 where
    "int_createCategory ''DeFi'' ''Decentralized Finance tokens'' ?s0 = Inr s1"
    "int_createCategory ''Gaming'' ''Gaming and NFT tokens'' s1 = Inr s2"
    "int_createCategory ''Infrastructure'' ''Infrastructure and utility tokens'' s2 = Inr s3"
    "int_createCategory ''Social'' ''Social and community tokens'' s3 = Inr s4"
    "int_createCategory ''Other'' ''Other miscellaneous tokens'' s4 = Inr s"
    by (auto simp: reg_constructor_def Let_def split: if_splits sum.splits)
  then have "r_tokenMetadata s = r_tokenMetadata ?s0" "r_allTokens s = r_allTokens ?s0"
    "r_totalTokensRegistered s = r_totalTokensRegistered ?s0"
    "r_creatorInfo s = r_creatorInfo ?s0"
    using int_createCategory_Inr by metis+
  then show ?thesis
    by (simp add: registry_inv_def zero_TokenMetadata_def zero_CreatorInfo_def)
qed

lemma reg_tx_inv: "reg_tx x s = Inr s' \<Longrightarrow> registry_inv s \<Longrightarrow> registry_inv s'"
  using reg_preserves(1)[of registry_inv x s] reg_call_inv by blast

lemma registry_reachable_inv: "registry_reachable s \<Longrightarrow> registry_inv s"
  by (induction rule: registry_reachable.induct) (auto intro: reg_constructor_inv reg_tx_inv)

lemma ex_registry0_constructed: "reg_constructor 1 3 50 0 0 = Inr ex_registry0"
  by (simp add: reg_constructor_def int_createCategory_def checked_add_def ex_registry0_def
      Let_def)

lemma ex_registry1_registered:
  "reg_registerToken (ex_rtxn 7 3) 9 ''A token'' ''urbe.example'' ''logo.png'' 0 [''defi'']
     ex_registry0 = Inr ex_registry1"
  by (simp add: reg_registerToken_def int_registerToken_def update_creator_info_def
      decode_required_def decode_optional_def try_maxSupply_def checked_add_def
      ex_rtxn_def ex_remote_def ex_registry0_def ex_registry1_def ex_TokenMetadata_def
      ex_CreatorInfo_def zero_TokenMetadata_def zero_CreatorInfo_def Let_def)

lemma ex_registry2_verified:
  "reg_setTokenVerification (ex_rtxn 1 0) 9 True ex_registry1 = Inr ex_registry2"
  by (simp add: reg_setTokenVerification_def onlyOwner_def checked_add_def
      ex_rtxn_def ex_registry0_def ex_registry1_def ex_registry2_def ex_TokenMetadata_def
      ex_CreatorInfo_def Let_def)

lemma ex_registry0_reachable: "registry_reachable ex_registry0"
  by (rule registry_reachable.deployed[OF ex_registry0_constructed])

lemma ex_registry1_reachable: "registry_reachable ex_registry1"
  using registry_reachable.called[OF ex_registry0_reachable,
      of "Tx (ex_rtxn 7 3)
            (RegisterToken 9 ''A token'' ''urbe.example'' ''logo.png'' 0 [''defi'']) []"]
    ex_registry1_registered by simp

lemma ex_registry2_reachable: "registry_reachable ex_registry2"
  using registry_reachable.called[OF ex_registry1_reachable,
      of "Tx (ex_rtxn 1 0) (SetTokenVerification 9 True) []"] ex_registry2_verified
  by (simp add: nonpayable_def ex_rtxn_def)

lemma reg_call_metadata:
  assumes "tm_active (r_tokenMetadata s t)" and "reg_call e c k s = Inr s'"
  shows "r_tokenMetadata s' t = r_tokenMetadata s t
         \<or> (msg_sender e = tm_creator (r_tokenMetadata s t)
            \<and> (\<exists>d w l. c = UpdateTokenMetadata t d w l
                 \<and> r_tokenMetadata s' t =
                     (r_tokenMetadata s t)\<lparr>tm_description := d, tm_website := w, tm_logo := l\<rparr>))
         \<or> (msg_sender e = r_owner s
            \<and> (\<exists>v. c = SetTokenVerification t v
                 \<and> r_tokenMetadata s' t = (r_tokenMetadata s t)\<lparr>tm_verified := v\<rparr>))
         \<or> (msg_sender e = r_owner s
            \<and> (\<exists>amount to. c = RegistryWithdrawFees amount to \<and> s' = k s))"
proof -
  have reg: "r_tokenMetadata s' t = r_tokenMetadata s t"
    if r: "int_registerToken e t2 d w l cat tags cr s = Inr s'" for t2 d w l cat tags cr
    using int_registerToken_effect(3)[OF r] int_registerToken_Inr(3)[OF r] assms(1) by metis
  show ?thesis
  proof (cases c)
    case (RegisterToken t2 d w l cat tags)
    then show ?thesis using assms(2) reg by (simp add: reg_registerToken_def)
  next
    case (RegisterTokenForCreator t2 d w l cat tags cr)
    then show ?thesis using assms(2) reg by (simp add: reg_registerTokenForCreator_def)
  next
    case (UpdateTokenMetadata t2 d w l)
    then have u: "reg_updateTokenMetadata e t2 d w l s = Inr s'"
      using assms(2) by (auto dest: nonpayable_Inr)
    show ?thesis
      using reg_updateTokenMetadata_Inr(1,3)[OF u] UpdateTokenMetadata by (cases "t2 = t") auto
  next
    case (SetTokenVerification t2 v)
    then have u: "reg_setTokenVerification e t2 v s = Inr s'"
      using assms(2) by (auto dest: nonpayable_Inr)
    show ?thesis
      using reg_setTokenVerification_Inr(1,3)[OF u] SetTokenVerification by (cases "t2 = t") auto
  next
    case (RegistryWithdrawFees amount to)
    then have "reg_withdrawFees e amount to k s = Inr s'"
      using assms(2) by (auto dest: nonpayable_Inr)
    then have "msg_sender e = r_owner s \<and> s' = k s"
      by (auto simp: reg_withdrawFees_def onlyOwner_def split: if_splits)
    then show ?thesis using RegistryWithdrawFees by simp
  qed (use reg_call_other(1)[OF assms(2)] in auto)
qed

text \<open>The record of a registered token survives every sequence of transactions none of
  whose calls, at any depth, is an \<open>updateTokenMetadata\<close> for the token sent by its
  creator or a \<open>setTokenVerification\<close> for the token.\<close>

lemma reg_run_metadata:
  assumes a: "tm_active (r_tokenMetadata s t)"
    and q: "\<forall>x\<in>set xs. \<forall>(e, c)\<in>set (tx_calls x).
              (\<forall>d w l. c = UpdateTokenMetadata t d w l
                 \<longrightarrow> msg_sender e \<noteq> tm_creator (r_tokenMetadata s t))
              \<and> (\<forall>v. c \<noteq> SetTokenVerification t v)"
  shows "r_tokenMetadata (reg_run xs s) t = r_tokenMetadata s t"
proof -
  let ?Q = "\<lambda>e c. (\<forall>d w l. c = UpdateTokenMetadata t d w l
                 \<longrightarrow> msg_sender e \<noteq> tm_creator (r_tokenMetadata s t))
              \<and> (\<forall>v. c \<noteq> SetTokenVerification t v)"
  let ?P = "\<lambda>s1. r_tokenMetadata s1 t = r_tokenMetadata s t"
  have frame: "?P s1'" if "?Q e c" "reg_call e c k s1 = Inr s1'" "?P s1" "?P (k s1)"
    for e c k s1 s1'
  proof -
    have "tm_active (r_tokenMetadata s1 t)" using a that(3) by simp
    from reg_call_metadata[OF this that(2)] show ?thesis using that(1,3,4) by auto
  qed
  have "(\<forall>x\<in>set xs. \<forall>(e, c)\<in>set (tx_calls x). ?Q e c) \<longrightarrow> ?P s \<longrightarrow> ?P (reg_run xs s)"
    by (rule reg_preserves_where(2)[of ?Q ?P]) (rule frame)
  then show ?thesis using q by simp
qed

text \<open>
  Claim C4. A call that succeeds on the registry leaves the record of a registered token
  as it was, unless it is \<open>updateTokenMetadata\<close> for that token sent by the token's
  creator, which changes description, website and logo only, or
  \<open>setTokenVerification\<close> for that token sent by the registry owner, which changes the
  verified flag only, or the owner's \<open>withdrawFees\<close>, which changes nothing itself and
  leaves the registry as the calls of the ether's recipient made it; these calls fall
  under the same statement. So the record survives every sequence of transactions in
  which no call, at any depth, is an \<open>updateTokenMetadata\<close> for the token by its
  creator or a \<open>setTokenVerification\<close> for the token. \<open>updateTokenMetadata\<close> from
  anyone but the creator reverts with \<open>OnlyCreator\<close>; \<open>setTokenVerification\<close> from
  anyone but the owner reverts.
\<close>

theorem metadata_changed_by_creator_or_owner_only:
  "(tm_active (r_tokenMetadata s t) \<and> reg_call e c k s = Inr s' \<longrightarrow>
      r_tokenMetadata s' t = r_tokenMetadata s t
      \<or> (msg_sender e = tm_creator (r_tokenMetadata s t)
          \<and> (\<exists>d w l. c = UpdateTokenMetadata t d w l
               \<and> r_tokenMetadata s' t =
                   (r_tokenMetadata s t)\<lparr>tm_description := d, tm_website := w, tm_logo := l\<rparr>))
      \<or> (msg_sender e = r_owner s
          \<and> (\<exists>v. c = SetTokenVerification t v
               \<and> r_tokenMetadata s' t = (r_tokenMetadata s t)\<lparr>tm_verified := v\<rparr>))
      \<or> (msg_sender e = r_owner s
          \<and> (\<exists>amount to. c = RegistryWithdrawFees amount to \<and> s' = k s)))
   \<and> (tm_active (r_tokenMetadata s t)
       \<and> (\<forall>x\<in>set xs. \<forall>(e, c)\<in>set (tx_calls x).
             (\<forall>d w l. c = UpdateTokenMetadata t d w l
                \<longrightarrow> msg_sender e \<noteq> tm_creator (r_tokenMetadata s t))
             \<and> (\<forall>v. c \<noteq> SetTokenVerification t v)) \<longrightarrow>
        r_tokenMetadata (reg_run xs s) t = r_tokenMetadata s t)
   \<and> (msg_sender e \<noteq> tm_creator (r_tokenMetadata s t) \<longrightarrow>
        reg_updateTokenMetadata e t d' w' l' s = Inl OnlyCreator)
   \<and> (msg_sender e \<noteq> r_owner s \<longrightarrow>
        reg_setTokenVerification e t v' s = Inl (OwnableUnauthorizedAccount (msg_sender e)))
   \<and> (tm_active (r_tokenMetadata s t) \<and> msg_sender e = tm_creator (r_tokenMetadata s t) \<longrightarrow>
        (\<exists>s''. reg_updateTokenMetadata e t d' w' l' s = Inr s''
           \<and> r_tokenMetadata s'' t =
               (r_tokenMetadata s t)\<lparr>tm_description := d', tm_website := w', tm_logo := l'\<rparr>))"
proof (intro conjI impI)
  assume "tm_active (r_tokenMetadata s t) \<and> reg_call e c k s = Inr s'"
  then show "r_tokenMetadata s' t = r_tokenMetadata s t
      \<or> (msg_sender e = tm_creator (r_tokenMetadata s t)
          \<and> (\<exists>d w l. c = UpdateTokenMetadata t d w l
               \<and> r_tokenMetadata s' t =
                   (r_tokenMetadata s t)\<lparr>tm_description := d, tm_website := w, tm_logo := l\<rparr>))
      \<or> (msg_sender e = r_owner s
          \<and> (\<exists>v. c = SetTokenVerification t v
               \<and> r_tokenMetadata s' t = (r_tokenMetadata s t)\<lparr>tm_verified := v\<rparr>))
      \<or> (msg_sender e = r_owner s
          \<and> (\<exists>amount to. c = RegistryWithdrawFees amount to \<and> s' = k s))"
    using reg_call_metadata by blast
next
  assume "tm_active (r_tokenMetadata s t)
       \<and> (\<forall>x\<in>set xs. \<forall>(e, c)\<in>set (tx_calls x).
             (\<forall>d w l. c = UpdateTokenMetadata t d w l
                \<longrightarrow> msg_sender e \<noteq> tm_creator (r_tokenMetadata s t))
             \<and> (\<forall>v. c \<noteq> SetTokenVerification t v))"
  then show "r_tokenMetadata (reg_run xs s) t = r_tokenMetadata s t"
    using reg_run_metadata[of s t xs] by blast
next
  assume "msg_sender e \<noteq> tm_creator (r_tokenMetadata s t)"
  then show "reg_updateTokenMetadata e t d' w' l' s = Inl OnlyCreator"
    by (auto simp: reg_updateTokenMetadata_def)
next
  assume "msg_sender e \<noteq> r_owner s"
  then show "reg_setTokenVerification e t v' s = Inl (OwnableUnauthorizedAccount (msg_sender e))"
    by (auto simp: reg_setTokenVerification_def onlyOwner_def)
next
  assume "tm_active (r_tokenMetadata s t) \<and> msg_sender e = tm_creator (r_tokenMetadata s t)"
  then show "\<exists>s''. reg_updateTokenMetadata e t d' w' l' s = Inr s''
           \<and> r_tokenMetadata s'' t =
               (r_tokenMetadata s t)\<lparr>tm_description := d', tm_website := w', tm_logo := l'\<rparr>"
    by (simp add: reg_updateTokenMetadata_def)
qed

text \<open>At the example registry: the owner's verification of token 9 changes the flag and
  nothing else; account 8 is neither the creator nor the owner and is turned away; the
  creator's update goes through; and the record of token 9 survives the owner's
  \<open>withdrawFees\<close> to account 30, which registers token 20 and tries to update token 9
  while it receives the ether.\<close>

theorem metadata_changed_by_creator_or_owner_only_witness:
  "tm_active (r_tokenMetadata ex_registry1 9)
   \<and> reg_call (ex_rtxn 1 0) (SetTokenVerification 9 True) (\<lambda>s. s) ex_registry1
       = Inr ex_registry2
   \<and> r_tokenMetadata ex_registry2 9 = (r_tokenMetadata ex_registry1 9)\<lparr>tm_verified := True\<rparr>
   \<and> r_tokenMetadata
        (reg_run [Tx (ex_rtxn 1 0) (RegistryWithdrawFees 0 30)
                    [Tx (ex_rtxn 30 3) (RegisterToken 20 ''d'' ''w'' ''l'' 4 []) [],
                     Tx (ex_rtxn 30 0) (UpdateTokenMetadata 9 ''x'' ''y'' ''z'') []]]
           ex_registry1) 9
       = r_tokenMetadata ex_registry1 9
   \<and> msg_sender (ex_rtxn 8 0) \<noteq> tm_creator (r_tokenMetadata ex_registry1 9)
   \<and> reg_updateTokenMetadata (ex_rtxn 8 0) 9 ''x'' ''y'' ''z'' ex_registry1 = Inl OnlyCreator
   \<and> msg_sender (ex_rtxn 8 0) \<noteq> r_owner ex_registry1
   \<and> reg_setTokenVerification (ex_rtxn 8 0) 9 True ex_registry1
       = Inl (OwnableUnauthorizedAccount 8)
   \<and> msg_sender (ex_rtxn 7 0) = tm_creator (r_tokenMetadata ex_registry1 9)
   \<and> reg_updateTokenMetadata (ex_rtxn 7 0) 9 ''x'' ''y'' ''z'' ex_registry1
       = Inr (ex_registry1\<lparr>r_tokenMetadata := (r_tokenMetadata ex_registry1)
               (9 := ex_TokenMetadata\<lparr>tm_description := ''x'', tm_website := ''y'',
                                        tm_logo := ''z''\<rparr>)\<rparr>)"
proof -
  have h: "tm_active (r_tokenMetadata ex_registry1 9)"
    "msg_sender (ex_rtxn 8 0) \<noteq> tm_creator (r_tokenMetadata ex_registry1 9)"
    "msg_sender (ex_rtxn 8 0) \<noteq> r_owner ex_registry1"
    "msg_sender (ex_rtxn 8 0) = 8"
    "msg_sender (ex_rtxn 30 0) \<noteq> tm_creator (r_tokenMetadata ex_registry1 9)"
    "msg_sender (ex_rtxn 7 0) = tm_creator (r_tokenMetadata ex_registry1 9)"
    "r_tokenMetadata ex_registry1 9 = ex_TokenMetadata"
    "r_tokenMetadata ex_registry2 9 = (r_tokenMetadata ex_registry1 9)\<lparr>tm_verified := True\<rparr>"
    by (simp_all add: ex_registry1_def ex_registry2_def ex_registry0_def ex_TokenMetadata_def
        ex_rtxn_def)
  have c: "reg_call (ex_rtxn 1 0) (SetTokenVerification 9 True) (\<lambda>s. s) ex_registry1
             = Inr ex_registry2"
    using ex_registry2_verified by (simp add: nonpayable_def ex_rtxn_def)
  have r: "r_tokenMetadata
        (reg_run [Tx (ex_rtxn 1 0) (RegistryWithdrawFees 0 30)
                    [Tx (ex_rtxn 30 3) (RegisterToken 20 ''d'' ''w'' ''l'' 4 []) [],
                     Tx (ex_rtxn 30 0) (UpdateTokenMetadata 9 ''x'' ''y'' ''z'') []]]
           ex_registry1) 9
       = r_tokenMetadata ex_registry1 9"
    using h(1,5)
      metadata_changed_by_creator_or_owner_only[where s = ex_registry1 and t = 9
        and xs = "[Tx (ex_rtxn 1 0) (RegistryWithdrawFees 0 30)
                    [Tx (ex_rtxn 30 3) (RegisterToken 20 ''d'' ''w'' ''l'' 4 []) [],
                     Tx (ex_rtxn 30 0) (UpdateTokenMetadata 9 ''x'' ''y'' ''z'') []]]"]
    by simp
  show ?thesis
    using h c r metadata_changed_by_creator_or_owner_only[where s = ex_registry1 and t = 9
        and e = "ex_rtxn 8 0" and d' = "''x''" and w' = "''y''" and l' = "''z''" and v' = True]
      metadata_changed_by_creator_or_owner_only[where s = ex_registry1 and t = 9
        and e = "ex_rtxn 1 0" and c = "SetTokenVerification 9 True" and s' = ex_registry2
        and k = "\<lambda>s. s"]
      metadata_changed_by_creator_or_owner_only[where s = ex_registry1 and t = 9
        and e = "ex_rtxn 7 0" and d' = "''x''" and w' = "''y''" and l' = "''z''"]
    by (auto simp: reg_updateTokenMetadata_def)
qed

section \<open>The two ledgers\<close>

lemma fac_run_allTokens: "\<exists>ts. f_allTokens (fac_run cs s) = f_allTokens s @ ts"
proof -
  let ?P = "\<lambda>s1. \<exists>ts. f_allTokens s1 = f_allTokens s @ ts"
  have frame: "?P s1'" if "fac_call e c k s1 = Inr s1'" "?P s1" "?P (k s1)" for e c k s1 s1'
    using fac_call_effect[OF that(1)] that(2,3) by auto
  have "?P s \<longrightarrow> ?P (fac_run cs s)" by (rule fac_preserves(2)[of ?P]) (rule frame)
  then show ?thesis by simp
qed

lemma reg_run_allTokens: "\<exists>ts. r_allTokens (reg_run cs s) = r_allTokens s @ ts"
proof -
  let ?P = "\<lambda>s1. \<exists>ts. r_allTokens s1 = r_allTokens s @ ts"
  have frame: "?P s1'" if "reg_call e c k s1 = Inr s1'" "?P s1" "?P (k s1)" for e c k s1 s1'
    using reg_call_ledger[OF that(1)] that(2,3) by auto
  have "?P s \<longrightarrow> ?P (reg_run cs s)" by (rule reg_preserves(2)[of ?P]) (rule frame)
  then show ?thesis by simp
qed

text \<open>
  What holds of the two ledgers. A call other than \<open>withdrawFees\<close> that succeeds leaves
  \<open>allTokens\<close> as it was or appends one element to it; a \<open>withdrawFees\<close> leaves the
  contract as the calls of the ether's recipient made it. After any sequence of
  transactions the earlier array is a prefix of the later one: nothing is removed or
  overwritten. In every reachable state \<open>totalTokensDeployed\<close>, respectively
  \<open>totalTokensRegistered\<close>, is the length of the contract's \<open>allTokens\<close>.
\<close>

lemma ledgers_prefix_and_counters:
  "(fac_call e c fk f = Inr f' \<longrightarrow>
      (\<exists>amount to. c = WithdrawFees amount to \<and> f' = fk f)
      \<or> f_allTokens f' = f_allTokens f \<or> (\<exists>t. f_allTokens f' = f_allTokens f @ [t]))
   \<and> (\<exists>ts. f_allTokens (fac_run fcs f) = f_allTokens f @ ts)
   \<and> (factory_reachable f \<longrightarrow> unat (f_totalTokensDeployed f) = length (f_allTokens f))
   \<and> (reg_call e rc rk r = Inr r' \<longrightarrow>
      (\<exists>amount to. rc = RegistryWithdrawFees amount to \<and> r' = rk r)
      \<or> r_allTokens r' = r_allTokens r \<or> (\<exists>t. r_allTokens r' = r_allTokens r @ [t]))
   \<and> (\<exists>ts. r_allTokens (reg_run rcs r) = r_allTokens r @ ts)
   \<and> (registry_reachable r \<longrightarrow> unat (r_totalTokensRegistered r) = length (r_allTokens r))"
proof (intro conjI impI)
  assume "fac_call e c fk f = Inr f'"
  from fac_call_effect[OF this]
  show "(\<exists>amount to. c = WithdrawFees amount to \<and> f' = fk f)
      \<or> f_allTokens f' = f_allTokens f \<or> (\<exists>t. f_allTokens f' = f_allTokens f @ [t])"
    by auto
next
  show "\<exists>ts. f_allTokens (fac_run fcs f) = f_allTokens f @ ts" by (rule fac_run_allTokens)
next
  assume "factory_reachable f"
  then show "unat (f_totalTokensDeployed f) = length (f_allTokens f)"
    using factory_reachable_inv by (simp add: factory_inv_def)
next
  assume "reg_call e rc rk r = Inr r'"
  from reg_call_ledger[OF this]
  show "(\<exists>amount to. rc = RegistryWithdrawFees amount to \<and> r' = rk r)
      \<or> r_allTokens r' = r_allTokens r \<or> (\<exists>t. r_allTokens r' = r_allTokens r @ [t])"
    by auto
next
  show "\<exists>ts. r_allTokens (reg_run rcs r) = r_allTokens r @ ts" by (rule reg_run_allTokens)
next
  assume "registry_reachable r"
  then show "unat (r_totalTokensRegistered r) = length (r_allTokens r)"
    using registry_reachable_inv by (simp add: registry_inv_def)
qed



lemma setTokenVerification_overwrites:
  "reg_setTokenVerification e t v
     (s\<lparr>r_tokenMetadata := (r_tokenMetadata s)(t := (r_tokenMetadata s t)\<lparr>tm_verified := b\<rparr>)\<rparr>)
   = reg_setTokenVerification e t v s"
  by (simp add: reg_setTokenVerification_def Let_def)

text \<open>
  Claim C10. \<open>setTokenVerification\<close> does not read the token's previous verified flag:
  its outcome is the same whatever the flag was. For a registered token whose creator's
  \<open>verifiedTokens\<close> is zero, \<open>setTokenVerification(token, false)\<close> reverts, from the
  owner with the arithmetic \<open>Panic(0x11)\<close> of \<open>verifiedTokens--\<close> (from anyone else
  at \<open>onlyOwner\<close>), and the registry is unchanged. For a token that is already
  verified, \<open>setTokenVerification(token, true)\<close> from the owner succeeds again and adds
  one more to the creator's \<open>verifiedTokens\<close> (short of the counter being at its
  maximum, where the increment panics).
\<close>

theorem setTokenVerification_ignores_previous_flag:
  "reg_setTokenVerification e t v
     (s\<lparr>r_tokenMetadata := (r_tokenMetadata s)(t := (r_tokenMetadata s t)\<lparr>tm_verified := b\<rparr>)\<rparr>)
     = reg_setTokenVerification e t v s
   \<and> (tm_active (r_tokenMetadata s t)
       \<and> ci_verifiedTokens (r_creatorInfo s (tm_creator (r_tokenMetadata s t))) = 0 \<longrightarrow>
        reg_setTokenVerification e t False s =
          (if msg_sender e = r_owner s then Inl (Panic 17)
           else Inl (OwnableUnauthorizedAccount (msg_sender e)))
        \<and> reg_run [Tx e (SetTokenVerification t False) inner] s = s)
   \<and> (msg_sender e = r_owner s \<and> tm_active (r_tokenMetadata s t)
       \<and> tm_verified (r_tokenMetadata s t)
       \<and> ci_verifiedTokens (r_creatorInfo s (tm_creator (r_tokenMetadata s t))) \<noteq> - 1 \<longrightarrow>
        (\<exists>s'. reg_setTokenVerification e t True s = Inr s'
           \<and> tm_verified (r_tokenMetadata s' t)
           \<and> unat (ci_verifiedTokens (r_creatorInfo s' (tm_creator (r_tokenMetadata s t))))
               = unat (ci_verifiedTokens (r_creatorInfo s (tm_creator (r_tokenMetadata s t)))) + 1))"
proof (intro conjI impI)
  show "reg_setTokenVerification e t v
     (s\<lparr>r_tokenMetadata := (r_tokenMetadata s)(t := (r_tokenMetadata s t)\<lparr>tm_verified := b\<rparr>)\<rparr>)
     = reg_setTokenVerification e t v s"
    by (rule setTokenVerification_overwrites)
next
  assume h: "tm_active (r_tokenMetadata s t)
       \<and> ci_verifiedTokens (r_creatorInfo s (tm_creator (r_tokenMetadata s t))) = 0"
  then show r: "reg_setTokenVerification e t False s =
          (if msg_sender e = r_owner s then Inl (Panic 17)
           else Inl (OwnableUnauthorizedAccount (msg_sender e)))"
    by (simp add: reg_setTokenVerification_def onlyOwner_def checked_sub_def Let_def)
  show "reg_run [Tx e (SetTokenVerification t False) inner] s = s"
    using r by (simp add: nonpayable_def split: if_splits)
next
  assume h: "msg_sender e = r_owner s \<and> tm_active (r_tokenMetadata s t)
       \<and> tm_verified (r_tokenMetadata s t)
       \<and> ci_verifiedTokens (r_creatorInfo s (tm_creator (r_tokenMetadata s t))) \<noteq> - 1"
  let ?n = "ci_verifiedTokens (r_creatorInfo s (tm_creator (r_tokenMetadata s t)))"
  have "unat ?n \<noteq> unat (- 1 :: uint256)" using h word_unat_eq_iff by blast
  moreover have "unat ?n < 2 ^ 256" by (rule unat_lt_2p256)
  ultimately have lt: "unat ?n + unat (1::uint256) < 2 ^ 256"
    by (simp add: unsigned_minus_1_eq_mask mask_eq_exp_minus_1)
  then have ca: "checked_add ?n 1 = Inr (?n + 1)" by (simp add: checked_add_def)
  have u: "unat (?n + 1) = unat ?n + 1" using checked_add_unat[OF ca] by simp
  show "\<exists>s'. reg_setTokenVerification e t True s = Inr s'
           \<and> tm_verified (r_tokenMetadata s' t)
           \<and> unat (ci_verifiedTokens (r_creatorInfo s' (tm_creator (r_tokenMetadata s t))))
               = unat ?n + 1"
    using h ca u by (simp add: reg_setTokenVerification_def onlyOwner_def Let_def)
qed

text \<open>At the example registry: unverifying the never verified token 9 panics; verifying
  the verified token 9 a second time makes its creator's counter 2.\<close>

theorem setTokenVerification_ignores_previous_flag_witness:
  "tm_active (r_tokenMetadata ex_registry1 9)
   \<and> ci_verifiedTokens (r_creatorInfo ex_registry1 (tm_creator (r_tokenMetadata ex_registry1 9))) = 0
   \<and> reg_setTokenVerification (ex_rtxn 1 0) 9 False ex_registry1 = Inl (Panic 17)
   \<and> reg_run [Tx (ex_rtxn 1 0) (SetTokenVerification 9 False) []] ex_registry1 = ex_registry1
   \<and> tm_verified (r_tokenMetadata ex_registry2 9)
   \<and> ci_verifiedTokens (r_creatorInfo ex_registry2 7) = 1
   \<and> reg_setTokenVerification (ex_rtxn 1 0) 9 True ex_registry2
       = Inr (ex_registry2\<lparr>r_creatorInfo := (r_creatorInfo ex_registry2)
               (7 := ex_CreatorInfo\<lparr>ci_verifiedTokens := 2\<rparr>)\<rparr>)"
proof -
  have h: "tm_active (r_tokenMetadata ex_registry1 9)"
    "ci_verifiedTokens (r_creatorInfo ex_registry1 (tm_creator (r_tokenMetadata ex_registry1 9))) = 0"
    "msg_sender (ex_rtxn 1 0) = r_owner ex_registry1"
    "tm_verified (r_tokenMetadata ex_registry2 9)"
    "ci_verifiedTokens (r_creatorInfo ex_registry2 7) = 1"
    by (simp_all add: ex_registry1_def ex_registry2_def ex_registry0_def ex_TokenMetadata_def
        ex_CreatorInfo_def ex_rtxn_def)
  have again: "reg_setTokenVerification (ex_rtxn 1 0) 9 True ex_registry2
       = Inr (ex_registry2\<lparr>r_creatorInfo := (r_creatorInfo ex_registry2)
               (7 := ex_CreatorInfo\<lparr>ci_verifiedTokens := 2\<rparr>)\<rparr>)"
    by (simp add: reg_setTokenVerification_def onlyOwner_def checked_add_def
      ex_rtxn_def ex_registry0_def ex_registry1_def ex_registry2_def ex_TokenMetadata_def
      ex_CreatorInfo_def Let_def)
  show ?thesis
    using h again
      setTokenVerification_ignores_previous_flag[where s = ex_registry1 and t = 9
        and e = "ex_rtxn 1 0" and inner = "[]"]
      setTokenVerification_ignores_previous_flag[where s = ex_registry2 and t = 9
        and e = "ex_rtxn 1 0"]
    by (simp add: nonpayable_def)
qed

lemma checked_sub_unat: "checked_sub a b = Inr c \<Longrightarrow> unat c + unat b = unat a"
  by (auto simp: checked_sub_def unat_sub word_le_nat_alt split: if_splits)

lemma registry_totalVolume_zero:
  "registry_reachable s \<Longrightarrow> ci_totalVolume (r_creatorInfo s a) = 0"
  using registry_reachable_inv by (simp add: registry_inv_def)

lemma update_creator_info_creator:
  assumes "update_creator_info e cr s = Inr s'"
  shows "ci_creator (r_creatorInfo s' cr) = (if ci_creator (r_creatorInfo s cr) = 0 then cr
                                            else ci_creator (r_creatorInfo s cr))"
  using assms
  by (auto simp: update_creator_info_def split: if_splits sum.splits)

lemma int_registerToken_creators:
  assumes r: "int_registerToken e t d w l cat tags cr s = Inr s'" and inv: "creators_inv s"
  shows "creators_inv s'"
proof -
  from int_registerToken_Inr(6)[OF r] obtain nm sy dec ts mx k where
    u: "update_creator_info e cr
                (s\<lparr>r_tokenMetadata := (r_tokenMetadata s)(t :=
                      \<lparr>tm_tokenAddress = t, tm_name = nm, tm_symbol = sy, tm_decimals = dec,
                       tm_totalSupply = ts, tm_maxSupply = mx, tm_creator = cr,
                       tm_registeredAt = block_timestamp e, tm_description = d,
                       tm_website = w, tm_logo = l, tm_verified = False, tm_active = True,
                       tm_category = cat, tm_tags = tags\<rparr>),
                   r_allTokens := r_allTokens s @ [t],
                   r_totalTokensRegistered := k\<rparr>) = Inr s'"
    by blast
  note x = update_creator_info_Inr(1,5)[OF u] update_creator_info_creator[OF u]
  have others: "r_creatorInfo s' c = r_creatorInfo s c" if "c \<noteq> cr" for c
    using x(2)[OF that] by simp
  have own: "cr \<noteq> 0 \<Longrightarrow> ci_creator (r_creatorInfo s' cr) \<noteq> 0"
    using x(3) by (simp split: if_splits)
  have md: "r_tokenMetadata s' t' = (if t' = t then r_tokenMetadata s' t else r_tokenMetadata s t')"
    for t' using x(1) by simp
  have mdt: "tm_creator (r_tokenMetadata s' t) = cr" using x(1) by simp
  show ?thesis
    unfolding creators_inv_def
  proof (intro conjI allI impI)
    fix c assume c: "c \<noteq> 0 \<and> ci_creator (r_creatorInfo s' c) = 0"
    then have "c \<noteq> cr" using own by auto
    then show "ci_totalTokens (r_creatorInfo s' c) = 0"
      and "ci_verifiedTokens (r_creatorInfo s' c) = 0"
      using others c inv by (auto simp: creators_inv_def)
  next
    fix t' assume a: "tm_active (r_tokenMetadata s' t') \<and> tm_creator (r_tokenMetadata s' t') \<noteq> 0"
    show "ci_creator (r_creatorInfo s' (tm_creator (r_tokenMetadata s' t'))) \<noteq> 0"
    proof (cases "t' = t")
      case True
      then show ?thesis using a mdt own by simp
    next
      case False
      then have e: "r_tokenMetadata s' t' = r_tokenMetadata s t'" using md by simp
      then have "ci_creator (r_creatorInfo s (tm_creator (r_tokenMetadata s t'))) \<noteq> 0"
        using a inv by (simp add: creators_inv_def)
      then show ?thesis using e a others own by (cases "tm_creator (r_tokenMetadata s t') = cr") auto
    qed
  qed
qed

lemma reg_call_creators:
  assumes "reg_call e c k s = Inr s'" and "creators_inv s" and "creators_inv (k s)"
  shows "creators_inv s'"
proof (cases c)
  case (RegistryWithdrawFees amount to)
  then show ?thesis using reg_call_withdrawFees assms by blast
next
  case (RegisterToken t d w l cat tags)
  then show ?thesis using assms int_registerToken_creators by (simp add: reg_registerToken_def)
next
  case (RegisterTokenForCreator t d w l cat tags cr)
  then show ?thesis using assms int_registerToken_creators
    by (simp add: reg_registerTokenForCreator_def)
next
  case (UpdateTokenMetadata t d w l)
  then have "reg_updateTokenMetadata e t d w l s = Inr s'"
    using assms(1) by (auto dest: nonpayable_Inr)
  from reg_updateTokenMetadata_Inr(3)[OF this] show ?thesis
    using assms(2) by (auto simp: creators_inv_def)
next
  case (SetTokenVerification t v)
  then have "reg_setTokenVerification e t v s = Inr s'"
    using assms(1) by (auto dest: nonpayable_Inr)
  note x = reg_setTokenVerification_Inr(2,3,6)[OF this]
  let ?cr = "tm_creator (r_tokenMetadata s t)"
  from x(3) obtain k where
    ci: "r_creatorInfo s' = (r_creatorInfo s)(?cr := (r_creatorInfo s ?cr)\<lparr>ci_verifiedTokens := k\<rparr>)"
    by blast
  have a: "ci_creator (r_creatorInfo s' c) = ci_creator (r_creatorInfo s c)
           \<and> ci_totalTokens (r_creatorInfo s' c) = ci_totalTokens (r_creatorInfo s c)" for c
    using ci by simp
  have b: "c \<noteq> ?cr \<Longrightarrow> ci_verifiedTokens (r_creatorInfo s' c) = ci_verifiedTokens (r_creatorInfo s c)"
    for c using ci by simp
  have m: "tm_active (r_tokenMetadata s' t') = tm_active (r_tokenMetadata s t')
           \<and> tm_creator (r_tokenMetadata s' t') = tm_creator (r_tokenMetadata s t')" for t'
    using x(2) by simp
  have crz: "?cr \<noteq> 0 \<Longrightarrow> ci_creator (r_creatorInfo s ?cr) \<noteq> 0"
    using x(1) assms(2) by (simp add: creators_inv_def)
  show ?thesis
    unfolding creators_inv_def
  proof (intro conjI allI impI)
    fix c assume c: "c \<noteq> 0 \<and> ci_creator (r_creatorInfo s' c) = 0"
    then have z: "ci_creator (r_creatorInfo s c) = 0" using a by simp
    then have "c \<noteq> ?cr" using c crz by auto
    then show "ci_totalTokens (r_creatorInfo s' c) = 0"
      and "ci_verifiedTokens (r_creatorInfo s' c) = 0"
      using a b c z assms(2) by (auto simp: creators_inv_def)
  next
    fix t' assume "tm_active (r_tokenMetadata s' t') \<and> tm_creator (r_tokenMetadata s' t') \<noteq> 0"
    then show "ci_creator (r_creatorInfo s' (tm_creator (r_tokenMetadata s' t'))) \<noteq> 0"
      using a m assms(2) by (simp add: creators_inv_def)
  qed
next
  case (RegisterCreator n d)
  then show ?thesis using assms
    by (auto simp: reg_registerCreator_def Let_def creators_inv_def dest!: nonpayable_Inr
        split: if_splits sum.splits)
next
  case (UpdateCreatorInfo n d)
  then show ?thesis using assms
    by (auto simp: reg_updateCreatorInfo_def creators_inv_def dest!: nonpayable_Inr
        split: if_splits)
next
  case (SetCreatorVerification a v)
  then show ?thesis using assms
    by (auto simp: reg_setCreatorVerification_def creators_inv_def
        dest!: nonpayable_Inr guarded_Inr split: if_splits)
next
  case (CreateCategory n d)
  then show ?thesis using assms
    by (auto simp: reg_createCategory_def int_createCategory_def Let_def creators_inv_def
        dest!: nonpayable_Inr guarded_Inr split: if_splits sum.splits)
next
  case (UpdateCategory i n d a)
  then show ?thesis using assms
    by (auto simp: reg_updateCategory_def creators_inv_def dest!: nonpayable_Inr guarded_Inr
        split: if_splits)
qed (use assms in \<open>auto simp: reg_setRegistrationFee_def reg_setRegistryPaused_def
      reg_setVerificationRequirements_def reg_withdrawFees_def reg_transferOwnership_def
      reg_renounceOwnership_def reg_receive_def creators_inv_def
      dest!: nonpayable_Inr guarded_Inr split: if_splits\<close>)

lemma reg_constructor_creators:
  assumes "reg_constructor ow fee fac mt mv = Inr s"
  shows "creators_inv s"
proof -
  let ?s0 = "\<lparr>r_owner = ow, r_tokenMetadata = (\<lambda>_. zero_TokenMetadata),
                  r_creatorInfo = (\<lambda>_. zero_CreatorInfo),
                  r_categories = (\<lambda>_. zero_CategoryInfo), r_allTokens = [],
                  r_allCreators = [], r_totalTokensRegistered = 0, r_totalCreators = 0,
                  r_totalCategories = 0, r_registrationFee = fee,
                  r_registryPaused = False, r_tokenFactory = fac,
                  r_minTokensForVerification = mt,
                  r_minVolumeForVerification = mv\<rparr>"
  from assms obtain s1 s2 s3 s4 where
    "int_createCategory ''DeFi'' ''Decentralized Finance tokens'' ?s0 = Inr s1"
    "int_createCategory ''Gaming'' ''Gaming and NFT tokens'' s1 = Inr s2"
    "int_createCategory ''Infrastructure'' ''Infrastructure and utility tokens'' s2 = Inr s3"
    "int_createCategory ''Social'' ''Social and community tokens'' s3 = Inr s4"
    "int_createCategory ''Other'' ''Other miscellaneous tokens'' s4 = Inr s"
    by (auto simp: reg_constructor_def Let_def split: if_splits sum.splits)
  then have "r_tokenMetadata s = r_tokenMetadata ?s0" "r_creatorInfo s = r_creatorInfo ?s0"
    using int_createCategory_Inr by metis+
  then show ?thesis
    by (simp add: creators_inv_def zero_TokenMetadata_def zero_CreatorInfo_def)
qed

lemma reg_tx_creators: "reg_tx x s = Inr s' \<Longrightarrow> creators_inv s \<Longrightarrow> creators_inv s'"
  using reg_preserves(1)[of creators_inv x s] reg_call_creators by blast

lemma registry_reachable_creators: "registry_reachable s \<Longrightarrow> creators_inv s"
  by (induction rule: registry_reachable.induct)
    (auto intro: reg_constructor_creators reg_tx_creators)

lemma checked_sub_one: "a \<noteq> 0 \<Longrightarrow> checked_sub a 1 = Inr (a - 1)"
  by (simp add: checked_sub_def word_le_nat_alt unat_eq_zero Suc_le_eq unat_gt_0)

lemma ex_registry1_unverified:
  "reg_setTokenVerification (ex_rtxn 1 0) 9 False ex_registry2 = Inr ex_registry1"
  by (simp add: reg_setTokenVerification_def onlyOwner_def checked_sub_def
      ex_rtxn_def ex_registry0_def ex_registry1_def ex_registry2_def ex_TokenMetadata_def
      ex_CreatorInfo_def Let_def)

lemma ex_registry4_registered:
  "int_registerToken ((ex_rtxn 7 3)\<lparr>block_timestamp := 2000\<rparr>) 20 ''d'' ''w'' ''l'' 4 [] 7
     ex_registry2 = Inr ex_registry4"
  by (simp add: int_registerToken_def update_creator_info_def
      decode_required_def decode_optional_def try_maxSupply_def checked_add_def
      ex_rtxn_def ex_remote_def ex_registry0_def ex_registry1_def ex_registry2_def
      ex_registry4_def ex_TokenMetadata_def ex_CreatorInfo_def zero_TokenMetadata_def
      zero_CreatorInfo_def Let_def)


text \<open>
  Claim C2, as the code has it. In a reachable state, a registration for a creator other
  than the zero address adds one to the creator's \<open>totalTokens\<close> (from zero, for a
  creator who had no record), sets the creator's \<open>lastActivity\<close> to the block time and
  leaves \<open>verifiedTokens\<close> and \<open>totalVolume\<close> as they were; no other creator's
  record changes. \<open>setTokenVerification\<close> by the owner for a registered token
  succeeds and adds one to \<open>verifiedTokens\<close> of the token's creator when it verifies
  (unless the counter is at \<open>2^256 - 1\<close>), succeeds and takes one from it when it
  unverifies (unless the counter is at zero), and changes nothing else in the creators'
  records. \<open>totalVolume\<close> is never updated: it is zero for every creator in every
  reachable state.
\<close>

theorem creator_counters_incremental:
  "(registry_reachable s \<and> creator \<noteq> 0
      \<and> int_registerToken e t d w l cat tags creator s = Inr s' \<longrightarrow>
      unat (ci_totalTokens (r_creatorInfo s' creator))
        = unat (ci_totalTokens (r_creatorInfo s creator)) + 1
      \<and> ci_lastActivity (r_creatorInfo s' creator) = block_timestamp e
      \<and> ci_verifiedTokens (r_creatorInfo s' creator)
          = ci_verifiedTokens (r_creatorInfo s creator)
      \<and> ci_totalVolume (r_creatorInfo s' creator) = ci_totalVolume (r_creatorInfo s creator)
      \<and> (\<forall>a. a \<noteq> creator \<longrightarrow> r_creatorInfo s' a = r_creatorInfo s a))
   \<and> (reg_setTokenVerification e2 t2 v s2 = Inr s2' \<longrightarrow>
        (\<exists>k. r_creatorInfo s2' = (r_creatorInfo s2)(tm_creator (r_tokenMetadata s2 t2) :=
                 (r_creatorInfo s2 (tm_creator (r_tokenMetadata s2 t2)))\<lparr>ci_verifiedTokens := k\<rparr>)
            \<and> (if v
                then unat k = unat (ci_verifiedTokens
                                (r_creatorInfo s2 (tm_creator (r_tokenMetadata s2 t2)))) + 1
                else unat k + 1 = unat (ci_verifiedTokens
                                (r_creatorInfo s2 (tm_creator (r_tokenMetadata s2 t2)))))))
   \<and> (msg_sender e4 = r_owner s4 \<and> tm_active (r_tokenMetadata s4 t4)
       \<and> ci_verifiedTokens (r_creatorInfo s4 (tm_creator (r_tokenMetadata s4 t4))) \<noteq> - 1 \<longrightarrow>
        reg_setTokenVerification e4 t4 True s4 =
          Inr (s4\<lparr>r_tokenMetadata := (r_tokenMetadata s4)(t4 :=
                     (r_tokenMetadata s4 t4)\<lparr>tm_verified := True\<rparr>),
                  r_creatorInfo := (r_creatorInfo s4)(tm_creator (r_tokenMetadata s4 t4) :=
                     (r_creatorInfo s4 (tm_creator (r_tokenMetadata s4 t4)))
                       \<lparr>ci_verifiedTokens :=
                          ci_verifiedTokens
                            (r_creatorInfo s4 (tm_creator (r_tokenMetadata s4 t4))) + 1\<rparr>)\<rparr>))
   \<and> (msg_sender e4 = r_owner s4 \<and> tm_active (r_tokenMetadata s4 t4)
       \<and> ci_verifiedTokens (r_creatorInfo s4 (tm_creator (r_tokenMetadata s4 t4))) \<noteq> 0 \<longrightarrow>
        reg_setTokenVerification e4 t4 False s4 =
          Inr (s4\<lparr>r_tokenMetadata := (r_tokenMetadata s4)(t4 :=
                     (r_tokenMetadata s4 t4)\<lparr>tm_verified := False\<rparr>),
                  r_creatorInfo := (r_creatorInfo s4)(tm_creator (r_tokenMetadata s4 t4) :=
                     (r_creatorInfo s4 (tm_creator (r_tokenMetadata s4 t4)))
                       \<lparr>ci_verifiedTokens :=
                          ci_verifiedTokens
                            (r_creatorInfo s4 (tm_creator (r_tokenMetadata s4 t4))) - 1\<rparr>)\<rparr>))
   \<and> (registry_reachable s3 \<longrightarrow> ci_totalVolume (r_creatorInfo s3 a3) = 0)"
proof (intro conjI impI)
  assume h: "registry_reachable s \<and> creator \<noteq> 0
      \<and> int_registerToken e t d w l cat tags creator s = Inr s'"
  then have r: "int_registerToken e t d w l cat tags creator s = Inr s'" by simp
  from int_registerToken_Inr(6)[OF r] obtain nm sy dec ts mx k where
    u: "update_creator_info e creator
                (s\<lparr>r_tokenMetadata := (r_tokenMetadata s)(t :=
                      \<lparr>tm_tokenAddress = t, tm_name = nm, tm_symbol = sy, tm_decimals = dec,
                       tm_totalSupply = ts, tm_maxSupply = mx, tm_creator = creator,
                       tm_registeredAt = block_timestamp e, tm_description = d,
                       tm_website = w, tm_logo = l, tm_verified = False, tm_active = True,
                       tm_category = cat, tm_tags = tags\<rparr>),
                   r_allTokens := r_allTokens s @ [t],
                   r_totalTokensRegistered := k\<rparr>) = Inr s'"
    by blast
  note x = update_creator_info_Inr[OF u]
  have fresh: "ci_creator (r_creatorInfo s creator) = 0 \<Longrightarrow>
      ci_totalTokens (r_creatorInfo s creator) = 0
      \<and> ci_verifiedTokens (r_creatorInfo s creator) = 0
      \<and> ci_totalVolume (r_creatorInfo s creator) = 0"
    using h registry_reachable_creators[of s] registry_totalVolume_zero[of s creator]
    by (simp add: creators_inv_def)
  show "ci_lastActivity (r_creatorInfo s' creator) = block_timestamp e" by (rule x(6))
  show "unat (ci_totalTokens (r_creatorInfo s' creator))
        = unat (ci_totalTokens (r_creatorInfo s creator)) + 1"
    using x(7,8) fresh by (cases "ci_creator (r_creatorInfo s creator) = 0") simp_all
  show "ci_verifiedTokens (r_creatorInfo s' creator) = ci_verifiedTokens (r_creatorInfo s creator)"
    using x(7,8) fresh by (cases "ci_creator (r_creatorInfo s creator) = 0") simp_all
  show "ci_totalVolume (r_creatorInfo s' creator) = ci_totalVolume (r_creatorInfo s creator)"
    using x(7,8) fresh by (cases "ci_creator (r_creatorInfo s creator) = 0") simp_all
  show "\<forall>a. a \<noteq> creator \<longrightarrow> r_creatorInfo s' a = r_creatorInfo s a"
    using x(5) by simp
next
  assume r: "reg_setTokenVerification e2 t2 v s2 = Inr s2'"
  let ?old = "ci_verifiedTokens (r_creatorInfo s2 (tm_creator (r_tokenMetadata s2 t2)))"
  from reg_setTokenVerification_Inr(6)[OF r] obtain k where
    k: "(if v then checked_add ?old 1 else checked_sub ?old 1) = Inr k"
    and c: "r_creatorInfo s2' = (r_creatorInfo s2)(tm_creator (r_tokenMetadata s2 t2) :=
                 (r_creatorInfo s2 (tm_creator (r_tokenMetadata s2 t2)))\<lparr>ci_verifiedTokens := k\<rparr>)"
    by blast
  have "if v then unat k = unat ?old + 1 else unat k + 1 = unat ?old"
    using k checked_add_unat[of ?old 1 k] checked_sub_unat[of ?old 1 k]
    by (simp split: if_splits)
  then show "\<exists>k. r_creatorInfo s2' = (r_creatorInfo s2)(tm_creator (r_tokenMetadata s2 t2) :=
                 (r_creatorInfo s2 (tm_creator (r_tokenMetadata s2 t2)))\<lparr>ci_verifiedTokens := k\<rparr>)
            \<and> (if v then unat k = unat ?old + 1 else unat k + 1 = unat ?old)"
    using c by blast
next
  assume h: "msg_sender e4 = r_owner s4 \<and> tm_active (r_tokenMetadata s4 t4)
       \<and> ci_verifiedTokens (r_creatorInfo s4 (tm_creator (r_tokenMetadata s4 t4))) \<noteq> - 1"
  then show "reg_setTokenVerification e4 t4 True s4 =
          Inr (s4\<lparr>r_tokenMetadata := (r_tokenMetadata s4)(t4 :=
                     (r_tokenMetadata s4 t4)\<lparr>tm_verified := True\<rparr>),
                  r_creatorInfo := (r_creatorInfo s4)(tm_creator (r_tokenMetadata s4 t4) :=
                     (r_creatorInfo s4 (tm_creator (r_tokenMetadata s4 t4)))
                       \<lparr>ci_verifiedTokens :=
                          ci_verifiedTokens
                            (r_creatorInfo s4 (tm_creator (r_tokenMetadata s4 t4))) + 1\<rparr>)\<rparr>)"
    by (simp add: reg_setTokenVerification_def onlyOwner_def Let_def checked_add_one)
next
  assume h: "msg_sender e4 = r_owner s4 \<and> tm_active (r_tokenMetadata s4 t4)
       \<and> ci_verifiedTokens (r_creatorInfo s4 (tm_creator (r_tokenMetadata s4 t4))) \<noteq> 0"
  then show "reg_setTokenVerification e4 t4 False s4 =
          Inr (s4\<lparr>r_tokenMetadata := (r_tokenMetadata s4)(t4 :=
                     (r_tokenMetadata s4 t4)\<lparr>tm_verified := False\<rparr>),
                  r_creatorInfo := (r_creatorInfo s4)(tm_creator (r_tokenMetadata s4 t4) :=
                     (r_creatorInfo s4 (tm_creator (r_tokenMetadata s4 t4)))
                       \<lparr>ci_verifiedTokens :=
                          ci_verifiedTokens
                            (r_creatorInfo s4 (tm_creator (r_tokenMetadata s4 t4))) - 1\<rparr>)\<rparr>)"
    by (simp add: reg_setTokenVerification_def onlyOwner_def Let_def checked_sub_one)
next
  assume "registry_reachable s3"
  then show "ci_totalVolume (r_creatorInfo s3 a3) = 0" by (rule registry_totalVolume_zero)
qed

text \<open>At the example registry: the first registration of account 7 takes its token count
  from 0 to 1 and its second, at block time 2000, from 1 to 2, with the last activity
  moved from 1000 to 2000 and the verified count left at 1; the verification of token 9
  takes the verified count of account 7 from 0 to 1, and its unverification takes it
  back from 1 to 0.\<close>

theorem creator_counters_incremental_witness:
  "registry_reachable ex_registry0 \<and> (7::address) \<noteq> 0
   \<and> int_registerToken (ex_rtxn 7 3) 9 ''A token'' ''urbe.example'' ''logo.png'' 0 [''defi''] 7
     ex_registry0 = Inr ex_registry1
   \<and> ci_totalTokens (r_creatorInfo ex_registry0 7) = 0
   \<and> ci_totalTokens (r_creatorInfo ex_registry1 7) = 1
   \<and> ci_lastActivity (r_creatorInfo ex_registry1 7) = block_timestamp (ex_rtxn 7 3)
   \<and> registry_reachable ex_registry2
   \<and> int_registerToken ((ex_rtxn 7 3)\<lparr>block_timestamp := 2000\<rparr>) 20 ''d'' ''w'' ''l'' 4 [] 7
     ex_registry2 = Inr ex_registry4
   \<and> ci_totalTokens (r_creatorInfo ex_registry2 7) = 1
   \<and> unat (ci_totalTokens (r_creatorInfo ex_registry4 7)) = 2
   \<and> ci_lastActivity (r_creatorInfo ex_registry2 7) = 1000
   \<and> ci_lastActivity (r_creatorInfo ex_registry4 7) = 2000
   \<and> ci_verifiedTokens (r_creatorInfo ex_registry4 7) = 1
   \<and> msg_sender (ex_rtxn 1 0) = r_owner ex_registry1
   \<and> tm_active (r_tokenMetadata ex_registry1 9)
   \<and> reg_setTokenVerification (ex_rtxn 1 0) 9 True ex_registry1 = Inr ex_registry2
   \<and> ci_verifiedTokens (r_creatorInfo ex_registry1 7) = 0
   \<and> ci_verifiedTokens (r_creatorInfo ex_registry2 7) = 1
   \<and> msg_sender (ex_rtxn 1 0) = r_owner ex_registry2
   \<and> tm_active (r_tokenMetadata ex_registry2 9)
   \<and> reg_setTokenVerification (ex_rtxn 1 0) 9 False ex_registry2 = Inr ex_registry1
   \<and> ci_totalVolume (r_creatorInfo ex_registry2 7) = 0"
proof -
  have r: "int_registerToken (ex_rtxn 7 3) 9 ''A token'' ''urbe.example'' ''logo.png'' 0
             [''defi''] 7 ex_registry0 = Inr ex_registry1"
    using ex_registry1_registered by (simp add: reg_registerToken_def ex_rtxn_def)
  have h: "ci_totalTokens (r_creatorInfo ex_registry0 7) = 0"
    "ci_totalTokens (r_creatorInfo ex_registry1 7) = 1"
    "ci_totalTokens (r_creatorInfo ex_registry2 7) = 1"
    "ci_lastActivity (r_creatorInfo ex_registry2 7) = 1000"
    "ci_verifiedTokens (r_creatorInfo ex_registry1 7) = 0"
    "ci_verifiedTokens (r_creatorInfo ex_registry2 7) = 1"
    "msg_sender (ex_rtxn 1 0) = r_owner ex_registry1"
    "msg_sender (ex_rtxn 1 0) = r_owner ex_registry2"
    "tm_active (r_tokenMetadata ex_registry1 9)"
    "tm_active (r_tokenMetadata ex_registry2 9)"
    "tm_creator (r_tokenMetadata ex_registry1 9) = 7"
    "tm_creator (r_tokenMetadata ex_registry2 9) = 7"
    "block_timestamp ((ex_rtxn 7 3)\<lparr>block_timestamp := 2000\<rparr>) = 2000"
    by (simp_all add: ex_registry0_def ex_registry1_def ex_registry2_def ex_CreatorInfo_def
        ex_TokenMetadata_def zero_CreatorInfo_def ex_rtxn_def)
  have m1: "(0::uint256) \<noteq> - 1" "(1::uint256) \<noteq> 0" by simp_all
  note first = creator_counters_incremental[where s = ex_registry0 and s' = ex_registry1
        and e = "ex_rtxn 7 3" and t = 9 and d = "''A token''" and w = "''urbe.example''"
        and l = "''logo.png''" and cat = 0 and tags = "[''defi'']" and creator = 7
        and ?s2.0 = ex_registry1 and ?s2' = ex_registry2 and ?e2.0 = "ex_rtxn 1 0"
        and ?t2.0 = 9 and v = True and ?s3.0 = ex_registry2 and ?a3.0 = 7
        and ?s4.0 = ex_registry1 and ?e4.0 = "ex_rtxn 1 0" and ?t4.0 = 9]
  note second = creator_counters_incremental[where s = ex_registry2 and s' = ex_registry4
        and e = "(ex_rtxn 7 3)\<lparr>block_timestamp := 2000\<rparr>" and t = 20 and d = "''d''"
        and w = "''w''" and l = "''l''" and cat = 4 and tags = "[]" and creator = 7
        and ?s2.0 = ex_registry2 and ?s2' = ex_registry1 and ?e2.0 = "ex_rtxn 1 0"
        and ?t2.0 = 9 and v = False and ?s3.0 = ex_registry2 and ?a3.0 = 7
        and ?s4.0 = ex_registry2 and ?e4.0 = "ex_rtxn 1 0" and ?t4.0 = 9]
  have v: "reg_setTokenVerification (ex_rtxn 1 0) 9 True ex_registry1 = Inr ex_registry2"
    using first h m1 ex_registry2_verified by simp
  have u: "reg_setTokenVerification (ex_rtxn 1 0) 9 False ex_registry2 = Inr ex_registry1"
    using second h m1 ex_registry1_unverified by simp
  have t2: "unat (ci_totalTokens (r_creatorInfo ex_registry4 7)) = 2"
    "ci_lastActivity (r_creatorInfo ex_registry4 7) = 2000"
    "ci_verifiedTokens (r_creatorInfo ex_registry4 7) = 1"
    using second h ex_registry4_registered ex_registry2_reachable by simp_all
  show ?thesis
    using r h v u t2 ex_registry4_registered ex_registry0_reachable ex_registry2_reachable
      first
    by simp
qed

text \<open>\<open>totalVolume\<close> is not updated: the registration of token 9 and its verification
  both leave the volume of its creator, account 7, where it was.\<close>

theorem totalVolume_counterexample:
  "reg_registerToken (ex_rtxn 7 3) 9 ''A token'' ''urbe.example'' ''logo.png'' 0 [''defi'']
     ex_registry0 = Inr ex_registry1
   \<and> ci_totalVolume (r_creatorInfo ex_registry1 7) = ci_totalVolume (r_creatorInfo ex_registry0 7)
   \<and> reg_setTokenVerification (ex_rtxn 1 0) 9 True ex_registry1 = Inr ex_registry2
   \<and> ci_totalVolume (r_creatorInfo ex_registry2 7) = ci_totalVolume (r_creatorInfo ex_registry1 7)"
  using ex_registry1_registered ex_registry2_verified
  by (simp add: ex_registry0_def ex_registry1_def ex_registry2_def ex_CreatorInfo_def
      zero_CreatorInfo_def)

section \<open>Fees\<close>













section \<open>Registration of tokens that do not come from the factory\<close>

lemma int_registerToken_tokenFactory:
  "int_registerToken e t d w l cat tags cr (s\<lparr>r_tokenFactory := x\<rparr>)
     = (case int_registerToken e t d w l cat tags cr s of Inl err \<Rightarrow> Inl err
        | Inr s' \<Rightarrow> Inr (s'\<lparr>r_tokenFactory := x\<rparr>))"
proof -
  have u: "update_creator_info e cr
             ((s\<lparr>r_tokenFactory := x\<rparr>)\<lparr>r_tokenMetadata := md, r_allTokens := ts,
                                        r_totalTokensRegistered := k\<rparr>)
     = (case update_creator_info e cr
               (s\<lparr>r_tokenMetadata := md, r_allTokens := ts, r_totalTokensRegistered := k\<rparr>)
        of Inl err \<Rightarrow> Inl err | Inr s' \<Rightarrow> Inr (s'\<lparr>r_tokenFactory := x\<rparr>))" for md ts k
    by (simp add: update_creator_info_def split: sum.splits)
  show ?thesis
    unfolding int_registerToken_def Let_def
    by (simp add: u split: sum.splits)
qed

lemma update_creator_info_succeeds:
  assumes "r_totalCreators s \<noteq> - 1" and "ci_totalTokens (r_creatorInfo s cr) \<noteq> - 1"
  shows "\<exists>s'. update_creator_info e cr s = Inr s'"
  using assms by (simp add: update_creator_info_def checked_add_one)

lemma decode_optional_succeeds: "r \<noteq> ReturnedGarbage \<Longrightarrow> \<exists>v. decode_optional dflt r = Inr v"
  by (cases r) (simp_all add: decode_optional_def)

lemma try_maxSupply_succeeds:
  "r \<noteq> ReturnedGarbage \<Longrightarrow> r \<noteq> ReturnedNothing \<Longrightarrow> \<exists>v. try_maxSupply r = Inr v"
  by (cases r) (simp_all add: try_maxSupply_def)

lemma int_registerToken_succeeds:
  assumes "\<not> r_registryPaused s" and "t \<noteq> 0" and "\<not> tm_active (r_tokenMetadata s t)"
    and "cat < r_totalCategories s" and "r_registrationFee s \<le> msg_value e"
    and "name_reply (remote e t) = Returned nm" and "nm \<noteq> []"
    and "symbol_reply (remote e t) = Returned sy" and "sy \<noteq> []"
    and "decimals_reply (remote e t) \<noteq> ReturnedGarbage"
    and "totalSupply_reply (remote e t) \<noteq> ReturnedGarbage"
    and "maxSupply_reply (remote e t) \<noteq> ReturnedGarbage"
    and "maxSupply_reply (remote e t) \<noteq> ReturnedNothing"
    and "r_totalTokensRegistered s \<noteq> - 1" and "r_totalCreators s \<noteq> - 1"
    and "ci_totalTokens (r_creatorInfo s cr) \<noteq> - 1"
  shows "\<exists>s'. int_registerToken e t d w l cat tags cr s = Inr s'"
proof -
  obtain dec where dec: "decode_optional 18 (decimals_reply (remote e t)) = Inr dec"
    using decode_optional_succeeds[OF assms(10)] by blast
  obtain ts where ts: "decode_optional 0 (totalSupply_reply (remote e t)) = Inr ts"
    using decode_optional_succeeds[OF assms(11)] by blast
  obtain mx where mx: "try_maxSupply (maxSupply_reply (remote e t)) = Inr mx"
    using try_maxSupply_succeeds[OF assms(12,13)] by blast
  let ?s1 = "s\<lparr>r_tokenMetadata := (r_tokenMetadata s)(t :=
                      \<lparr>tm_tokenAddress = t, tm_name = nm, tm_symbol = sy, tm_decimals = dec,
                       tm_totalSupply = ts, tm_maxSupply = mx, tm_creator = cr,
                       tm_registeredAt = block_timestamp e, tm_description = d,
                       tm_website = w, tm_logo = l, tm_verified = False, tm_active = True,
                       tm_category = cat, tm_tags = tags\<rparr>),
                   r_allTokens := r_allTokens s @ [t],
                   r_totalTokensRegistered := r_totalTokensRegistered s + 1\<rparr>"
  have "\<exists>s'. update_creator_info e cr ?s1 = Inr s'"
    using assms(15,16) by (intro update_creator_info_succeeds) simp_all
  then obtain s' where u: "update_creator_info e cr ?s1 = Inr s'" by blast
  have nc: "\<not> r_totalCategories s \<le> cat" using assms(4) by simp
  have nf: "\<not> msg_value e < r_registrationFee s" using assms(5) by simp
  have "int_registerToken e t d w l cat tags cr s = Inr s'"
    using assms(1-3,6-9) nc nf dec ts mx checked_add_one[OF assms(14)] u
    by (simp add: int_registerToken_def decode_required_def Let_def)
  then show ?thesis by blast
qed

text \<open>
  Claim C8. The registry does not ask whether a token comes from the factory: the
  outcome of a registration is the same whatever \<open>tokenFactory\<close> the registry holds.
  A token the factory never deployed is registered when the registry is not paused, the
  address is not zero and not yet registered, the category is valid, the fee is paid
  and the token answers \<open>name()\<close> and \<open>symbol()\<close> with non-empty strings, for a
  token whose answers to \<open>decimals()\<close>, \<open>totalSupply()\<close> and \<open>maxSupply()\<close> are
  values or reverts (plain absence of \<open>decimals()\<close> and \<open>totalSupply()\<close> data
  included) and while no counter involved is at \<open>2^256 - 1\<close>.
\<close>

theorem registry_accepts_any_token:
  "(t \<notin> set (f_allTokens f) \<and> \<not> r_registryPaused r \<and> t \<noteq> 0
      \<and> \<not> tm_active (r_tokenMetadata r t) \<and> cat < r_totalCategories r
      \<and> r_registrationFee r \<le> msg_value e
      \<and> name_reply (remote e t) = Returned nm \<and> nm \<noteq> []
      \<and> symbol_reply (remote e t) = Returned sy \<and> sy \<noteq> []
      \<and> decimals_reply (remote e t) \<noteq> ReturnedGarbage
      \<and> totalSupply_reply (remote e t) \<noteq> ReturnedGarbage
      \<and> maxSupply_reply (remote e t) \<noteq> ReturnedGarbage
      \<and> maxSupply_reply (remote e t) \<noteq> ReturnedNothing
      \<and> r_totalTokensRegistered r \<noteq> - 1 \<and> r_totalCreators r \<noteq> - 1
      \<and> ci_totalTokens (r_creatorInfo r (msg_sender e)) \<noteq> - 1
    \<longrightarrow> (\<exists>r'. reg_registerToken e t d w l cat tags r = Inr r'
            \<and> reg_isTokenRegistered t r'
            \<and> r_allTokens r' = r_allTokens r @ [t]
            \<and> tm_creator (r_tokenMetadata r' t) = msg_sender e))
   \<and> reg_registerToken e t d w l cat tags (r\<lparr>r_tokenFactory := x\<rparr>)
       = (case reg_registerToken e t d w l cat tags r of
            Inl err \<Rightarrow> Inl err
          | Inr r' \<Rightarrow> Inr (r'\<lparr>r_tokenFactory := x\<rparr>))"
proof (intro conjI impI)
  assume h: "t \<notin> set (f_allTokens f) \<and> \<not> r_registryPaused r \<and> t \<noteq> 0
      \<and> \<not> tm_active (r_tokenMetadata r t) \<and> cat < r_totalCategories r
      \<and> r_registrationFee r \<le> msg_value e
      \<and> name_reply (remote e t) = Returned nm \<and> nm \<noteq> []
      \<and> symbol_reply (remote e t) = Returned sy \<and> sy \<noteq> []
      \<and> decimals_reply (remote e t) \<noteq> ReturnedGarbage
      \<and> totalSupply_reply (remote e t) \<noteq> ReturnedGarbage
      \<and> maxSupply_reply (remote e t) \<noteq> ReturnedGarbage
      \<and> maxSupply_reply (remote e t) \<noteq> ReturnedNothing
      \<and> r_totalTokensRegistered r \<noteq> - 1 \<and> r_totalCreators r \<noteq> - 1
      \<and> ci_totalTokens (r_creatorInfo r (msg_sender e)) \<noteq> - 1"
  then obtain r' where
    r: "int_registerToken e t d w l cat tags (msg_sender e) r = Inr r'"
    using int_registerToken_succeeds[of r t cat e nm sy "msg_sender e" d w l tags] by blast
  show "\<exists>r'. reg_registerToken e t d w l cat tags r = Inr r'
            \<and> reg_isTokenRegistered t r'
            \<and> r_allTokens r' = r_allTokens r @ [t]
            \<and> tm_creator (r_tokenMetadata r' t) = msg_sender e"
    using r int_registerToken_effect(1,4,6)[OF r]
    by (simp add: reg_registerToken_def reg_isTokenRegistered_def)
next
  show "reg_registerToken e t d w l cat tags (r\<lparr>r_tokenFactory := x\<rparr>)
       = (case reg_registerToken e t d w l cat tags r of
            Inl err \<Rightarrow> Inl err
          | Inr r' \<Rightarrow> Inr (r'\<lparr>r_tokenFactory := x\<rparr>))"
    unfolding reg_registerToken_def by (rule int_registerToken_tokenFactory)
qed

lemma ex_registry3_registered:
  "reg_registerToken (ex_rtxn 8 3) 20 ''d'' ''w'' ''l'' 4 [] ex_registry2 = Inr ex_registry3"
  by (simp add: reg_registerToken_def int_registerToken_def update_creator_info_def
      decode_required_def decode_optional_def try_maxSupply_def checked_add_def
      ex_rtxn_def ex_remote_def ex_registry0_def ex_registry1_def ex_registry2_def
      ex_registry3_def ex_TokenMetadata_def ex_CreatorInfo_def zero_TokenMetadata_def
      zero_CreatorInfo_def Let_def)

lemma ex_registry3_reachable: "registry_reachable ex_registry3"
  using registry_reachable.called[OF ex_registry2_reachable,
      of "Tx (ex_rtxn 8 3) (RegisterToken 20 ''d'' ''w'' ''l'' 4 []) []"]
    ex_registry3_registered
  by simp

text \<open>Token 20 was not deployed by the example factory, has no \<open>decimals()\<close> and no
  \<open>maxSupply()\<close>; account 8 registers it in the example registry.\<close>

theorem registry_accepts_any_token_witness:
  "20 \<notin> set (f_allTokens ex_factory) \<and> \<not> r_registryPaused ex_registry2 \<and> (20::address) \<noteq> 0
   \<and> \<not> tm_active (r_tokenMetadata ex_registry2 20) \<and> 4 < r_totalCategories ex_registry2
   \<and> r_registrationFee ex_registry2 \<le> msg_value (ex_rtxn 8 3)
   \<and> name_reply (remote (ex_rtxn 8 3) 20) = Returned ''Other''
   \<and> symbol_reply (remote (ex_rtxn 8 3) 20) = Returned ''OTH''
   \<and> reg_registerToken (ex_rtxn 8 3) 20 ''d'' ''w'' ''l'' 4 [] ex_registry2 = Inr ex_registry3
   \<and> reg_isTokenRegistered 20 ex_registry3
   \<and> r_allTokens ex_registry3 = r_allTokens ex_registry2 @ [20]
   \<and> tm_creator (r_tokenMetadata ex_registry3 20) = msg_sender (ex_rtxn 8 3)"
proof -
  have m1: "(- 1 :: uint256) \<noteq> 0" "(- 1 :: uint256) \<noteq> 1" by simp_all
  have h: "20 \<notin> set (f_allTokens ex_factory)" "\<not> r_registryPaused ex_registry2"
    "\<not> tm_active (r_tokenMetadata ex_registry2 20)" "4 < r_totalCategories ex_registry2"
    "r_registrationFee ex_registry2 \<le> msg_value (ex_rtxn 8 3)"
    "name_reply (remote (ex_rtxn 8 3) 20) = Returned ''Other''"
    "symbol_reply (remote (ex_rtxn 8 3) 20) = Returned ''OTH''"
    "decimals_reply (remote (ex_rtxn 8 3) 20) \<noteq> ReturnedGarbage"
    "totalSupply_reply (remote (ex_rtxn 8 3) 20) \<noteq> ReturnedGarbage"
    "maxSupply_reply (remote (ex_rtxn 8 3) 20) \<noteq> ReturnedGarbage"
    "maxSupply_reply (remote (ex_rtxn 8 3) 20) \<noteq> ReturnedNothing"
    "r_totalTokensRegistered ex_registry2 \<noteq> - 1" "r_totalCreators ex_registry2 \<noteq> - 1"
    "ci_totalTokens (r_creatorInfo ex_registry2 (msg_sender (ex_rtxn 8 3))) \<noteq> - 1"
    using m1
    by (simp_all add: ex_factory_def ex_registry2_def ex_registry1_def ex_registry0_def
        ex_rtxn_def ex_remote_def zero_TokenMetadata_def zero_CreatorInfo_def)
  show ?thesis
    using h ex_registry3_registered
      registry_accepts_any_token[where f = ex_factory and r = ex_registry2 and t = 20
        and e = "ex_rtxn 8 3" and cat = 4 and nm = "''Other''" and sy = "''OTH''"
        and d = "''d''" and w = "''w''" and l = "''l''" and tags = "[]"]
    by simp
qed

section \<open>The filtered queries of the registry\<close>

text \<open>The first loop, started at index \<open>i\<close> with \<open>count\<close> cells filled, with room
  for the rest of the ledger: it does not revert, adds the number of matching addresses
  from \<open>i\<close> on to \<open>count\<close>, and the filled cells are the old ones followed by those
  addresses in order.\<close>

declare scan_loop.simps [simp del] copy_loop.simps [simp del]

lemma scan_loop_correct:
  assumes "count + (length allTokens - i) \<le> length tempTokens"
  shows "\<exists>tempTokens'.
           scan_loop matches allTokens i count tempTokens
             = Inr (count + length (filter matches (drop i allTokens)), tempTokens')
           \<and> length tempTokens' = length tempTokens
           \<and> take (count + length (filter matches (drop i allTokens))) tempTokens'
               = take count tempTokens @ filter matches (drop i allTokens)"
  using assms
proof (induction matches allTokens i count tempTokens rule: scan_loop.induct)
  case (1 matches allTokens i count tempTokens)
  show ?case
  proof (cases "i < length allTokens")
    case False
    then show ?thesis by (simp add: scan_loop.simps[of matches allTokens i])
  next
    case True
    then have d: "drop i allTokens = allTokens ! i # drop (i + 1) allTokens"
      by (simp add: Cons_nth_drop_Suc)
    show ?thesis
    proof (cases "matches (allTokens ! i)")
      case False
      have "count + (length allTokens - (i + 1)) \<le> length tempTokens" using "1.prems" by simp
      from "1.IH"(2)[OF True False this] show ?thesis
        using True False d by (simp add: scan_loop.simps[of matches allTokens i])
    next
      case m: True
      have c: "count < length tempTokens" using "1.prems" True by simp
      let ?t = "tempTokens[count := allTokens ! i]"
      have "count + 1 + (length allTokens - (i + 1)) \<le> length ?t" using "1.prems" True by simp
      from "1.IH"(1)[OF True m c this] obtain tempTokens' where
        r: "scan_loop matches allTokens (i + 1) (count + 1) ?t
              = Inr (count + 1 + length (filter matches (drop (i + 1) allTokens)), tempTokens')"
        and l: "length tempTokens' = length ?t"
        and t: "take (count + 1 + length (filter matches (drop (i + 1) allTokens))) tempTokens'
                  = take (count + 1) ?t @ filter matches (drop (i + 1) allTokens)"
        by blast
      have "take (count + 1) ?t = take count tempTokens @ [allTokens ! i]"
        using c by (simp add: take_Suc_conv_app_nth)
      then show ?thesis
        using True m c d r l t by (simp add: scan_loop.simps[of matches allTokens i])
    qed
  qed
qed

text \<open>The second loop copies cell by cell.\<close>

lemma copy_loop_correct:
  assumes "length tokens = count" and "count \<le> length tempTokens" and "i \<le> count"
  shows "copy_loop tempTokens count i tokens
           = Inr (take i tokens @ drop i (take count tempTokens))"
  using assms
proof (induction tempTokens count i tokens rule: copy_loop.induct)
  case (1 tempTokens count i tokens)
  show ?case
  proof (cases "i < count")
    case False
    then have "copy_loop tempTokens count i tokens = Inr tokens"
      by (subst copy_loop.simps) simp
    then show ?thesis using "1.prems" False by simp
  next
    case True
    then have b: "i < length tokens \<and> i < length tempTokens" using "1.prems" by simp
    let ?t = "tokens[i := tempTokens ! i]"
    have step: "copy_loop tempTokens count i tokens = copy_loop tempTokens count (i + 1) ?t"
      using True b by (subst copy_loop.simps) simp
    have "copy_loop tempTokens count (i + 1) ?t
            = Inr (take (i + 1) ?t @ drop (i + 1) (take count tempTokens))"
      using "1.IH"[OF True b] "1.prems" True by simp
    moreover have "take (i + 1) ?t = take i tokens @ [tempTokens ! i]"
      using b by (simp add: take_Suc_conv_app_nth)
    moreover have "drop i (take count tempTokens)
                     = tempTokens ! i # drop (i + 1) (take count tempTokens)"
      using True b by (simp add: Cons_nth_drop_Suc[symmetric])
    ultimately show ?thesis using step by simp
  qed
qed

lemma scan_tokens_filter: "scan_tokens matches allTokens = Inr (filter matches allTokens)"
proof -
  let ?n = "length (filter matches allTokens)"
  from scan_loop_correct[of 0 allTokens 0 "replicate (length allTokens) 0" matches]
  obtain tempTokens' where
    r: "scan_loop matches allTokens 0 0 (replicate (length allTokens) 0) = Inr (?n, tempTokens')"
    and l: "length tempTokens' = length allTokens"
    and t: "take ?n tempTokens' = filter matches allTokens"
    by auto
  have "?n \<le> length tempTokens'" using l by simp
  then have "copy_loop tempTokens' ?n 0 (replicate ?n 0) = Inr (take ?n tempTokens')"
    using copy_loop_correct[of "replicate ?n 0" ?n tempTokens' 0] by simp
  then show ?thesis using r t by (simp add: scan_tokens_def)
qed

text \<open>
  Claim C5. \<open>getVerifiedTokens\<close> returns the addresses of \<open>allTokens\<close> whose
  verified flag is set, in the order of \<open>allTokens\<close>; \<open>getTokensByCreator\<close> those
  whose stored creator is the argument; \<open>getTokensByCategory\<close> reverts with
  \<open>InvalidCategoryId\<close> for \<open>categoryId >= totalCategories\<close> and otherwise returns
  those whose stored category is the argument. None of the scans reverts otherwise. In
  every reachable state \<open>allTokens\<close> holds exactly the registered tokens, each once.
\<close>

theorem filtered_queries_exact:
  "reg_getVerifiedTokens s
     = Inr (filter (\<lambda>t. tm_verified (r_tokenMetadata s t)) (r_allTokens s))
   \<and> reg_getTokensByCreator creator s
       = Inr (filter (\<lambda>t. tm_creator (r_tokenMetadata s t) = creator) (r_allTokens s))
   \<and> reg_getTokensByCategory categoryId s
       = (if categoryId \<ge> r_totalCategories s then Inl InvalidCategoryId
          else Inr (filter (\<lambda>t. tm_category (r_tokenMetadata s t) = categoryId) (r_allTokens s)))
   \<and> (registry_reachable s \<longrightarrow>
        set (r_allTokens s) = {t. reg_isTokenRegistered t s} \<and> distinct (r_allTokens s))"
proof (intro conjI impI)
  show "reg_getVerifiedTokens s
     = Inr (filter (\<lambda>t. tm_verified (r_tokenMetadata s t)) (r_allTokens s))"
    by (simp add: reg_getVerifiedTokens_def scan_tokens_filter)
  show "reg_getTokensByCreator creator s
       = Inr (filter (\<lambda>t. tm_creator (r_tokenMetadata s t) = creator) (r_allTokens s))"
    by (simp add: reg_getTokensByCreator_def scan_tokens_filter)
  show "reg_getTokensByCategory categoryId s
       = (if categoryId \<ge> r_totalCategories s then Inl InvalidCategoryId
          else Inr (filter (\<lambda>t. tm_category (r_tokenMetadata s t) = categoryId) (r_allTokens s)))"
    by (simp add: reg_getTokensByCategory_def scan_tokens_filter)
next
  assume "registry_reachable s"
  then have "registry_inv s" by (rule registry_reachable_inv)
  then show "set (r_allTokens s) = {t. reg_isTokenRegistered t s}"
    and "distinct (r_allTokens s)"
    by (simp_all add: registry_inv_def reg_isTokenRegistered_def)
qed

text \<open>At the example registry with tokens 9 (verified, by account 7, category 0) and 20
  (not verified, by account 8, category 4).\<close>

theorem filtered_queries_exact_witness:
  "registry_reachable ex_registry3
   \<and> r_allTokens ex_registry3 = [9, 20]
   \<and> reg_getVerifiedTokens ex_registry3 = Inr [9]
   \<and> reg_getTokensByCreator 8 ex_registry3 = Inr [20]
   \<and> reg_getTokensByCategory 4 ex_registry3 = Inr [20]
   \<and> reg_getTokensByCategory 5 ex_registry3 = Inl InvalidCategoryId
   \<and> distinct (r_allTokens ex_registry3)"
proof -
  have h: "r_allTokens ex_registry3 = [9, 20]"
    "tm_verified (r_tokenMetadata ex_registry3 9)"
    "\<not> tm_verified (r_tokenMetadata ex_registry3 20)"
    "tm_creator (r_tokenMetadata ex_registry3 9) = 7"
    "tm_creator (r_tokenMetadata ex_registry3 20) = 8"
    "tm_category (r_tokenMetadata ex_registry3 9) = 0"
    "tm_category (r_tokenMetadata ex_registry3 20) = 4"
    "r_totalCategories ex_registry3 = 5"
    by (simp_all add: ex_registry3_def ex_registry2_def ex_registry1_def ex_registry0_def
        ex_TokenMetadata_def)
  show ?thesis
    using h ex_registry3_reachable
      filtered_queries_exact[where s = ex_registry3 and creator = 8 and categoryId = 4]
      filtered_queries_exact[where s = ex_registry3 and creator = 8 and categoryId = 5]
    by simp
qed

end
